theory Spec2Isabelle
  imports Complex_Main "HOL-Library.Word"
begin

unbundle bit_operations_syntax

section \<open>Numbers, colours and the shared colour math\<close>

text \<open>
  A JavaScript \<open>number\<close> that the code computes from colours is modelled as a
  \<^typ>\<open>real\<close>: the arithmetic of the generators is followed exactly, without the
  rounding of IEEE doubles.  Where the source can produce \<open>NaN\<close> from a string
  (parsing a string that is no hex number) the model says so with an \<open>option\<close>.
  A number that a caller hands in (the count \<open>k\<close> of the image generator, the
  options of the role selection) can be any double, \<open>NaN\<close> and the infinities
  included, and is a \<open>jsnum\<close>.  Indices are \<^typ>\<open>nat\<close>, bytes of a
  \<open>Uint8ClampedArray\<close> are \<^typ>\<open>8 word\<close>.

  The three colour interfaces \<open>RGB\<close>, \<open>Lab\<close> and \<open>LCH\<close> are records; the
  field names carry the name of their interface because \<open>b\<close> and \<open>L\<close> occur
  in two of them.
\<close>

record RGB =
  r :: real
  g :: real
  b :: real

record Lab =
  labL :: real
  laba :: real
  labb :: real

record LCH =
  lchL :: real
  lchC :: real
  lchH :: real

text \<open>
  The numbers of a caller.  Arithmetic on them rounds nothing, but it overflows as
  doubles do: a result of magnitude \<open>2^1024\<close> or more is an infinity, the infinities
  and \<open>NaN\<close> propagate as in IEEE 754, and every comparison with \<open>NaN\<close> is
  false.  Underflow and the sign of zero are not modelled.
\<close>

datatype jsnum = Num real | PosInfinity | NegInfinity | NaN

definition overflow :: "real \<Rightarrow> jsnum" where
  "overflow x =
     (if x \<ge> 2 ^ 1024 then PosInfinity else if x \<le> - (2 ^ 1024) then NegInfinity else Num x)"

fun negN :: "jsnum \<Rightarrow> jsnum" where
  "negN (Num x) = Num (- x)"
| "negN PosInfinity = NegInfinity"
| "negN NegInfinity = PosInfinity"
| "negN NaN = NaN"

fun addN :: "jsnum \<Rightarrow> jsnum \<Rightarrow> jsnum" where
  "addN (Num x) (Num y) = overflow (x + y)"
| "addN NaN _ = NaN"
| "addN _ NaN = NaN"
| "addN PosInfinity NegInfinity = NaN"
| "addN NegInfinity PosInfinity = NaN"
| "addN PosInfinity _ = PosInfinity"
| "addN _ PosInfinity = PosInfinity"
| "addN NegInfinity _ = NegInfinity"
| "addN _ NegInfinity = NegInfinity"

definition subN :: "jsnum \<Rightarrow> jsnum \<Rightarrow> jsnum" where
  "subN x y = addN x (negN y)"

fun mulN :: "jsnum \<Rightarrow> jsnum \<Rightarrow> jsnum" where
  "mulN (Num x) (Num y) = overflow (x * y)"
| "mulN NaN _ = NaN"
| "mulN _ NaN = NaN"
| "mulN (Num x) PosInfinity = (if x = 0 then NaN else if 0 < x then PosInfinity else NegInfinity)"
| "mulN (Num x) NegInfinity = (if x = 0 then NaN else if 0 < x then NegInfinity else PosInfinity)"
| "mulN PosInfinity (Num y) = (if y = 0 then NaN else if 0 < y then PosInfinity else NegInfinity)"
| "mulN NegInfinity (Num y) = (if y = 0 then NaN else if 0 < y then NegInfinity else PosInfinity)"
| "mulN PosInfinity PosInfinity = PosInfinity"
| "mulN PosInfinity NegInfinity = NegInfinity"
| "mulN NegInfinity PosInfinity = NegInfinity"
| "mulN NegInfinity NegInfinity = PosInfinity"

text \<open>\<open>x ** p\<close> for an exponent \<open>p\<close> that is positive and no integer.\<close>

fun powN :: "jsnum \<Rightarrow> real \<Rightarrow> jsnum" where
  "powN (Num x) p = (if x < 0 then NaN else overflow (x powr p))"
| "powN PosInfinity p = PosInfinity"
| "powN NegInfinity p = PosInfinity"
| "powN NaN p = NaN"

fun lessN :: "jsnum \<Rightarrow> jsnum \<Rightarrow> bool" where
  "lessN (Num x) (Num y) \<longleftrightarrow> x < y"
| "lessN NaN _ \<longleftrightarrow> False"
| "lessN _ NaN \<longleftrightarrow> False"
| "lessN _ NegInfinity \<longleftrightarrow> False"
| "lessN PosInfinity _ \<longleftrightarrow> False"
| "lessN _ PosInfinity \<longleftrightarrow> True"
| "lessN NegInfinity _ \<longleftrightarrow> True"

fun leqN :: "jsnum \<Rightarrow> jsnum \<Rightarrow> bool" where
  "leqN (Num x) (Num y) \<longleftrightarrow> x \<le> y"
| "leqN NaN _ \<longleftrightarrow> False"
| "leqN _ NaN \<longleftrightarrow> False"
| "leqN NegInfinity _ \<longleftrightarrow> True"
| "leqN _ PosInfinity \<longleftrightarrow> True"
| "leqN _ _ \<longleftrightarrow> False"

text \<open>
  An exception is an \<open>error\<close>; a function that can throw returns \<open>error + 'a\<close>.
  \<open>NotANumber\<close> is no exception: it marks a place where the source would go on
  with a \<open>NaN\<close> that it has computed itself, which the model does not follow.
\<close>

datatype error = TypeError string | RangeError string | NotANumber

definition linearize :: "real \<Rightarrow> real" where
  "linearize c = (if c \<le> 0.04045 then c / 12.92 else ((c + 0.055) / 1.055) powr 2.4)"

definition delinearize :: "real \<Rightarrow> real" where
  "delinearize c = (if c \<le> 0.0031308 then 12.92 * c else 1.055 * c powr (1 / 2.4) - 0.055)"

definition clamp01 :: "real \<Rightarrow> real" where
  "clamp01 v = max 0 (min 1 v)"

definition lerp :: "real \<Rightarrow> real \<Rightarrow> real \<Rightarrow> real" where
  "lerp x y t = x + (y - x) * t"

text \<open>\<open>Math.cbrt\<close> is the real cube root, which keeps the sign of its argument.\<close>

definition cbrt :: "real \<Rightarrow> real" where
  "cbrt x = root 3 x"

definition rgbToOklab :: "RGB \<Rightarrow> Lab" where
  "rgbToOklab c =
     (let lr = linearize (r c); lg = linearize (g c); lb = linearize (b c);
          l = cbrt (0.4122214708 * lr + 0.5363325363 * lg + 0.0514459929 * lb);
          m = cbrt (0.2119034982 * lr + 0.6806995451 * lg + 0.1073969566 * lb);
          s = cbrt (0.0883024619 * lr + 0.2817188376 * lg + 0.6299787005 * lb)
      in \<lparr> labL = 0.2104542553 * l + 0.793617785 * m - 0.0040720468 * s,
           laba = 1.9779984951 * l - 2.428592205 * m + 0.4505937099 * s,
           labb = 0.0259040371 * l + 0.7827717662 * m - 0.808675766 * s \<rparr>)"

text \<open>OKLab to sRGB without clipping (\<open>oklabToRgbRaw\<close> of the semantic-token generator).\<close>

definition oklabToRgbRaw :: "Lab \<Rightarrow> RGB" where
  "oklabToRgbRaw lab =
     (let l = labL lab + 0.3963377774 * laba lab + 0.2158037573 * labb lab;
          m = labL lab - 0.1055613458 * laba lab - 0.0638541728 * labb lab;
          s = labL lab - 0.0894841775 * laba lab - 1.291485548 * labb lab;
          l3 = l * l * l; m3 = m * m * m; s3 = s * s * s
      in \<lparr> r = delinearize (4.0767416621 * l3 - 3.3077115913 * m3 + 0.2309699292 * s3),
           g = delinearize (- 1.2684380046 * l3 + 2.6097574011 * m3 - 0.3413193965 * s3),
           b = delinearize (- 0.0041960863 * l3 - 0.7034186147 * m3 + 1.707614701 * s3) \<rparr>)"

text \<open>
  The clamped conversion.  The image, contrast and role-selection modules write the
  clamp into the conversion itself; the result is the same function.
\<close>

definition oklabToRgb :: "Lab \<Rightarrow> RGB" where
  "oklabToRgb lab =
     (let c = oklabToRgbRaw lab in \<lparr> r = clamp01 (r c), g = clamp01 (g c), b = clamp01 (b c) \<rparr>)"

definition labDist2 :: "Lab \<Rightarrow> Lab \<Rightarrow> real" where
  "labDist2 p q = (labL p - labL q)\<^sup>2 + (laba p - laba q)\<^sup>2 + (labb p - labb q)\<^sup>2"

definition labChroma :: "Lab \<Rightarrow> real" where
  "labChroma lab = sqrt (laba lab * laba lab + labb lab * labb lab)"


section \<open>Polar form, rounding and hex strings\<close>

definition oklchToOklab :: "LCH \<Rightarrow> Lab" where
  "oklchToOklab c =
     \<lparr> labL = lchL c, laba = lchC c * cos (lchH c * pi / 180), labb = lchC c * sin (lchH c * pi / 180) \<rparr>"

text \<open>
  \<open>Math.atan2(y, x)\<close> on reals.  The source can tell \<open>-0\<close> from \<open>+0\<close>, the model
  cannot: on the negative x-axis it answers \<open>pi\<close>, as the source does for \<open>y = +0\<close>.
\<close>

definition atan2 :: "real \<Rightarrow> real \<Rightarrow> real" where
  "atan2 y x =
     (if 0 < x then arctan (y / x)
      else if x < 0 then (if 0 \<le> y then arctan (y / x) + pi else arctan (y / x) - pi)
      else if 0 < y then pi / 2 else if y < 0 then - (pi / 2) else 0)"

text \<open>The remainder operator \<open>%\<close> of JavaScript: the quotient is truncated towards zero.\<close>

definition jsTrunc :: "real \<Rightarrow> int" where
  "jsTrunc q = (if 0 \<le> q then \<lfloor>q\<rfloor> else \<lceil>q\<rceil>)"

definition jsMod :: "real \<Rightarrow> real \<Rightarrow> real" where
  "jsMod x y = x - y * of_int (jsTrunc (x / y))"

definition oklabToOklch :: "Lab \<Rightarrow> LCH" where
  "oklabToOklch c =
     \<lparr> lchL = labL c,
       lchC = sqrt (laba c * laba c + labb c * labb c),
       lchH = jsMod (atan2 (labb c) (laba c) * 180 / pi + 360) 360 \<rparr>"

text \<open>\<open>Math.round\<close> rounds halves up.\<close>

definition jsRound :: "real \<Rightarrow> int" where
  "jsRound x = \<lfloor>x + 1 / 2\<rfloor>"

definition hexChar :: "nat \<Rightarrow> char" where
  "hexChar n = ''0123456789abcdef'' ! n"

function digits16 :: "nat \<Rightarrow> string" where
  "digits16 n = (if n < 16 then [hexChar n] else digits16 (n div 16) @ [hexChar (n mod 16)])"
  by pat_completeness auto
termination
  by (relation "measure (\<lambda>n. n)") auto

declare digits16.simps [simp del]

text \<open>\<open>Number.prototype.toString(16)\<close> of an integer, and \<open>padStart(2, "0")\<close>.\<close>

definition toString16 :: "int \<Rightarrow> string" where
  "toString16 i = (if i < 0 then CHR ''-'' # digits16 (nat (- i)) else digits16 (nat i))"

definition padStart2 :: "string \<Rightarrow> string" where
  "padStart2 s = replicate (2 - length s) CHR ''0'' @ s"

text \<open>
  The channel encoder \<open>f\<close> of \<open>rgbToHex\<close>.  The semantic-token generator and the role
  selection clamp the channel first (\<open>hexByteClamped\<close>); the image and the algorithmic
  generators encode the channel as it comes (\<open>hexByte\<close>), always after a clamped
  conversion.
\<close>

definition hexByte :: "real \<Rightarrow> string" where
  "hexByte c = padStart2 (toString16 (jsRound (c * 255)))"

definition hexByteClamped :: "real \<Rightarrow> string" where
  "hexByteClamped c = hexByte (clamp01 c)"

definition rgbToHex :: "RGB \<Rightarrow> string" where
  "rgbToHex c = CHR ''#'' # hexByteClamped (r c) @ hexByteClamped (g c) @ hexByteClamped (b c)"

definition rgbToHexPlain :: "RGB \<Rightarrow> string" where
  "rgbToHexPlain c = CHR ''#'' # hexByte (r c) @ hexByte (g c) @ hexByte (b c)"

text \<open>
  Reading hex digits.  \<open>parseInt(s, 16)\<close> reads the longest prefix of hex digits and
  is \<open>NaN\<close> (here \<open>None\<close>) when that prefix is empty.  Leading white space, a sign and a
  \<open>0x\<close> prefix, which \<open>parseInt\<close> also accepts, are not modelled: every string that
  is parsed below has passed a test for hex digits.
\<close>

definition hexDigitVal :: "char \<Rightarrow> nat option" where
  "hexDigitVal c =
     (let n = of_char c :: nat in
      if 48 \<le> n \<and> n \<le> 57 then Some (n - 48)
      else if 97 \<le> n \<and> n \<le> 102 then Some (n - 87)
      else if 65 \<le> n \<and> n \<le> 70 then Some (n - 55)
      else None)"

definition isHexDigit :: "char \<Rightarrow> bool" where
  "isHexDigit c \<longleftrightarrow> hexDigitVal c \<noteq> None"

definition parseInt16 :: "string \<Rightarrow> nat option" where
  "parseInt16 s =
     (let ds = takeWhile isHexDigit s in
      if ds = [] then None
      else Some (foldl (\<lambda>acc c. 16 * acc + (case hexDigitVal c of Some d \<Rightarrow> d | None \<Rightarrow> 0)) 0 ds))"

text \<open>\<open>s.slice(i, j)\<close> for \<open>0 \<le> i \<le> j\<close>.\<close>

definition sliceStr :: "nat \<Rightarrow> nat \<Rightarrow> 'a list \<Rightarrow> 'a list" where
  "sliceStr i j s = take (j - i) (drop i s)"

text \<open>\<open>hexToRgb\<close>; \<open>None\<close> when a channel is \<open>NaN\<close>.\<close>

definition hexToRgb :: "string \<Rightarrow> RGB option" where
  "hexToRgb hex =
     (case (parseInt16 (sliceStr 1 3 hex), parseInt16 (sliceStr 3 5 hex), parseInt16 (sliceStr 5 7 hex)) of
        (Some rr, Some gg, Some bb) \<Rightarrow> Some \<lparr> r = real rr / 255, g = real gg / 255, b = real bb / 255 \<rparr>
      | _ \<Rightarrow> None)"

definition hexToLch :: "string \<Rightarrow> LCH option" where
  "hexToLch hex = map_option (\<lambda>c. oklabToOklch (rgbToOklab c)) (hexToRgb hex)"

text \<open>\<open>lchToHex\<close> of the algorithmic and data-visualisation generators.\<close>

definition lchToHex :: "LCH \<Rightarrow> string" where
  "lchToHex c = rgbToHexPlain (oklabToRgb (oklchToOklab c))"


section \<open>Semantic tokens: gamut-safe encoding and palette generation\<close>

definition inGamut :: "RGB \<Rightarrow> bool" where
  "inGamut c \<longleftrightarrow>
     r c \<ge> - 0.001 \<and> r c \<le> 1.001 \<and> g c \<ge> - 0.001 \<and> g c \<le> 1.001 \<and> b c \<ge> - 0.001 \<and> b c \<le> 1.001"

text \<open>
  The loop \<open>for (let i = 0; i < 24; i++)\<close> of \<open>lchToHexSafe\<close> on the pair
  \<open>(lo, hi)\<close>; the test is made on the raw conversion.
\<close>

function chromaSearch :: "LCH \<Rightarrow> nat \<Rightarrow> real \<Rightarrow> real \<Rightarrow> real \<times> real" where
  "chromaSearch lch i lo hi =
     (if i < 24 then
        (let mid = (lo + hi) / 2 in
         if inGamut (oklabToRgbRaw (oklchToOklab (lch \<lparr> lchC := mid \<rparr>)))
         then chromaSearch lch (Suc i) mid hi
         else chromaSearch lch (Suc i) lo mid)
      else (lo, hi))"
  by pat_completeness auto
termination
  by (relation "measure (\<lambda>(lch, i, lo, hi). 24 - i)") auto

declare chromaSearch.simps [simp del]

definition lchToHexSafe :: "LCH \<Rightarrow> string" where
  "lchToHexSafe lch =
     (let direct = oklabToRgbRaw (oklchToOklab lch) in
      if inGamut direct then rgbToHex (oklabToRgb (oklchToOklab lch))
      else (let (lo, hi) = chromaSearch lch 0 0 (lchC lch)
            in rgbToHex (oklabToRgb (oklchToOklab (lch \<lparr> lchC := lo \<rparr>)))))"

text \<open>String tests of the key matching: \<open>startsWith\<close>, \<open>endsWith\<close>, \<open>includes\<close> (here \<open>includesStr\<close>).\<close>

definition startsWith :: "string \<Rightarrow> string \<Rightarrow> bool" where
  "startsWith s p \<longleftrightarrow> take (length p) s = p"

definition endsWith :: "string \<Rightarrow> string \<Rightarrow> bool" where
  "endsWith s p \<longleftrightarrow> length p \<le> length s \<and> drop (length s - length p) s = p"

fun includesStr :: "string \<Rightarrow> string \<Rightarrow> bool" where
  "includesStr [] p = (p = [])"
| "includesStr (c # cs) p = (startsWith (c # cs) p \<or> includesStr cs p)"

text \<open>\<open>toLowerCase\<close> on ASCII letters; other characters are left as they are.\<close>

definition toLowerChar :: "char \<Rightarrow> char" where
  "toLowerChar c =
     (let n = of_char c :: nat in if 65 \<le> n \<and> n \<le> 90 then char_of (n + 32) else c)"

definition isLowerLetter :: "char \<Rightarrow> bool" where
  "isLowerLetter c \<longleftrightarrow> (let n = of_char c :: nat in 97 \<le> n \<and> n \<le> 122)"

text \<open>\<open>key.toLowerCase().replace(/[^a-z]/g, "")\<close>.\<close>

definition normaliseKey :: "string \<Rightarrow> string" where
  "normaliseKey key = filter isLowerLetter (map toLowerChar key)"

definition HARMONY_OFFSETS :: "(string \<times> real list) list" where
  "HARMONY_OFFSETS =
     [(''harmonypalette'', [0, 150, 210]),
      (''analogous'', [- 30, 0, 30]),
      (''complementary'', [0, 180]),
      (''splitcomplementary'', [0, 150, 210]),
      (''triadic'', [0, 120, 240]),
      (''tetradic'', [0, 60, 180, 240]),
      (''square'', [0, 90, 180, 270]),
      (''accentedanalogous'', [- 30, 0, 30, 180]),
      (''doublesplitcomplementary'', [0, 30, 150, 180, 210, 330]),
      (''ambiguous'', [15, 135, 255])]"

text \<open>
  The ordered table of single-swatch transforms: a predicate on the normalised key and
  the transform of the base colour.
\<close>

definition SEMANTIC_TRANSFORMS :: "((string \<Rightarrow> bool) \<times> (LCH \<Rightarrow> LCH)) list" where
  "SEMANTIC_TRANSFORMS =
     [(\<lambda>k. includesStr k ''neutrallight'' \<or> (includesStr k ''neutral'' \<and> includesStr k ''light''),
       \<lambda>lch. lch \<lparr> lchL := 0.93, lchC := min (lchC lch * 0.08) 0.015 \<rparr>),
      (\<lambda>k. includesStr k ''neutraldark'' \<or> (includesStr k ''neutral'' \<and> includesStr k ''dark''),
       \<lambda>lch. lch \<lparr> lchL := 0.1, lchC := min (lchC lch * 0.08) 0.015 \<rparr>),
      (\<lambda>k. includesStr k ''neutral'',
       \<lambda>lch. lch \<lparr> lchL := 0.55, lchC := min (lchC lch * 0.06) 0.012 \<rparr>),
      (\<lambda>k. endsWith k ''shade'' \<or> includesStr k ''colorshade'',
       \<lambda>lch. lch \<lparr> lchL := 0.3, lchC := lchC lch \<rparr>),
      (\<lambda>k. endsWith k ''dark'',
       \<lambda>lch. lch \<lparr> lchL := 0.22, lchC := lchC lch \<rparr>),
      (\<lambda>k. endsWith k ''light'' \<or> endsWith k ''tint'',
       \<lambda>lch. lch \<lparr> lchL := 0.88, lchC := lchC lch * 0.5 \<rparr>),
      (\<lambda>k. startsWith k ''accent'',
       \<lambda>lch. lch \<lparr> lchL := 0.62, lchC := max (lchC lch) 0.22 \<rparr>),
      (\<lambda>k. startsWith k ''main'' \<or> startsWith k ''primary'' \<or> startsWith k ''brand'',
       \<lambda>lch. lch \<lparr> lchL := 0.52, lchC := max (lchC lch) 0.22 \<rparr>),
      (\<lambda>k. startsWith k ''background'' \<or> startsWith k ''bg'',
       \<lambda>lch. lch \<lparr> lchL := 0.97, lchC := min (lchC lch * 0.08) 0.012 \<rparr>),
      (\<lambda>k. startsWith k ''surface'',
       \<lambda>lch. lch \<lparr> lchL := 0.91, lchC := min (lchC lch * 0.18) 0.025 \<rparr>),
      (\<lambda>k. startsWith k ''foreground'' \<or> startsWith k ''text'' \<or> startsWith k ''on'',
       \<lambda>lch. lch \<lparr> lchL := 0.18, lchC := min (lchC lch * 0.12) 0.02 \<rparr>)]"

definition buildFromOffsets :: "LCH \<Rightarrow> real list \<Rightarrow> nat \<Rightarrow> string list" where
  "buildFromOffsets lch offsets n =
     map (\<lambda>i. let deg = offsets ! (i mod length offsets);
                   extraShift = real (i div length offsets) * 0.08
               in lchToHexSafe (lch \<lparr> lchL := clamp01 (lchL lch - extraShift),
                                      lchH := jsMod (lchH lch + deg + 360) 360 \<rparr>))
         [0 ..< n]"

definition buildEvenlySpaced :: "LCH \<Rightarrow> nat \<Rightarrow> string list" where
  "buildEvenlySpaced lch n =
     map (\<lambda>i. lchToHexSafe (lch \<lparr> lchH := jsMod (lchH lch + (360 / real n) * real i) 360 \<rparr>))
         [0 ..< n]"

definition buildMonochromaticRamp :: "LCH \<Rightarrow> nat \<Rightarrow> string list" where
  "buildMonochromaticRamp lch n =
     map (\<lambda>i. let t = real i / real (max (n - 1) 1);
                   l = lerp 0.12 0.94 t;
                   c = lchC lch * clamp01 (1 - \<bar>t - 0.45\<bar> powr 2.5)
               in lchToHexSafe \<lparr> lchL = l, lchC = c, lchH = lchH lch \<rparr>)
         [0 ..< n]"

definition buildTintShadeRamp :: "LCH \<Rightarrow> nat \<Rightarrow> string list" where
  "buildTintShadeRamp lch n =
     map (\<lambda>i. let t = real i / real (max (n - 1) 1);
                   tCurved = (if t < 0.5 then 0.5 * (t * 2) powr 1.6
                              else 1 - 0.5 * ((1 - t) * 2) powr 1.4);
                   l = lerp 0.1 0.96 tCurved;
                   c = lchC lch * clamp01 (1 - ((t - 0.4) / 0.7)\<^sup>2 * 0.6)
               in lchToHexSafe \<lparr> lchL = l, lchC = c, lchH = lchH lch \<rparr>)
         [0 ..< n]"

text \<open>The loop \<open>for (const { match, apply } of SEMANTIC_TRANSFORMS)\<close>: the first match wins.\<close>

fun firstTransform :: "((string \<Rightarrow> bool) \<times> (LCH \<Rightarrow> LCH)) list \<Rightarrow> string \<Rightarrow> (LCH \<Rightarrow> LCH) option" where
  "firstTransform [] k = None"
| "firstTransform ((match, apply) # rest) k = (if match k then Some apply else firstTransform rest k)"

text \<open>
  \<open>generatePalette\<close>.  \<open>HARMONY_OFFSETS[k]\<close> is a property read on an object
  literal, so the key \<open>constructor\<close> finds the inherited \<open>Object\<close> function, which is
  truthy, has length 1 and no element \<open>0\<close>: every hue is \<open>NaN\<close> and every swatch
  comes out as the string \<open>#NaNNaNNaN\<close>.  No other normalised key names an inherited
  property.
\<close>

definition generatePalette :: "string \<Rightarrow> LCH \<Rightarrow> nat \<Rightarrow> string list" where
  "generatePalette key lch n =
     (let k = normaliseKey key in
      if n > 1 then
        (if includesStr k ''tintshade'' then buildTintShadeRamp lch n
         else if includesStr k ''monochromatic'' then buildMonochromaticRamp lch n
         else if includesStr k ''tint'' \<or> includesStr k ''shade'' then buildTintShadeRamp lch n
         else if k = ''constructor'' then replicate n ''#NaNNaNNaN''
         else (case map_of HARMONY_OFFSETS k of
                 Some offsets \<Rightarrow> buildFromOffsets lch offsets n
               | None \<Rightarrow> buildEvenlySpaced lch n))
      else
        (case firstTransform SEMANTIC_TRANSFORMS k of
           Some apply \<Rightarrow> [lchToHexSafe (apply lch)]
         | None \<Rightarrow> [lchToHexSafe (lch \<lparr> lchL := 0.55, lchC := max (lchC lch) 0.18 \<rparr>)]))"

text \<open>\<open>HEX_RE = /^#[0-9a-fA-F]{6}$/\<close> and \<open>extractColorFromArray\<close>.\<close>

definition HEX_RE :: "string \<Rightarrow> bool" where
  "HEX_RE s \<longleftrightarrow> length s = 7 \<and> hd s = CHR ''#'' \<and> list_all isHexDigit (tl s)"

fun extractColorFromArray :: "string list \<Rightarrow> string" where
  "extractColorFromArray [] = ''#ff0000''"
| "extractColorFromArray (color # rest) = (if HEX_RE color then color else extractColorFromArray rest)"

text \<open>
  \<open>generateRadiumColors\<close>.  A palette map is the list of its entries in the order of
  \<open>Object.entries\<close>; its keys are distinct.  The result is \<open>None\<close> when the base colour
  parses to \<open>NaN\<close>, which \<open>extractColorFromArray\<close> excludes.
\<close>

definition radiumEntry :: "string \<times> string list \<Rightarrow> (string \<times> string list) option" where
  "radiumEntry e =
     (case e of (key, colors) \<Rightarrow>
        (let base = extractColorFromArray colors in
         case hexToLch base of
           None \<Rightarrow> None
         | Some lch \<Rightarrow> Some (key, generatePalette key lch (length colors))))"

definition generateRadiumColors :: "(string \<times> string list) list \<Rightarrow> (string \<times> string list) list option" where
  "generateRadiumColors input = those (map radiumEntry input)"


section \<open>The seeded generator of the algorithmic palettes\<close>

text \<open>
  \<open>makePrng\<close> returns a closure over the number \<open>s\<close>.  The model passes \<open>s\<close>
  along: \<open>makePrng\<close> gives the initial state and \<open>prngNext\<close> is one call of the closure,
  which returns the new state and the value drawn.  \<open>s\<close> is never reduced modulo
  \<open>2^32\<close> in the source (\<open>s += 0x6d2b79f5\<close> is an addition of numbers), the bit
  operations reduce their operands; so the state is an \<^typ>\<open>int\<close> and \<open>z\<close> is a
  \<^typ>\<open>32 word\<close>.  (A double holds \<open>s\<close> exactly for some millions of calls; the model
  holds it exactly for ever.)
\<close>

definition makePrng :: "int \<Rightarrow> int" where
  "makePrng seed = uint (word_of_int seed :: 32 word)"

definition mulberry :: "32 word \<Rightarrow> 32 word" where
  "mulberry z0 =
     (let z1 = (z0 XOR drop_bit 15 z0) * (z0 OR 1);
          z2 = z1 XOR (z1 + (z1 XOR drop_bit 7 z1) * (z1 OR 61))
      in z2 XOR drop_bit 14 z2)"

definition prngNext :: "int \<Rightarrow> int \<times> real" where
  "prngNext s =
     (let s' = s + 0x6d2b79f5
      in (s', real (unat (mulberry (word_of_int s'))) / 0x100000000))"

text \<open>
  \<open>seedFromHex\<close>: \<open>h = (Math.imul(31, h) + parseInt(hex[i], 16)) | 0\<close> for
  \<open>i = 1, \<dots>, 6\<close>.  A character that is no hex digit, or a missing one, makes the sum
  \<open>NaN\<close>, and \<open>NaN | 0\<close> is \<open>0\<close>.
\<close>

definition seedStep :: "string \<Rightarrow> nat \<Rightarrow> 32 word \<Rightarrow> 32 word" where
  "seedStep hex i h =
     (case (if i < length hex then hexDigitVal (hex ! i) else None) of
        None \<Rightarrow> 0
      | Some d \<Rightarrow> 31 * h + of_nat d)"

definition seedFromHex :: "string \<Rightarrow> int" where
  "seedFromHex hex = \<bar>sint (fold (seedStep hex) [1 ..< 7] 0)\<bar>"

text \<open>
  \<open>randomPalette\<close>: the three fields of the object literal are evaluated in the order
  \<open>L\<close>, \<open>C\<close>, \<open>H\<close>, one draw each.
\<close>

fun randomLoop :: "nat \<Rightarrow> int \<Rightarrow> string list" where
  "randomLoop 0 s = []"
| "randomLoop (Suc n) s =
     (let (s1, u1) = prngNext s; (s2, u2) = prngNext s1; (s3, u3) = prngNext s2
      in lchToHex \<lparr> lchL = lerp 0.35 0.75 u1, lchC = lerp 0.08 0.2 u2, lchH = u3 * 360 \<rparr>
         # randomLoop n s3)"

definition randomPalette :: "string \<Rightarrow> nat \<Rightarrow> string list" where
  "randomPalette base n = randomLoop n (makePrng (seedFromHex base))"

text \<open>\<open>makeValueNoise\<close>: the table of 256 draws, and the noise function over it.\<close>

fun drawTable :: "nat \<Rightarrow> int \<Rightarrow> real list" where
  "drawTable 0 s = []"
| "drawTable (Suc n) s = (let (s1, u) = prngNext s in u # drawTable n s1)"

definition smoothstep :: "real \<Rightarrow> real" where
  "smoothstep t = t * t * (3 - 2 * t)"

definition makeValueNoise :: "int \<Rightarrow> real \<Rightarrow> real" where
  "makeValueNoise seed x =
     (let table = drawTable 256 (makePrng seed);
          xi = nat (\<lfloor>x\<rfloor> mod 256);
          xf = x - of_int \<lfloor>x\<rfloor>
      in lerp (table ! xi) (table ! ((xi + 1) mod 256)) (smoothstep xf))"

definition noise :: "string \<Rightarrow> nat \<Rightarrow> string list option" where
  "noise base n =
     (case hexToLch base of
        None \<Rightarrow> None
      | Some lch \<Rightarrow>
          (let seed = seedFromHex base;
               noiseL = makeValueNoise seed;
               noiseC = makeValueNoise (seed + 1);
               noiseH = makeValueNoise (seed + 2)
           in Some (map (\<lambda>i.
                let t = real i / real (max (n - 1) 1) in
                lchToHex \<lparr> lchL = clamp01 (lerp 0.35 0.8 (noiseL (t * 3.5))),
                           lchC = clamp01 (lerp 0.06 0.22 (noiseC (t * 4.1 + 1))),
                           lchH = jsMod (lchH lch + noiseH (t * 2.7 + 2) * 120 - 60) 360 \<rparr>)
              [0 ..< n])))"

text \<open>The \<open>j\<close>-th value drawn from a generator made with \<open>seed\<close>, counted from zero.\<close>

definition prngDraw :: "int \<Rightarrow> nat \<Rightarrow> real" where
  "prngDraw seed j = snd (prngNext (makePrng seed + int j * 0x6d2b79f5))"


section \<open>Image palettes: pixel sampling and the degenerate buffer\<close>

record PixelSample =
  rgbs :: "RGB list"
  labs :: "Lab list"

text \<open>
  The sampling loop \<open>for (i = 0; i < data.length; i += 4 * step)\<close>.  It returns the
  sampled pixels in order.  A buffer whose length is no multiple of four makes the source
  read \<open>undefined\<close> channels; the comparison \<open>undefined < 128\<close> is false and a pixel
  of \<open>NaN\<close>s is pushed.  The model does not follow \<open>NaN\<close>s and answers \<open>None\<close> there.
\<close>

function samplePixelsLoop :: "8 word list \<Rightarrow> nat \<Rightarrow> nat \<Rightarrow> RGB list option" where
  "samplePixelsLoop data maxPixels i =
     (let step = max 1 (length data div 4 div maxPixels) in
      if i < length data then
        (if i + 3 < length data then
           (if unat (data ! (i + 3)) < 128 then samplePixelsLoop data maxPixels (i + 4 * step)
            else map_option
                   (Cons \<lparr> r = real (unat (data ! i)) / 255,
                           g = real (unat (data ! (i + 1))) / 255,
                           b = real (unat (data ! (i + 2))) / 255 \<rparr>)
                   (samplePixelsLoop data maxPixels (i + 4 * step)))
         else None)
      else Some [])"
  by pat_completeness auto
termination
  by (relation "measure (\<lambda>(data, maxPixels, i). length data - i)") (auto simp: Let_def)

declare samplePixelsLoop.simps [simp del]

definition samplePixels :: "8 word list \<Rightarrow> nat \<Rightarrow> PixelSample option" where
  "samplePixels data maxPixels =
     map_option (\<lambda>ps. \<lparr> rgbs = ps, labs = map rgbToOklab ps \<rparr>) (samplePixelsLoop data maxPixels 0)"

record ImageGeneratorInput =
  square :: "string list option"

record ImageGeneratorOutput =
  kmeans :: "string list"
  medianCut :: "string list"
  dominant :: "string list"
  vibrant :: "string list"
  muted :: "string list"
  octree :: "string list"
  colorMoments :: "string list"
  neuralQuant :: "string list"
  histogram :: "string list"
  deltaE :: "string list"

text \<open>
  \<open>Array(k)\<close> makes an array of length \<open>k\<close> when \<open>k\<close> is an integer from
  \<open>0\<close> to \<open>2^32 - 1\<close>, and throws a \<open>RangeError\<close> for every other number.
\<close>

definition arrayOfLength :: "jsnum \<Rightarrow> error + nat" where
  "arrayOfLength k =
     (case k of
        Num x \<Rightarrow> if 0 \<le> x \<and> x < 2 ^ 32 \<and> x = of_int \<lfloor>x\<rfloor> then Inr (nat \<lfloor>x\<rfloor>)
                 else Inl (RangeError ''Invalid array length'')
      | _ \<Rightarrow> Inl (RangeError ''Invalid array length''))"

text \<open>
  \<open>generateImagePalettes(input, k = 6, data?)\<close>.  Two parts of the function are
  parameters of the model: \<open>synth\<close> stands for \<open>syntheticPixels\<close>, which is only
  called when no buffer is passed, and \<open>algos\<close> stands for the object literal that
  runs the ten extraction algorithms on a non-empty sample.  What is proved below holds
  for every choice of the two.  \<open>k\<close> is the number the caller passes.
\<close>

definition generateImagePalettes ::
  "(PixelSample \<Rightarrow> jsnum \<Rightarrow> error + ImageGeneratorOutput) \<Rightarrow> (string list \<Rightarrow> 8 word list) \<Rightarrow>
   ImageGeneratorInput \<Rightarrow> jsnum option \<Rightarrow> 8 word list option \<Rightarrow> error + ImageGeneratorOutput" where
  "generateImagePalettes algos synth input kopt data =
     (let k = (case kopt of None \<Rightarrow> Num 6 | Some k' \<Rightarrow> k');
          pixelData = (case data of Some d \<Rightarrow> d
                       | None \<Rightarrow> synth (case square input of Some s \<Rightarrow> s | None \<Rightarrow> [''#888888'']))
      in case samplePixels pixelData 6000 of
           None \<Rightarrow> Inl NotANumber
         | Some ps \<Rightarrow>
             if length (labs ps) = 0 then
               (case arrayOfLength k of
                  Inl e \<Rightarrow> Inl e
                | Inr n \<Rightarrow>
                    (let empty = replicate n ''#000000'' in
                     Inr \<lparr> kmeans = empty, medianCut = empty, dominant = empty, vibrant = empty,
                           muted = empty, octree = empty, colorMoments = empty, neuralQuant = empty,
                           histogram = empty, deltaE = empty \<rparr>))
             else algos ps k)"

text \<open>A buffer is degenerate when it is made of whole pixels and every alpha byte is below 128.\<close>

definition degenerate :: "8 word list \<Rightarrow> bool" where
  "degenerate data \<longleftrightarrow>
     length data mod 4 = 0 \<and> (\<forall>p < length data div 4. unat (data ! (4 * p + 3)) < 128)"

definition allBlack :: "nat \<Rightarrow> ImageGeneratorOutput" where
  "allBlack k =
     (let e = replicate k ''#000000'' in
      \<lparr> kmeans = e, medianCut = e, dominant = e, vibrant = e, muted = e, octree = e,
        colorMoments = e, neuralQuant = e, histogram = e, deltaE = e \<rparr>)"


section \<open>Image palettes: k-means++ clustering\<close>

text \<open>
  \<open>padToK\<close>: at least \<open>k\<close> entries are cut to \<open>k\<close>; fewer are filled up with copies
  of the last entry (or of mid grey when there is none) whose lightness is
  \<open>clamp01 (0.2 + t * 0.6)\<close>, \<open>t = result.length / k\<close>.
\<close>

function padLoop :: "Lab \<Rightarrow> nat \<Rightarrow> Lab list \<Rightarrow> Lab list" where
  "padLoop base k result =
     (if length result < k
      then padLoop base k
             (result @ [base \<lparr> labL := clamp01 (0.2 + (real (length result) / real k) * 0.6) \<rparr>])
      else result)"
  by pat_completeness auto
termination
  by (relation "measure (\<lambda>(base, k, result). k - length result)") auto

declare padLoop.simps [simp del]

definition padToK :: "Lab list \<Rightarrow> nat \<Rightarrow> Lab list" where
  "padToK ls k =
     (if length ls \<ge> k then take k ls
      else padLoop (if ls = [] then \<lparr> labL = 0.5, laba = 0, labb = 0 \<rparr> else last ls) k ls)"

text \<open>
  \<open>Math.random()\<close> is the only input of \<open>kMeansCore\<close> that is not an argument.  The
  model makes it one: \<open>rnd i\<close> is the value of the \<open>i\<close>-th call of \<open>Math.random\<close>
  made during the run, counted from zero.  The engine returns values in \<open>[0, 1)\<close>.
\<close>

definition unitDraws :: "(nat \<Rightarrow> real) \<Rightarrow> bool" where
  "unitDraws rnd \<longleftrightarrow> (\<forall>i. 0 \<le> rnd i \<and> rnd i < 1)"

definition sampleRate :: "Lab \<Rightarrow> real" where
  "sampleRate lab = (let c = labChroma lab in if c < 0.05 then 0.2 else if c < 0.15 then 0.6 else 1.0)"

text \<open>The chroma-weighted \<open>labs.filter\<close>: the pixel at index \<open>i\<close> takes draw \<open>i\<close>.\<close>

fun chromaSubsample :: "(nat \<Rightarrow> real) \<Rightarrow> nat \<Rightarrow> Lab list \<Rightarrow> Lab list" where
  "chromaSubsample rnd i [] = []"
| "chromaSubsample rnd i (lab # rest) =
     (if rnd i \<le> sampleRate lab then lab # chromaSubsample rnd (Suc i) rest
      else chromaSubsample rnd (Suc i) rest)"

text \<open>
  \<open>Math.min(...centroids.map((c) => labDist2(p, c)))\<close>.  The list of centroids is never
  empty where this is called; the value for the empty list (\<open>Infinity\<close> in the source)
  is not used.
\<close>

fun minDist :: "Lab list \<Rightarrow> Lab \<Rightarrow> real" where
  "minDist [] p = 0"
| "minDist (c # cs) p = fold (\<lambda>c' m. min m (labDist2 p c')) cs (labDist2 p c)"

text \<open>The roulette loop \<open>rand -= dists[i]; if (rand <= 0) { chosen = i; break; }\<close>.\<close>

fun pickIndex :: "real list \<Rightarrow> real \<Rightarrow> nat \<Rightarrow> nat" where
  "pickIndex [] rand i = 0"
| "pickIndex (d # ds) rand i = (if rand - d \<le> 0 then i else pickIndex ds (rand - d) (Suc i))"

function seedLoop :: "(nat \<Rightarrow> real) \<Rightarrow> nat \<Rightarrow> Lab list \<Rightarrow> nat \<Rightarrow> nat \<Rightarrow> Lab list \<Rightarrow> Lab list" where
  "seedLoop rnd base pool k ci centroids =
     (if ci < k then
        (let dists = map (minDist centroids) pool;
             sum = foldl (+) 0 dists;
             chosen = pickIndex dists (rnd (base + ci) * sum) 0
         in seedLoop rnd base pool k (Suc ci) (centroids @ [pool ! chosen]))
      else centroids)"
  by pat_completeness auto
termination
  by (relation "measure (\<lambda>(rnd, base, pool, k, ci, centroids). k - ci)") auto

declare seedLoop.simps [simp del]

text \<open>
  The inner loop over the centroids: \<open>best\<close> and \<open>bd\<close>, where \<open>bd = None\<close> is the
  initial \<open>Infinity\<close>.  The comparison is strict, so the first nearest centroid wins.
\<close>

fun nearestLoop :: "Lab \<Rightarrow> Lab list \<Rightarrow> nat \<Rightarrow> nat \<Rightarrow> real option \<Rightarrow> nat" where
  "nearestLoop p [] ci best bd = best"
| "nearestLoop p (c # cs) ci best bd =
     (let d = labDist2 p c in
      if (case bd of None \<Rightarrow> True | Some m \<Rightarrow> d < m) then nearestLoop p cs (Suc ci) ci (Some d)
      else nearestLoop p cs (Suc ci) best bd)"

definition assignAll :: "Lab list \<Rightarrow> Lab list \<Rightarrow> nat list" where
  "assignAll pool centroids = map (\<lambda>p. nearestLoop p centroids 0 0 None) pool"

text \<open>The new centroid of cluster \<open>ci\<close>: the mean of its pixels, or the old one when it has none.\<close>

definition recentre :: "Lab list \<Rightarrow> nat list \<Rightarrow> nat \<Rightarrow> Lab \<Rightarrow> Lab" where
  "recentre pool asg ci c =
     (let members = map fst (filter (\<lambda>pa. snd pa = ci) (zip pool asg));
          count = length members
      in if count > 0 then
           \<lparr> labL = foldl (+) 0 (map labL members) / real count,
             laba = foldl (+) 0 (map laba members) / real count,
             labb = foldl (+) 0 (map labb members) / real count \<rparr>
         else c)"

definition recompute :: "Lab list \<Rightarrow> nat list \<Rightarrow> Lab list \<Rightarrow> Lab list" where
  "recompute pool asg centroids =
     map (\<lambda>(ci, c). recentre pool asg ci c) (zip [0 ..< length centroids] centroids)"

text \<open>
  The Lloyd iteration \<open>for (iter = 0; iter < maxIter; iter++)\<close> with its
  \<open>if (!moved) break\<close>.  \<open>moved\<close> is true exactly when the new assignment differs from
  the old one.
\<close>

function kMeansIter :: "Lab list \<Rightarrow> nat \<Rightarrow> nat \<Rightarrow> Lab list \<Rightarrow> nat list \<Rightarrow> Lab list \<times> nat list" where
  "kMeansIter pool maxIter iter centroids asg =
     (if iter < maxIter then
        (let asg' = assignAll pool centroids in
         if asg' = asg then (centroids, asg')
         else kMeansIter pool maxIter (Suc iter) (recompute pool asg' centroids) asg')
      else (centroids, asg))"
  by pat_completeness auto
termination
  by (relation "measure (\<lambda>(pool, maxIter, iter, centroids, asg). maxIter - iter)") auto

declare kMeansIter.simps [simp del]

definition score :: "nat list \<Rightarrow> nat \<times> Lab \<Rightarrow> real" where
  "score asg x = real (length (filter (\<lambda>a. a = fst x) asg)) * (1 + 3 * labChroma (snd x))"

text \<open>
  The centroids in the order of the final \<open>sort((a, b) => b.score - a.score)\<close>, that is
  what \<open>kMeansCore\<close> hands to \<open>padToK\<close>.  \<open>Array.prototype.sort\<close> is stable, as is
  \<^const>\<open>sort_key\<close>.  The result is \<open>None\<close> when the first seed index
  \<open>Math.floor(Math.random() * n)\<close> is outside the pool, where the source goes on with an
  \<open>undefined\<close> centroid and throws on its first use; no draw in \<open>[0, 1)\<close> does that.
\<close>

definition kMeansRanked :: "(nat \<Rightarrow> real) \<Rightarrow> Lab list \<Rightarrow> nat \<Rightarrow> nat \<Rightarrow> Lab list option" where
  "kMeansRanked rnd ls k maxIter =
     (let pixels = chromaSubsample rnd 0 ls;
          pool = (if length pixels \<ge> k then pixels else ls);
          n = length pool;
          j = \<lfloor>rnd (length ls) * real n\<rfloor>
      in if 0 \<le> j \<and> j < int n then
           (let centroids = seedLoop rnd (length ls) pool k 1 [pool ! nat j];
                (centroids', asg) = kMeansIter pool maxIter 0 centroids (replicate n 0)
            in Some (map snd (sort_key (\<lambda>x. - score asg x) (zip [0 ..< length centroids'] centroids'))))
         else None)"

definition kMeansCore :: "(nat \<Rightarrow> real) \<Rightarrow> Lab list \<Rightarrow> nat \<Rightarrow> nat \<Rightarrow> Lab list option" where
  "kMeansCore rnd ls k maxIter =
     (if length ls = 0 then Some []
      else map_option (\<lambda>ranked. padToK ranked k) (kMeansRanked rnd ls k maxIter))"


section \<open>Role selection (60-30-10)\<close>

subsection \<open>Values, errors and strings\<close>

text \<open>
  \<open>select60_30_10\<close> checks its argument at run time, so the model takes a JavaScript
  value.  Numbers are integers here, so that their JSON text can be written down; arrays
  are dense.
\<close>

datatype jsval =
    JUndefined | JNull | JBool bool | JNum int | JBigInt int | JStr string | JArr "jsval list"

definition bindE :: "error + 'a \<Rightarrow> ('a \<Rightarrow> error + 'b) \<Rightarrow> error + 'b" where
  "bindE m f = (case m of Inl e \<Rightarrow> Inl e | Inr v \<Rightarrow> f v)"

fun mapE :: "('a \<Rightarrow> error + 'b) \<Rightarrow> 'a list \<Rightarrow> error + 'b list" where
  "mapE f [] = Inr []"
| "mapE f (x # xs) = bindE (f x) (\<lambda>y. bindE (mapE f xs) (\<lambda>ys. Inr (y # ys)))"

fun typeof :: "jsval \<Rightarrow> string" where
  "typeof JUndefined = ''undefined''"
| "typeof JNull = ''object''"
| "typeof (JBool v) = ''boolean''"
| "typeof (JNum n) = ''number''"
| "typeof (JBigInt n) = ''bigint''"
| "typeof (JStr v) = ''string''"
| "typeof (JArr vs) = ''object''"

function digits10 :: "nat \<Rightarrow> string" where
  "digits10 n = (if n < 10 then [hexChar n] else digits10 (n div 10) @ [hexChar (n mod 10)])"
  by pat_completeness auto
termination
  by (relation "measure (\<lambda>n. n)") auto

declare digits10.simps [simp del]

definition showInt :: "int \<Rightarrow> string" where
  "showInt i = (if i < 0 then CHR ''-'' # digits10 (nat (- i)) else digits10 (nat i))"

text \<open>The escapes of a JSON string.\<close>

definition jsonEscape :: "char \<Rightarrow> string" where
  "jsonEscape c =
     (let n = of_char c :: nat in
      if n = 34 then [CHR 0x5C, CHR 0x22]
      else if n = 92 then [CHR 0x5C, CHR 0x5C]
      else if n = 8 then [CHR 0x5C, CHR ''b'']
      else if n = 9 then [CHR 0x5C, CHR ''t'']
      else if n = 10 then [CHR 0x5C, CHR ''n'']
      else if n = 12 then [CHR 0x5C, CHR ''f'']
      else if n = 13 then [CHR 0x5C, CHR ''r'']
      else if n < 32 then [CHR 0x5C, CHR ''u'', CHR ''0'', CHR ''0'', hexChar (n div 16), hexChar (n mod 16)]
      else [c])"

fun hasBigInt :: "jsval \<Rightarrow> bool" where
  "hasBigInt (JBigInt n) = True"
| "hasBigInt (JArr vs) = list_ex hasBigInt vs"
| "hasBigInt v = False"

fun joinComma :: "string list \<Rightarrow> string" where
  "joinComma [] = []"
| "joinComma [x] = x"
| "joinComma (x # y # zs) = x @ '','' @ joinComma (y # zs)"

fun jsonText :: "jsval \<Rightarrow> string" where
  "jsonText JUndefined = ''undefined''"
| "jsonText JNull = ''null''"
| "jsonText (JBool v) = (if v then ''true'' else ''false'')"
| "jsonText (JNum n) = showInt n"
| "jsonText (JBigInt n) = []"
| "jsonText (JStr v) = CHR 0x22 # concat (map jsonEscape v) @ [CHR 0x22]"
| "jsonText (JArr vs) =
     ''['' @ joinComma (map (\<lambda>v. if v = JUndefined then ''null'' else jsonText v) vs) @ '']''"

text \<open>
  \<open>String(JSON.stringify(raw))\<close>, as the template literal of the error message
  evaluates it.  \<open>JSON.stringify\<close> throws on a BigInt, at any depth.
\<close>

definition jsonStringify :: "jsval \<Rightarrow> error + string" where
  "jsonStringify v =
     (if hasBigInt v then Inl (TypeError ''Do not know how to serialize a BigInt'')
      else Inr (jsonText v))"

text \<open>
  \<open>trim\<close> on the ASCII white space; \<open>replace(/^#/, "")\<close>; the two regular
  expressions on the lower-cased rest.
\<close>

definition isSpace :: "char \<Rightarrow> bool" where
  "isSpace c \<longleftrightarrow> (let n = of_char c :: nat in (9 \<le> n \<and> n \<le> 13) \<or> n = 32)"

definition trim :: "string \<Rightarrow> string" where
  "trim v = rev (dropWhile isSpace (rev (dropWhile isSpace v)))"

definition stripHash :: "string \<Rightarrow> string" where
  "stripHash v = (case v of [] \<Rightarrow> [] | c # cs \<Rightarrow> if c = CHR ''#'' then cs else v)"

definition isLowerHexDigit :: "char \<Rightarrow> bool" where
  "isLowerHexDigit c \<longleftrightarrow>
     (let n = of_char c :: nat in (48 \<le> n \<and> n \<le> 57) \<or> (97 \<le> n \<and> n \<le> 102))"

definition emDash :: string where
  "emDash = [CHR 0xE2, CHR 0x80, CHR 0x94]"

definition normaliseHex :: "jsval \<Rightarrow> error + string" where
  "normaliseHex raw =
     (case raw of
        JStr v \<Rightarrow>
          (let h = map toLowerChar (stripHash (trim v)) in
           if length h = 3 \<and> list_all isLowerHexDigit h
           then Inr [CHR ''#'', h ! 0, h ! 0, h ! 1, h ! 1, h ! 2, h ! 2]
           else if length h = 6 \<and> list_all isLowerHexDigit h
           then Inr (CHR ''#'' # h)
           else Inl (RangeError (''Invalid hex color: '' @ [CHR 0x22] @ v @ [CHR 0x22] @ '' '' @ emDash
                                 @ '' expected '' @ [CHR 0x22] @ ''#rgb'' @ [CHR 0x22] @ '' or ''
                                 @ [CHR 0x22] @ ''#rrggbb'' @ [CHR 0x22])))
      | _ \<Rightarrow>
          bindE (jsonStringify raw)
            (\<lambda>j. Inl (TypeError (''Color must be a string, got '' @ typeof raw @ '': '' @ j))))"

subsection \<open>Contrast and the five roles\<close>

definition hexToLchE :: "string \<Rightarrow> error + LCH" where
  "hexToLchE h = (case hexToLch h of None \<Rightarrow> Inl NotANumber | Some c \<Rightarrow> Inr c)"

text \<open>
  \<open>_lchToHex(L, C, H)\<close> is called with the lightness and the chroma that a caller
  can set in the options, so \<open>_delin\<close>, \<open>_clamp\<close>, \<open>_oklabToRgb\<close> and the
  channel encoder of \<open>_rgbToHex\<close> are written here on the numbers of a caller.  A
  channel that is \<open>NaN\<close> is encoded as the three letters \<open>NaN\<close>.  The hue is
  always the hue of a palette colour and stays a real.
\<close>

definition delinN :: "jsnum \<Rightarrow> jsnum" where
  "delinN c =
     (if leqN c (Num 0.0031308) then mulN (Num 12.92) c
      else subN (mulN (Num 1.055) (powN c (1 / 2.4))) (Num 0.055))"

definition clampN :: "jsnum \<Rightarrow> jsnum" where
  "clampN v = (if lessN v (Num 0) then Num 0 else if lessN (Num 1) v then Num 1 else v)"

definition oklabToRgbN :: "jsnum \<Rightarrow> jsnum \<Rightarrow> jsnum \<Rightarrow> jsnum \<times> jsnum \<times> jsnum" where
  "oklabToRgbN lightness ca cb =
     (let l = addN (addN lightness (mulN (Num 0.3963377774) ca)) (mulN (Num 0.2158037573) cb);
          m = subN (subN lightness (mulN (Num 0.1055613458) ca)) (mulN (Num 0.0638541728) cb);
          s = subN (subN lightness (mulN (Num 0.0894841775) ca)) (mulN (Num 1.291485548) cb);
          l3 = mulN (mulN l l) l; m3 = mulN (mulN m m) m; s3 = mulN (mulN s s) s
      in (clampN (delinN (addN (subN (mulN (Num 4.0767416621) l3) (mulN (Num 3.3077115913) m3))
                               (mulN (Num 0.2309699292) s3))),
          clampN (delinN (subN (addN (mulN (Num (- 1.2684380046)) l3) (mulN (Num 2.6097574011) m3))
                               (mulN (Num 0.3413193965) s3))),
          clampN (delinN (addN (subN (mulN (Num (- 0.0041960863)) l3) (mulN (Num 0.7034186147) m3))
                               (mulN (Num 1.707614701) s3)))))"

definition hexByteN :: "jsnum \<Rightarrow> string" where
  "hexByteN c =
     (case clampN c of
        Num x \<Rightarrow> hexByte x
      | PosInfinity \<Rightarrow> ''Infinity''
      | NegInfinity \<Rightarrow> ''-Infinity''
      | NaN \<Rightarrow> ''NaN'')"

definition lchToHex3 :: "jsnum \<Rightarrow> jsnum \<Rightarrow> real \<Rightarrow> string" where
  "lchToHex3 l c h =
     (let rad = h * pi / 180;
          (rr, gg, bb) = oklabToRgbN l (mulN c (Num (cos rad))) (mulN c (Num (sin rad)))
      in CHR ''#'' # hexByteN rr @ hexByteN gg @ hexByteN bb)"

definition hueDist :: "real \<Rightarrow> real \<Rightarrow> real" where
  "hueDist h1 h2 = (let d = jsMod \<bar>h1 - h2\<bar> 360 in if d > 180 then 360 - d else d)"

definition wcagY :: "string \<Rightarrow> error + real" where
  "wcagY h =
     bindE (normaliseHex (JStr h)) (\<lambda>n.
       case hexToRgb n of
         None \<Rightarrow> Inl NotANumber
       | Some c \<Rightarrow> Inr (0.2126 * linearize (r c) + 0.7152 * linearize (g c) + 0.0722 * linearize (b c)))"

definition wcagContrast :: "string \<Rightarrow> string \<Rightarrow> error + real" where
  "wcagContrast hexA hexB =
     bindE (wcagY hexA) (\<lambda>ya. bindE (wcagY hexB) (\<lambda>yb.
       Inr ((max ya yb + 0.05) / (min ya yb + 0.05))))"

definition bestTextOn :: "string \<Rightarrow> error + string" where
  "bestTextOn bgHex =
     bindE (wcagContrast bgHex ''#ffffff'') (\<lambda>w. bindE (wcagContrast bgHex ''#111111'') (\<lambda>d.
       Inr (if w \<ge> d then ''#ffffff'' else ''#111111'')))"

record SelectOptions =
  neutralChromaMax :: "jsnum option"
  mainLightnessMin :: "jsnum option"
  mainLightnessMax :: "jsnum option"
  shadeHueTolerance :: "jsnum option"
  accentHueMin :: "jsnum option"
  derivedDarkL :: "jsnum option"
  derivedDarkC :: "jsnum option"

record InternalColor =
  srcHex :: string
  srcLch :: LCH

record ColorRole =
  hex :: string
  role :: string
  label :: string
  weight :: string
  roleLch :: LCH
  derived :: bool
  textColor :: string
  contrast :: real

record RuleResult =
  neutralLight :: ColorRole
  neutralDark :: ColorRole
  mainColor :: ColorRole
  mainColorShade :: ColorRole
  accentColor :: ColorRole

text \<open>\<open>x ?? d\<close> on an option of the caller.\<close>

definition orDefault :: "jsnum option \<Rightarrow> real \<Rightarrow> jsnum" where
  "orDefault x d = (case x of None \<Rightarrow> Num d | Some v \<Rightarrow> v)"

text \<open>
  \<open>xs[0]\<close> followed by a property read: on an empty array the read is made on
  \<open>undefined\<close> and throws.
\<close>

definition firstOf :: "'a list \<Rightarrow> error + 'a" where
  "firstOf xs = (case xs of [] \<Rightarrow> Inl (TypeError ''Cannot read properties of undefined'') | x # _ \<Rightarrow> Inr x)"

text \<open>
  \<open>xs.slice().sort((a, b) => key(b) - key(a))\<close>: a stable sort by descending key;
  \<open>byL\<close> and \<open>byC\<close> are the two keys used, \<open>darkestFirst\<close> is the ascending sort
  of step 3.
\<close>

definition sortDesc :: "(InternalColor \<Rightarrow> real) \<Rightarrow> InternalColor list \<Rightarrow> InternalColor list" where
  "sortDesc key xs = sort_key (\<lambda>c. - key c) xs"

definition byL :: "InternalColor \<Rightarrow> real" where
  "byL c = lchL (srcLch c)"

definition byC :: "InternalColor \<Rightarrow> real" where
  "byC c = lchC (srcLch c)"

text \<open>\<open>parseFloat(x.toFixed(2))\<close>.\<close>

definition toFixed2 :: "real \<Rightarrow> real" where
  "toFixed2 x = of_int \<lfloor>x * 100 + 1 / 2\<rfloor> / 100"

text \<open>
  \<open>mkRole\<close>.  Of the three calls in its object literal, \<open>_hexToLch\<close> never throws
  and the other two throw on a string that is no hex colour.  The model has no value for
  coordinates that are \<open>NaN\<close>, so it looks at \<open>_hexToLch\<close> after the two calls
  that can throw: an exception of the source is then an exception of the model.
\<close>

definition mkRole :: "string \<Rightarrow> string \<Rightarrow> string \<Rightarrow> string \<Rightarrow> string \<Rightarrow> bool \<Rightarrow> error + ColorRole" where
  "mkRole nlHex roleName labelText weightText h isDerived =
     bindE (bestTextOn h) (\<lambda>t. bindE (wcagContrast h nlHex) (\<lambda>c. bindE (hexToLchE h) (\<lambda>l.
       Inr \<lparr> hex = h, role = roleName, label = labelText, weight = weightText, roleLch = l,
             derived = isDerived, textColor = t, contrast = toFixed2 c \<rparr>)))"

definition toInternal :: "jsval \<Rightarrow> error + InternalColor" where
  "toInternal raw =
     bindE (normaliseHex raw) (\<lambda>h. bindE (hexToLchE h) (\<lambda>l. Inr \<lparr> srcHex = h, srcLch = l \<rparr>))"

record Config =
  cfgNeutralChromaMax :: jsnum
  cfgMainLightnessMin :: jsnum
  cfgMainLightnessMax :: jsnum
  cfgShadeHueTolerance :: jsnum
  cfgAccentHueMin :: jsnum
  cfgDerivedDarkL :: jsnum
  cfgDerivedDarkC :: jsnum

definition mkCfg :: "SelectOptions \<Rightarrow> Config" where
  "mkCfg opts =
     \<lparr> cfgNeutralChromaMax = orDefault (neutralChromaMax opts) 0.06,
       cfgMainLightnessMin = orDefault (mainLightnessMin opts) 0.4,
       cfgMainLightnessMax = orDefault (mainLightnessMax opts) 0.72,
       cfgShadeHueTolerance = orDefault (shadeHueTolerance opts) 30,
       cfgAccentHueMin = orDefault (accentHueMin opts) 100,
       cfgDerivedDarkL = orDefault (derivedDarkL opts) 0.2,
       cfgDerivedDarkC = orDefault (derivedDarkC opts) 0.035 \<rparr>"

text \<open>
  The body of \<open>select60_30_10\<close> is written step by step, as the source marks it:
  steps 1 to 5 and the assembly of the result.  Each step that selects a colour or
  synthesises one returns the hex string and the \<open>derived\<close> flag.
\<close>

definition nearNeutralsOf :: "Config \<Rightarrow> InternalColor list \<Rightarrow> InternalColor list" where
  "nearNeutralsOf cfg px = filter (\<lambda>c. lessN (Num (lchC (srcLch c))) (cfgNeutralChromaMax cfg)) px"

definition step1 :: "Config \<Rightarrow> InternalColor list \<Rightarrow> error + InternalColor" where
  "step1 cfg px =
     (let nearNeutrals = nearNeutralsOf cfg px
      in firstOf (sortDesc byL (if length nearNeutrals > 0 then nearNeutrals else px)))"

definition step2 :: "Config \<Rightarrow> InternalColor list \<Rightarrow> error + InternalColor" where
  "step2 cfg px =
     (let midBand = filter (\<lambda>c. leqN (cfgMainLightnessMin cfg) (Num (lchL (srcLch c)))
                                 \<and> leqN (Num (lchL (srcLch c))) (cfgMainLightnessMax cfg)) px
      in firstOf (sortDesc byC (if length midBand > 0 then midBand else px)))"

definition step3 :: "Config \<Rightarrow> InternalColor list \<Rightarrow> InternalColor \<Rightarrow> InternalColor \<Rightarrow> error + string \<times> bool" where
  "step3 cfg px nlSrc mainSrc =
     (let darkNeutrals = filter (\<lambda>c. lchL (srcLch c) < 0.35 \<and> srcHex c \<noteq> srcHex nlSrc)
                                (nearNeutralsOf cfg px)
      in if length darkNeutrals > 0
         then bindE (firstOf (sort_key byL darkNeutrals)) (\<lambda>d. Inr (srcHex d, False))
         else Inr (lchToHex3 (cfgDerivedDarkL cfg) (cfgDerivedDarkC cfg) (lchH (srcLch mainSrc)), True))"

definition step4 :: "Config \<Rightarrow> InternalColor list \<Rightarrow> InternalColor \<Rightarrow> InternalColor \<Rightarrow> error + string \<times> bool" where
  "step4 cfg px nlSrc mainSrc =
     (let excluded12 = [srcHex nlSrc, srcHex mainSrc];
          rem12 = filter (\<lambda>c. srcHex c \<notin> set excluded12) px
      in if length rem12 > 0
         then (let sameHue = filter (\<lambda>c. lessN (Num (hueDist (lchH (srcLch c)) (lchH (srcLch mainSrc))))
                                                 (cfgShadeHueTolerance cfg)
                                           \<and> lchC (srcLch c) > 0.1) rem12
               in bindE (firstOf (sortDesc byC (if length sameHue > 0 then sameHue else rem12)))
                    (\<lambda>c. Inr (srcHex c, False)))
         else Inr (lchToHex3 (Num (max 0.05 (lchL (srcLch mainSrc) - 0.08)))
                             (Num (lchC (srcLch mainSrc) * 0.92))
                             (lchH (srcLch mainSrc)), True))"

definition step5 :: "Config \<Rightarrow> InternalColor list \<Rightarrow> InternalColor \<Rightarrow> InternalColor \<Rightarrow> string \<Rightarrow> error + string \<times> bool" where
  "step5 cfg px nlSrc mainSrc shadeHex =
     (let excluded123 = [srcHex nlSrc, srcHex mainSrc, shadeHex];
          rem123 = filter (\<lambda>c. srcHex c \<notin> set excluded123) px
      in if length rem123 > 0
         then (let farHue = filter (\<lambda>c. leqN (cfgAccentHueMin cfg)
                                                (Num (hueDist (lchH (srcLch c)) (lchH (srcLch mainSrc))))) rem123
               in bindE (firstOf (sortDesc byC (if length farHue > 0 then farHue else rem123)))
                    (\<lambda>c. Inr (srcHex c, False)))
         else Inr (lchToHex3 (Num 0.72) (Num (min (lchC (srcLch mainSrc)) 0.18))
                             (jsMod (lchH (srcLch mainSrc) + 150) 360), True))"

definition assemble ::
  "InternalColor \<Rightarrow> InternalColor \<Rightarrow> string \<times> bool \<Rightarrow> string \<times> bool \<Rightarrow> string \<times> bool \<Rightarrow> error + RuleResult" where
  "assemble nlSrc mainSrc nd sh ac =
     bindE (mkRole (srcHex nlSrc) ''neutralLight'' ''Neutral Light'' ''60%'' (srcHex nlSrc) False) (\<lambda>r1.
     bindE (mkRole (srcHex nlSrc) ''neutralDark'' ''Neutral Dark'' emDash (fst nd) (snd nd)) (\<lambda>r2.
     bindE (mkRole (srcHex nlSrc) ''mainColor'' ''Main Color'' ''30%'' (srcHex mainSrc) False) (\<lambda>r3.
     bindE (mkRole (srcHex nlSrc) ''mainColorShade'' ''Main Color Shade'' emDash (fst sh) (snd sh)) (\<lambda>r4.
     bindE (mkRole (srcHex nlSrc) ''accentColor'' ''Accent Color'' ''10%'' (fst ac) (snd ac)) (\<lambda>r5.
     Inr \<lparr> neutralLight = r1, neutralDark = r2, mainColor = r3, mainColorShade = r4,
           accentColor = r5 \<rparr>)))))"

definition select60_30_10 :: "jsval \<Rightarrow> SelectOptions \<Rightarrow> error + RuleResult" where
  "select60_30_10 palette opts =
     (case palette of
        JArr (p # ps) \<Rightarrow>
          (let cfg = mkCfg opts in
           bindE (mapE toInternal (p # ps)) (\<lambda>px.
           bindE (step1 cfg px) (\<lambda>nlSrc.
           bindE (step2 cfg px) (\<lambda>mainSrc.
           bindE (step3 cfg px nlSrc mainSrc) (\<lambda>nd.
           bindE (step4 cfg px nlSrc mainSrc) (\<lambda>sh.
           bindE (step5 cfg px nlSrc mainSrc (fst sh)) (\<lambda>ac.
           assemble nlSrc mainSrc nd sh ac)))))))
      | _ \<Rightarrow> Inl (TypeError ''palette must be a non-empty array of hex color strings''))"

text \<open>
  A hex colour as the data model admits it on input: three or six hex digits in either
  case, with or without the leading \<open>#\<close>; and the normal form \<open>#rrggbb\<close> in lower
  case.
\<close>

definition validHex :: "string \<Rightarrow> bool" where
  "validHex v \<longleftrightarrow>
     (let h = stripHash v in (length h = 3 \<or> length h = 6) \<and> list_all isHexDigit h)"

definition normalHex :: "string \<Rightarrow> bool" where
  "normalHex h \<longleftrightarrow> length h = 7 \<and> hd h = CHR ''#'' \<and> list_all isLowerHexDigit (tl h)"

definition defaultOptions :: SelectOptions where
  "defaultOptions =
     \<lparr> neutralChromaMax = None, mainLightnessMin = None, mainLightnessMax = None,
       shadeHueTolerance = None, accentHueMin = None, derivedDarkL = None, derivedDarkC = None \<rparr>"

text \<open>
  The options under which the synthesised \<open>neutralDark\<close> is computed without
  overflow: \<open>derivedDarkL\<close> and \<open>derivedDarkC\<close> are left out, or are numbers of
  magnitude at most \<open>10^100\<close>.  The five thresholds may be any number.
\<close>

fun smallNum :: "jsnum \<Rightarrow> bool" where
  "smallNum (Num x) \<longleftrightarrow> \<bar>x\<bar> \<le> 10 ^ 100"
| "smallNum _ \<longleftrightarrow> False"

definition boundedDark :: "SelectOptions \<Rightarrow> bool" where
  "boundedDark opts \<longleftrightarrow>
     (case derivedDarkL opts of None \<Rightarrow> True | Some v \<Rightarrow> smallNum v) \<and>
     (case derivedDarkC opts of None \<Rightarrow> True | Some v \<Rightarrow> smallNum v)"

text \<open>Options with a lightness of \<open>1e150\<close> for the synthesised \<open>neutralDark\<close>.\<close>

definition hugeDarkOptions :: SelectOptions where
  "hugeDarkOptions = defaultOptions \<lparr> derivedDarkL := Some (Num (10 ^ 150)) \<rparr>"

text \<open>Options with thresholds that are no reals and a chosen dark neutral.\<close>

definition oddOptions :: SelectOptions where
  "oddOptions =
     \<lparr> neutralChromaMax = Some NaN, mainLightnessMin = Some NegInfinity, mainLightnessMax = Some PosInfinity,
       shadeHueTolerance = Some NaN, accentHueMin = None, derivedDarkL = Some (Num 0.3),
       derivedDarkC = Some (Num 0) \<rparr>"


section \<open>Contrast palettes: the searches for a WCAG ratio\<close>

record HSL =
  hslH :: real
  hslS :: real
  hslL :: real

definition white :: RGB where "white = \<lparr> r = 1, g = 1, b = 1 \<rparr>"
definition black :: RGB where "black = \<lparr> r = 0, g = 0, b = 0 \<rparr>"

text \<open>
  \<open>rgbToHex\<close> of the contrast generator: the rounded channel is clamped to
  \<open>0 \<dots> 255\<close>.
\<close>

definition hexByteInt :: "real \<Rightarrow> string" where
  "hexByteInt c = padStart2 (toString16 (max 0 (min 255 (jsRound (c * 255)))))"

definition rgbToHexC :: "RGB \<Rightarrow> string" where
  "rgbToHexC c = CHR ''#'' # hexByteInt (r c) @ hexByteInt (g c) @ hexByteInt (b c)"

definition relativeLuminance :: "RGB \<Rightarrow> real" where
  "relativeLuminance c = 0.2126 * linearize (r c) + 0.7152 * linearize (g c) + 0.0722 * linearize (b c)"

definition wcagContrastRatio :: "RGB \<Rightarrow> RGB \<Rightarrow> real" where
  "wcagContrastRatio c1 c2 =
     (let l1 = relativeLuminance c1; l2 = relativeLuminance c2
      in (max l1 l2 + 0.05) / (min l1 l2 + 0.05))"

definition rgbToHsl :: "RGB \<Rightarrow> HSL" where
  "rgbToHsl c =
     (let mx = max (r c) (max (g c) (b c));
          mn = min (r c) (min (g c) (b c));
          l = (mx + mn) / 2
      in if mx = mn then \<lparr> hslH = 0, hslS = 0, hslL = l \<rparr>
         else (let d = mx - mn;
                   s = d / (if l > 0.5 then 2 - mx - mn else mx + mn);
                   h = (if mx = r c then (g c - b c) / d + (if g c < b c then 6 else 0)
                        else if mx = g c then (b c - r c) / d + 2
                        else (r c - g c) / d + 4)
               in \<lparr> hslH = h * 60, hslS = s, hslL = l \<rparr>))"

definition hslToRgb :: "HSL \<Rightarrow> RGB" where
  "hslToRgb q =
     (let c = (1 - \<bar>2 * hslL q - 1\<bar>) * hslS q;
          x = c * (1 - \<bar>jsMod (hslH q / 60) 2 - 1\<bar>);
          m = hslL q - c / 2;
          (r0, g0, b0) =
            (if hslH q < 60 then (c, x, 0)
             else if hslH q < 120 then (x, c, 0)
             else if hslH q < 180 then (0, c, x)
             else if hslH q < 240 then (0, x, c)
             else if hslH q < 300 then (x, 0, c)
             else (c, 0, x))
      in \<lparr> r = r0 + m, g = g0 + m, b = b0 + m \<rparr>)"

text \<open>The fallback of both searches: black or white, whichever contrasts more.\<close>

definition nearestExtreme :: "RGB \<Rightarrow> RGB" where
  "nearestExtreme reference =
     (if wcagContrastRatio black reference \<ge> wcagContrastRatio white reference then black else white)"

text \<open>
  The two loops of \<open>adjustToWcagRatio\<close> on \<open>(lo, hi, best)\<close>; \<open>best\<close> is
  \<open>None\<close> for \<open>null\<close>.  The second loop starts with the \<open>best\<close> the first one left.
\<close>

function searchDarker :: "HSL \<Rightarrow> RGB \<Rightarrow> real \<Rightarrow> nat \<Rightarrow> nat \<Rightarrow> real \<Rightarrow> real \<Rightarrow> RGB option \<Rightarrow> RGB option" where
  "searchDarker hsl reference targetRatio maxIter i lo hi best =
     (if i < maxIter then
        (let mid = (lo + hi) / 2;
             candidate = hslToRgb (hsl \<lparr> hslL := mid \<rparr>)
         in if wcagContrastRatio candidate reference \<ge> targetRatio
            then searchDarker hsl reference targetRatio maxIter (Suc i) lo mid (Some candidate)
            else searchDarker hsl reference targetRatio maxIter (Suc i) mid hi best)
      else best)"
  by pat_completeness auto
termination
  by (relation "measure (\<lambda>(hsl, reference, targetRatio, maxIter, i, lo, hi, best). maxIter - i)") auto

declare searchDarker.simps [simp del]

function searchLighter :: "HSL \<Rightarrow> RGB \<Rightarrow> real \<Rightarrow> nat \<Rightarrow> nat \<Rightarrow> real \<Rightarrow> real \<Rightarrow> RGB option \<Rightarrow> RGB option" where
  "searchLighter hsl reference targetRatio maxIter i lo hi best =
     (if i < maxIter then
        (let mid = (lo + hi) / 2;
             candidate = hslToRgb (hsl \<lparr> hslL := mid \<rparr>)
         in if wcagContrastRatio candidate reference \<ge> targetRatio
            then searchLighter hsl reference targetRatio maxIter (Suc i) mid hi (Some candidate)
            else searchLighter hsl reference targetRatio maxIter (Suc i) lo mid best)
      else best)"
  by pat_completeness auto
termination
  by (relation "measure (\<lambda>(hsl, reference, targetRatio, maxIter, i, lo, hi, best). maxIter - i)") auto

declare searchLighter.simps [simp del]

text \<open>\<open>best && wcagContrastRatio(best, reference) >= targetRatio\<close>.\<close>

definition passes :: "RGB option \<Rightarrow> RGB \<Rightarrow> real \<Rightarrow> bool" where
  "passes best reference targetRatio \<longleftrightarrow>
     (case best of None \<Rightarrow> False | Some c \<Rightarrow> wcagContrastRatio c reference \<ge> targetRatio)"

definition adjustToWcagRatio :: "RGB \<Rightarrow> RGB \<Rightarrow> real \<Rightarrow> nat \<Rightarrow> RGB" where
  "adjustToWcagRatio color reference targetRatio maxIter =
     (if wcagContrastRatio color reference \<ge> targetRatio then color
      else (let hsl = rgbToHsl color;
                best1 = searchDarker hsl reference targetRatio maxIter 0 0 (hslL hsl) None
            in if passes best1 reference targetRatio then the best1
               else (let best2 = searchLighter hsl reference targetRatio maxIter 0 (hslL hsl) 1 best1
                     in if passes best2 reference targetRatio then the best2
                        else nearestExtreme reference)))"

datatype direction = Dark | Light

text \<open>The loop of the forced search \<open>adjustToWcagRatioFromL\<close>.\<close>

function searchFromL ::
  "real \<Rightarrow> real \<Rightarrow> RGB \<Rightarrow> real \<Rightarrow> direction \<Rightarrow> nat \<Rightarrow> nat \<Rightarrow> real \<Rightarrow> real \<Rightarrow> RGB option \<Rightarrow> RGB option" where
  "searchFromL hue sat reference targetRatio dir maxIter i lo hi best =
     (if i < maxIter then
        (let mid = (lo + hi) / 2;
             candidate = hslToRgb \<lparr> hslH = hue, hslS = sat, hslL = mid \<rparr>
         in if wcagContrastRatio candidate reference \<ge> targetRatio
            then (if dir = Dark
                  then searchFromL hue sat reference targetRatio dir maxIter (Suc i) mid hi (Some candidate)
                  else searchFromL hue sat reference targetRatio dir maxIter (Suc i) lo mid (Some candidate))
            else (if dir = Dark
                  then searchFromL hue sat reference targetRatio dir maxIter (Suc i) lo mid best
                  else searchFromL hue sat reference targetRatio dir maxIter (Suc i) mid hi best))
      else best)"
  by pat_completeness auto
termination
  by (relation "measure (\<lambda>(hue, sat, reference, targetRatio, dir, maxIter, i, lo, hi, best). maxIter - i)")
     auto

declare searchFromL.simps [simp del]

definition adjustToWcagRatioFromL ::
  "real \<Rightarrow> real \<Rightarrow> real \<Rightarrow> RGB \<Rightarrow> real \<Rightarrow> direction \<Rightarrow> nat \<Rightarrow> RGB" where
  "adjustToWcagRatioFromL hue sat startL reference targetRatio dir maxIter =
     (let lo = (if dir = Dark then 0 else startL);
          hi = (if dir = Dark then startL else 1);
          best = searchFromL hue sat reference targetRatio dir maxIter 0 lo hi None
      in if passes best reference targetRatio then the best else nearestExtreme reference)"

text \<open>
  The three WCAG-targeted arrays of \<open>generateContrastPalettes\<close>, slot by slot:
  \<open>Array.from({ length: x }, (_, i) => \<dots>)\<close> is the map of the slot function over
  \<open>0, \<dots>, x - 1\<close>.  Each slot function also gives the reference colour and the target
  ratio of its slot.
\<close>

definition accessibleSlot :: "HSL \<Rightarrow> nat \<Rightarrow> nat \<Rightarrow> RGB \<times> RGB \<times> real" where
  "accessibleSlot hsl x i =
     (let half = (x + 1) div 2;
          isEven = (i mod 2 = 0);
          l = (if isEven then lerp 0.05 0.35 (real i / 2 / real half)
               else lerp 0.88 0.98 (real (i div 2) / real half));
          candidate = hslToRgb \<lparr> hslH = hslH hsl, hslS = hslS hsl * 0.6, hslL = l \<rparr>;
          pair = (if isEven then hslToRgb \<lparr> hslH = hslH hsl, hslS = hslS hsl * 0.1, hslL = 0.96 \<rparr>
                  else hslToRgb \<lparr> hslH = hslH hsl, hslS = hslS hsl * 0.8, hslL = 0.15 \<rparr>)
      in (adjustToWcagRatio candidate pair 4.5 48, pair, 4.5))"

definition wcagTargets :: "(RGB \<times> real \<times> real) list" where
  "wcagTargets = [(white, 4.5, 0.2), (white, 7.0, 0.1), (black, 4.5, 0.8), (black, 7.0, 0.9)]"

definition wcagSlot :: "HSL \<Rightarrow> nat \<Rightarrow> RGB \<times> RGB \<times> real" where
  "wcagSlot hsl i =
     (let (bg, ratio, startL) = wcagTargets ! (i mod length wcagTargets);
          cycle = i div length wcagTargets;
          sFactor = clamp01 (1 - real cycle * 0.3);
          lShift = real cycle * (if startL < 0.5 then 0.08 else - 0.08);
          candidate = hslToRgb \<lparr> hslH = hslH hsl, hslS = hslS hsl * sFactor, hslL = clamp01 (startL + lShift) \<rparr>
      in (adjustToWcagRatio candidate bg ratio 48, bg, ratio))"

definition highContrastSlot :: "HSL \<Rightarrow> nat \<Rightarrow> nat \<Rightarrow> RGB \<times> RGB \<times> real" where
  "highContrastSlot hsl x i =
     (let darkSlots = (x + 1) div 2;
          lightSlots = x - darkSlots
      in if i < darkSlots then
           (let t = real i / real (max (darkSlots - 1) 1);
                startL = lerp 0.05 0.28 t;
                s = max 0 (min 1 (lerp (hslS hsl) 0 t))
            in (adjustToWcagRatioFromL (hslH hsl) s startL white 7.0 Dark 48, white, 7.0))
         else
           (let j = i - darkSlots;
                t = real j / real (max (lightSlots - 1) 1);
                startL = lerp 0.65 0.98 t;
                s = max 0.2 (min 0.8 (hslS hsl * 0.7))
            in (adjustToWcagRatioFromL (hslH hsl) s startL black 7.0 Light 48, black, 7.0)))"

record ContrastOutput =
  accessible :: "string list"
  wcag :: "string list"
  highContrast :: "string list"

text \<open>
  \<open>generateContrastPalettes(input, x = 9)\<close>, restricted to the three arrays above (the
  other four keys of the output are not modelled).  The input is the list of the values
  of the input object; the result is \<open>None\<close> for the empty object \<open>{}\<close> that is
  returned when no value is a non-empty array, and when the base colour parses to
  \<open>NaN\<close>.
\<close>

definition generateContrastPalettes :: "string list list \<Rightarrow> nat \<Rightarrow> ContrastOutput option" where
  "generateContrastPalettes input x =
     (case find (\<lambda>val. length val > 0) input of
        None \<Rightarrow> None
      | Some colorsArray \<Rightarrow>
          (case hexToRgb (colorsArray ! 0) of
             None \<Rightarrow> None
           | Some base \<Rightarrow>
               (let hsl = rgbToHsl base
                in Some \<lparr> accessible = map (\<lambda>i. rgbToHexC (fst (accessibleSlot hsl x i))) [0 ..< x],
                          wcag = map (\<lambda>i. rgbToHexC (fst (wcagSlot hsl i))) [0 ..< x],
                          highContrast = map (\<lambda>i. rgbToHexC (fst (highContrastSlot hsl x i))) [0 ..< x] \<rparr>)))"


text \<open>
  The candidates of the light half of \<open>highContrast\<close> for the base colour
  \<open>#0000ff\<close> (hue 240, saturation \<open>1 * 0.7\<close>), their luminance on the power
  branch of \<open>linearize\<close>, and the test of the search against black at 7:1.
\<close>

definition blueAt :: "real \<Rightarrow> RGB" where
  "blueAt l = hslToRgb \<lparr> hslH = 240, hslS = 0.7, hslL = l \<rparr>"

definition lumBlue :: "real \<Rightarrow> real" where
  "lumBlue l = 0.9278 * ((1.7 * l - 0.645) / 1.055) powr 2.4 + 0.0722 * ((0.3 * l + 0.755) / 1.055) powr 2.4"

definition bluePasses :: "real \<Rightarrow> bool" where
  "bluePasses l \<longleftrightarrow> wcagContrastRatio (blueAt l) black \<ge> 7"

text \<open>Two runs of draws and a one-pixel sample, used to run the clustering below.\<close>

definition zeroDraws :: "nat \<Rightarrow> real" where
  "zeroDraws i = 0"

definition halfAtTwo :: "nat \<Rightarrow> real" where
  "halfAtTwo i = (if i = 2 then 1 / 2 else 0)"

definition lateDraws :: "nat \<Rightarrow> real" where
  "lateDraws i = (if i < 3 then 0 else 1 / 2)"

definition pixel9 :: Lab where
  "pixel9 = \<lparr> labL = 0.9, laba = 0, labb = 0 \<rparr>"

definition pixel2 :: Lab where
  "pixel2 = \<lparr> labL = 0.2, laba = 0, labb = 0 \<rparr>"


text \<open>
  A dark colour of hue 180 degrees with lightness 0, and the coefficients of the cube of
  its chroma in the three linear channels.
\<close>

definition darkTeal :: "real \<Rightarrow> LCH" where
  "darkTeal c = \<lparr> lchL = 0, lchC = c, lchH = 180 \<rparr>"

definition Kr :: real where
  "Kr = 4.0767416621 * 0.3963377774 ^ 3 + 3.3077115913 * 0.1055613458 ^ 3 - 0.2309699292 * 0.0894841775 ^ 3"
definition Kg :: real where
  "Kg = 1.2684380046 * 0.3963377774 ^ 3 + 2.6097574011 * 0.1055613458 ^ 3 - 0.3413193965 * 0.0894841775 ^ 3"
definition Kb :: real where
  "Kb = 0.0041960863 * 0.3963377774 ^ 3 - 0.7034186147 * 0.1055613458 ^ 3 + 1.707614701 * 0.0894841775 ^ 3"

text \<open>A chromatic colour well inside the sRGB gamut, used to run the round trip below.\<close>

definition dustyRose :: LCH where
  "dustyRose = \<lparr> lchL = 1 / 2, lchC = 1 / 10, lchH = 0 \<rparr>"


section \<open>Theorems\<close>

subsection \<open>Degenerate buffers\<close>

lemma samplePixelsLoop_degenerate:
  assumes "degenerate data" "4 dvd i"
  shows "samplePixelsLoop data maxPixels i = Some []"
  using assms
proof (induction data maxPixels i rule: samplePixelsLoop.induct)
  case (1 data maxPixels i)
  show ?case
  proof (cases "i < length data")
    case False
    then show ?thesis by (simp add: samplePixelsLoop.simps [of data maxPixels i])
  next
    case True
    from \<open>4 dvd i\<close> obtain p where p: "i = 4 * p" by (auto elim: dvdE)
    from "1.prems"(1) have len: "length data mod 4 = 0"
      and alpha: "\<And>q. q < length data div 4 \<Longrightarrow> unat (data ! (4 * q + 3)) < 128"
      by (auto simp: degenerate_def)
    from True p len have pl: "p < length data div 4" by presburger
    from True p len have in3: "i + 3 < length data" by presburger
    from alpha [OF pl] p have low: "unat (data ! (i + 3)) < 128" by simp
    have dv: "4 dvd i + 4 * max 1 (length data div 4 div maxPixels)"
      using \<open>4 dvd i\<close> by simp
    have "samplePixelsLoop data maxPixels (i + 4 * max 1 (length data div 4 div maxPixels)) = Some []"
      using "1.IH"(1) [OF refl True in3 low "1.prems"(1) dv] .
    then show ?thesis
      using True in3 low by (simp add: samplePixelsLoop.simps [of data maxPixels i] Let_def)
  qed
qed

lemma arrayOfLength_nat: "n < 2 ^ 32 \<Longrightarrow> arrayOfLength (Num (real n)) = Inr n"
proof -
  assume "n < 2 ^ 32"
  then have "real n < real (2 ^ 32)" by (simp only: of_nat_less_iff)
  then show ?thesis by (simp add: arrayOfLength_def)
qed

text \<open>
  C7 (as amended).  For every degenerate RGBA buffer (empty, or every pixel's alpha
  below 128): when \<open>k\<close> is an integer from \<open>0\<close> to \<open>2^32 - 1\<close>, or is left out
  (then it is 6), \<open>generateImagePalettes\<close> returns, and each of the ten algorithms'
  entries is \<open>k\<close> copies of \<open>#000000\<close>; for every other number \<open>k\<close> the call
  \<open>Array(k)\<close> throws a \<open>RangeError\<close>.
\<close>

theorem generateImagePalettes_degenerate:
  assumes "degenerate data"
  shows "(n < 2 ^ 32 \<longrightarrow>
            generateImagePalettes algos synth input (Some (Num (real n))) (Some data) = Inr (allBlack n)) \<and>
         generateImagePalettes algos synth input None (Some data) = Inr (allBlack 6) \<and>
         ((\<forall>m. m < 2 ^ 32 \<longrightarrow> k \<noteq> Num (real m)) \<longrightarrow>
            generateImagePalettes algos synth input (Some k) (Some data)
              = Inl (RangeError ''Invalid array length''))"
proof -
  have s: "samplePixelsLoop data 6000 0 = Some []"
    using assms by (rule samplePixelsLoop_degenerate) simp
  have six: "arrayOfLength (Num 6) = Inr 6" using arrayOfLength_nat [of 6] by simp
  have a: "generateImagePalettes algos synth input (Some (Num (real n))) (Some data) = Inr (allBlack n)"
    if "n < 2 ^ 32"
    using arrayOfLength_nat [OF that]
    by (simp add: generateImagePalettes_def samplePixels_def s allBlack_def Let_def)
  have b: "generateImagePalettes algos synth input None (Some data) = Inr (allBlack 6)"
    by (simp add: generateImagePalettes_def samplePixels_def s six allBlack_def Let_def)
  have c: "generateImagePalettes algos synth input (Some k) (Some data)
      = Inl (RangeError ''Invalid array length'')"
    if no: "\<forall>m. m < 2 ^ 32 \<longrightarrow> k \<noteq> Num (real m)"
  proof -
    have "arrayOfLength k = Inl (RangeError ''Invalid array length'')"
    proof (cases k)
      case (Num x)
      show ?thesis
      proof (rule ccontr)
        assume "arrayOfLength k \<noteq> Inl (RangeError ''Invalid array length'')"
        then have x: "0 \<le> x" "x < 2 ^ 32" "x = of_int \<lfloor>x\<rfloor>"
          by (auto simp: arrayOfLength_def Num split: if_splits)
        define m where "m = nat \<lfloor>x\<rfloor>"
        have fl: "0 \<le> \<lfloor>x\<rfloor>" using x(1) by simp
        have xm: "x = real m" using x(3) fl by (simp add: m_def)
        have "real m < real (2 ^ 32)" using x(2) xm by simp
        then have "m < 2 ^ 32" by (simp only: of_nat_less_iff)
        with no Num xm show False by blast
      qed
    qed (simp_all add: arrayOfLength_def)
    then show ?thesis
      by (simp add: generateImagePalettes_def samplePixels_def s Let_def)
  qed
  from a b c show ?thesis by blast
qed

text \<open>Two transparent pixels with \<open>k = 2\<close>, and the empty buffer with no \<open>k\<close>.\<close>

theorem generateImagePalettes_degenerate_witness:
  "degenerate [1, 2, 3, 0, 5, 6, 7, 127] \<and> degenerate [] \<and> (2 :: nat) < 2 ^ 32 \<and>
   generateImagePalettes (\<lambda>ps k. Inr (allBlack 0)) (\<lambda>cs. []) \<lparr> square = None \<rparr> (Some (Num 2))
       (Some [1, 2, 3, 0, 5, 6, 7, 127])
     = Inr (allBlack 2) \<and>
   kmeans (allBlack 2) = [''#000000'', ''#000000''] \<and>
   deltaE (allBlack 2) = [''#000000'', ''#000000''] \<and>
   generateImagePalettes (\<lambda>ps k. Inr (allBlack 0)) (\<lambda>cs. []) \<lparr> square = None \<rparr> None (Some [])
     = Inr (allBlack 6) \<and>
   generateImagePalettes (\<lambda>ps k. Inr (allBlack 0)) (\<lambda>cs. []) \<lparr> square = None \<rparr>
       (Some (Num (5 / 2))) (Some [])
     = Inl (RangeError ''Invalid array length'')"
proof -
  have d1: "degenerate [1, 2, 3, 0, 5, 6, 7, 127]"
    by (auto simp: degenerate_def less_2_cases_iff)
  have d2: "degenerate []" by (simp add: degenerate_def)
  have frac: "\<forall>m. m < 2 ^ 32 \<longrightarrow> Num (5 / 2) \<noteq> Num (real m)"
  proof (intro allI impI notI)
    fix m :: nat
    assume "Num (5 / 2) = Num (real m)"
    then have "real (2 * m) = real 5" by simp
    then have "2 * m = 5" by (simp only: of_nat_eq_iff)
    then show False by presburger
  qed
  have two: "generateImagePalettes (\<lambda>ps k. Inr (allBlack 0)) (\<lambda>cs. []) \<lparr> square = None \<rparr>
       (Some (Num (real (2 :: nat)))) (Some [1, 2, 3, 0, 5, 6, 7, 127]) = Inr (allBlack 2)"
    using generateImagePalettes_degenerate [OF d1, of 2] by simp
  have rest: "generateImagePalettes (\<lambda>ps k. Inr (allBlack 0)) (\<lambda>cs. []) \<lparr> square = None \<rparr> None (Some [])
       = Inr (allBlack 6) \<and>
     generateImagePalettes (\<lambda>ps k. Inr (allBlack 0)) (\<lambda>cs. []) \<lparr> square = None \<rparr>
       (Some (Num (5 / 2))) (Some []) = Inl (RangeError ''Invalid array length'')"
    using generateImagePalettes_degenerate [OF d2, of 0 "\<lambda>ps k. Inr (allBlack 0)" "\<lambda>cs. []"
        "\<lparr> square = None \<rparr>" "Num (5 / 2)"] frac by blast
  have lists: "kmeans (allBlack 2) = [''#000000'', ''#000000'']"
    "deltaE (allBlack 2) = [''#000000'', ''#000000'']"
    by (simp_all add: allBlack_def Let_def eval_nat_numeral)
  from two have two': "generateImagePalettes (\<lambda>ps k. Inr (allBlack 0)) (\<lambda>cs. []) \<lparr> square = None \<rparr>
       (Some (Num 2)) (Some [1, 2, 3, 0, 5, 6, 7, 127]) = Inr (allBlack 2)" by simp
  show ?thesis using d1 d2 two' rest lists by simp
qed

text \<open>
  A count of \<open>-1\<close> on the empty buffer: the call throws, it does not return an array of
  \<open>k\<close> colours.
\<close>

theorem generateImagePalettes_negative_counterexample:
  "degenerate [] \<and>
   generateImagePalettes (\<lambda>ps k. Inr (allBlack 0)) (\<lambda>cs. []) \<lparr> square = None \<rparr> (Some (Num (- 1))) (Some [])
     = Inl (RangeError ''Invalid array length'')"
  by (simp add: degenerate_def generateImagePalettes_def samplePixels_def
      samplePixelsLoop.simps [of "[]"] arrayOfLength_def Let_def)


subsection \<open>k-means++: the number of colours returned\<close>

lemma length_padLoop: "length result \<le> k \<Longrightarrow> length (padLoop base k result) = k"
proof (induction base k result rule: padLoop.induct)
  case (1 base k result)
  show ?case
  proof (cases "length result < k")
    case True
    then show ?thesis using "1.IH" [OF True] by (simp add: padLoop.simps [of base k result])
  next
    case False
    with "1.prems" show ?thesis by (simp add: padLoop.simps [of base k result])
  qed
qed

lemma length_padToK: "length (padToK ls k) = k"
  by (simp add: padToK_def length_padLoop)

lemma padToK_exact: "length ls = k \<Longrightarrow> padToK ls k = ls"
  by (simp add: padToK_def)

lemma padLoop_step:
  "length result < k \<Longrightarrow> padLoop base k result =
     padLoop base k (result @ [base \<lparr> labL := clamp01 (0.2 + (real (length result) / real k) * 0.6) \<rparr>])"
  by (simp add: padLoop.simps [of base k result])

lemma padLoop_stop: "\<not> length result < k \<Longrightarrow> padLoop base k result = result"
  by (simp add: padLoop.simps [of base k result])

lemma seedLoop_step:
  "ci < k \<Longrightarrow> seedLoop rnd base pool k ci cs =
     seedLoop rnd base pool k (Suc ci)
       (cs @ [pool ! pickIndex (map (minDist cs) pool)
                       (rnd (base + ci) * foldl (+) 0 (map (minDist cs) pool)) 0])"
  by (simp add: seedLoop.simps [of rnd base pool k ci cs] Let_def)

lemma seedLoop_stop: "\<not> ci < k \<Longrightarrow> seedLoop rnd base pool k ci cs = cs"
  by (simp add: seedLoop.simps [of rnd base pool k ci cs])

lemma length_seedLoop:
  "length (seedLoop rnd base pool k ci cs) = length cs + (k - ci)"
proof (induction rnd base pool k ci cs rule: seedLoop.induct)
  case (1 rnd base pool k ci cs)
  show ?case
  proof (cases "ci < k")
    case True
    then show ?thesis
      using "1.IH" [OF True refl refl refl]
      by (simp add: seedLoop.simps [of rnd base pool k ci cs] Let_def)
  next
    case False
    then show ?thesis by (simp add: seedLoop.simps [of rnd base pool k ci cs])
  qed
qed

lemma length_recompute: "length (recompute pool asg cs) = length cs"
  by (simp add: recompute_def)

lemma kMeansIter_same:
  "iter < maxIter \<Longrightarrow> assignAll pool cs = asg \<Longrightarrow> kMeansIter pool maxIter iter cs asg = (cs, asg)"
  by (simp add: kMeansIter.simps [of pool maxIter iter cs asg])

lemma length_kMeansIter:
  "length (fst (kMeansIter pool maxIter iter cs asg)) = length cs"
proof (induction pool maxIter iter cs asg rule: kMeansIter.induct)
  case (1 pool maxIter iter cs asg)
  show ?case
  proof (cases "iter < maxIter")
    case True
    show ?thesis
    proof (cases "assignAll pool cs = asg")
      case same: True
      with True show ?thesis by (simp add: kMeansIter.simps [of pool maxIter iter cs asg])
    next
      case diff: False
      with True "1.IH" [OF True refl diff] show ?thesis
        by (simp add: kMeansIter.simps [of pool maxIter iter cs asg] length_recompute Let_def)
    qed
  next
    case False
    then show ?thesis by (simp add: kMeansIter.simps [of pool maxIter iter cs asg])
  qed
qed

lemma kMeansRanked_length:
  assumes "ls \<noteq> []" "1 \<le> k" "unitDraws rnd"
  shows "\<exists>ranked. kMeansRanked rnd ls k maxIter = Some ranked \<and> length ranked = k"
proof -
  define pool where
    "pool = (if length (chromaSubsample rnd 0 ls) \<ge> k then chromaSubsample rnd 0 ls else ls)"
  define n where "n = length pool"
  define j where "j = \<lfloor>rnd (length ls) * real n\<rfloor>"
  have npos: "0 < n" using assms(1,2) by (auto simp: n_def pool_def)
  from assms(3) have u: "0 \<le> rnd (length ls)" "rnd (length ls) < 1" by (auto simp: unitDraws_def)
  have x0: "0 \<le> rnd (length ls) * real n" using u npos by simp
  have j0: "0 \<le> j" using x0 by (simp add: j_def)
  have "rnd (length ls) * real n < real n" using u npos by simp
  then have j1: "j < int n" unfolding j_def by (simp add: floor_less_iff)
  obtain cs asg where it:
    "kMeansIter pool maxIter 0 (seedLoop rnd (length ls) pool k 1 [pool ! nat j]) (replicate n 0) = (cs, asg)"
    by (cases "kMeansIter pool maxIter 0 (seedLoop rnd (length ls) pool k 1 [pool ! nat j]) (replicate n 0)")
  have "length (fst (kMeansIter pool maxIter 0 (seedLoop rnd (length ls) pool k 1 [pool ! nat j])
                       (replicate n 0)))
          = length (seedLoop rnd (length ls) pool k 1 [pool ! nat j])"
    by (rule length_kMeansIter)
  then have "length cs = length (seedLoop rnd (length ls) pool k 1 [pool ! nat j])"
    unfolding it by simp
  then have "length cs = k"
    using assms(2) by (simp add: length_seedLoop)
  then show ?thesis
    using j0 j1 it x0
    by (simp add: kMeansRanked_def Let_def pool_def [symmetric] n_def [symmetric] j_def [symmetric])
qed

lemma unitDraws_zeroDraws: "unitDraws zeroDraws"
  by (simp add: unitDraws_def zeroDraws_def)

lemma unitDraws_halfAtTwo: "unitDraws halfAtTwo"
  by (simp add: unitDraws_def halfAtTwo_def)

lemma labChroma_pixel9: "labChroma pixel9 = 0"
  by (simp add: labChroma_def pixel9_def)

lemma labChroma_pixel2: "labChroma pixel2 = 0"
  by (simp add: labChroma_def pixel2_def)

lemma kMeansRanked_one_pixel: "kMeansRanked zeroDraws [pixel9] 2 25 = Some [pixel9, pixel9]"
proof -
  have sub: "chromaSubsample zeroDraws 0 [pixel9] = [pixel9]"
    by (simp add: sampleRate_def labChroma_pixel9 zeroDraws_def)
  have d: "labDist2 pixel9 pixel9 = 0" by (simp add: labDist2_def)
  have seed: "seedLoop zeroDraws (Suc 0) [pixel9] 2 (Suc 0) [pixel9] = [pixel9, pixel9]"
    by (simp add: seedLoop_step seedLoop_stop d)
  have asg: "assignAll [pixel9] [pixel9, pixel9] = [0]" by (simp add: assignAll_def d)
  have it: "kMeansIter [pixel9] 25 0 [pixel9, pixel9] [0] = ([pixel9, pixel9], [0])"
    by (rule kMeansIter_same) (simp_all add: asg)
  show ?thesis
    by (simp add: kMeansRanked_def Let_def sub seed it score_def labChroma_pixel9 zeroDraws_def)
qed

text \<open>
  C6 (as amended).  For every \<open>k \<ge> 1\<close>, every non-empty sample and all draws of
  \<open>Math.random\<close>, \<open>kMeansCore\<close> returns exactly \<open>k\<close> colours.  The seeding always
  makes \<open>k\<close> centroids, so what reaches \<open>padToK\<close> already has \<open>k\<close> entries and
  is returned as it is: nothing is synthesised.
\<close>

theorem kMeansCore_returns_k:
  assumes "ls \<noteq> []" "1 \<le> k" "unitDraws rnd"
  shows "\<exists>res. kMeansCore rnd ls k maxIter = Some res \<and> length res = k \<and>
               kMeansRanked rnd ls k maxIter = Some res"
proof -
  from kMeansRanked_length [OF assms] obtain ranked
    where "kMeansRanked rnd ls k maxIter = Some ranked" "length ranked = k" by blast
  then show ?thesis using assms(1) by (simp add: kMeansCore_def padToK_exact)
qed

theorem kMeansCore_returns_k_witness:
  "[pixel9] \<noteq> [] \<and> (1::nat) \<le> 2 \<and> unitDraws zeroDraws \<and>
   (\<exists>res. kMeansCore zeroDraws [pixel9] 2 25 = Some res \<and> length res = 2 \<and>
          kMeansRanked zeroDraws [pixel9] 2 25 = Some res)"
proof -
  have a: "[pixel9] \<noteq> []" and b: "(1::nat) \<le> 2" by simp_all
  show ?thesis
    using kMeansCore_returns_k [OF a b unitDraws_zeroDraws, of 25] unitDraws_zeroDraws by simp
qed

text \<open>
  C6 as stated fails: with one pixel and \<open>k = 2\<close> there is one natural cluster, and the
  claim has the second colour synthesised as a lightness variant of it, which is
  \<open>padToK [pixel9] 2\<close>.  The code returns the pixel twice.
\<close>

theorem kMeansCore_pads_counterexample:
  "kMeansCore zeroDraws [pixel9] 2 25 = Some [pixel9, pixel9] \<and>
   padToK [pixel9] 2 = [pixel9, pixel9 \<lparr> labL := 0.5 \<rparr>] \<and>
   kMeansCore zeroDraws [pixel9] 2 25 \<noteq> Some (padToK [pixel9] 2)"
proof -
  have c: "kMeansCore zeroDraws [pixel9] 2 25 = Some [pixel9, pixel9]"
    by (simp add: kMeansCore_def kMeansRanked_one_pixel padToK_def)
  have p: "padToK [pixel9] 2 = [pixel9, pixel9 \<lparr> labL := 0.5 \<rparr>]"
    by (simp add: padToK_def padLoop_step padLoop_stop clamp01_def)
  have "pixel9 \<lparr> labL := 0.5 \<rparr> \<noteq> pixel9" by (simp add: pixel9_def)
  with c p show ?thesis by simp
qed


subsection \<open>What the output depends on\<close>

lemma chromaSubsample_cong:
  "(\<And>j. j < length ls \<Longrightarrow> r1 (i + j) = r2 (i + j)) \<Longrightarrow>
   chromaSubsample r1 i ls = chromaSubsample r2 i ls"
proof (induction ls arbitrary: i)
  case Nil
  show ?case by simp
next
  case (Cons x xs)
  have h: "r1 i = r2 i" using Cons.prems [of 0] by simp
  have "\<And>j. j < length xs \<Longrightarrow> r1 (Suc i + j) = r2 (Suc i + j)"
    using Cons.prems [of "Suc _"] by simp
  then have "chromaSubsample r1 (Suc i) xs = chromaSubsample r2 (Suc i) xs"
    by (rule Cons.IH)
  with h show ?case by simp
qed

lemma seedLoop_cong:
  "(\<And>c. ci \<le> c \<Longrightarrow> c < k \<Longrightarrow> r1 (base + c) = r2 (base + c)) \<Longrightarrow>
   seedLoop r1 base pool k ci cs = seedLoop r2 base pool k ci cs"
proof (induction r1 base pool k ci cs rule: seedLoop.induct)
  case (1 r1 base pool k ci cs)
  show ?case
  proof (cases "ci < k")
    case True
    have h: "r1 (base + ci) = r2 (base + ci)" using "1.prems" [of ci] True by simp
    have "seedLoop r1 base pool k (Suc ci)
            (cs @ [pool ! pickIndex (map (minDist cs) pool)
                       (r1 (base + ci) * foldl (+) 0 (map (minDist cs) pool)) 0])
        = seedLoop r2 base pool k (Suc ci)
            (cs @ [pool ! pickIndex (map (minDist cs) pool)
                       (r1 (base + ci) * foldl (+) 0 (map (minDist cs) pool)) 0])"
      using "1.IH" [OF True refl refl refl] "1.prems" by simp
    then show ?thesis using True h by (simp add: seedLoop_step)
  next
    case False
    then show ?thesis by (simp add: seedLoop_stop)
  qed
qed

lemma kMeansRanked_cong:
  assumes "\<And>i. i < length ls + max 1 k \<Longrightarrow> r1 i = r2 i"
  shows "kMeansRanked r1 ls k m = kMeansRanked r2 ls k m"
proof -
  have a: "chromaSubsample r1 0 ls = chromaSubsample r2 0 ls"
    by (rule chromaSubsample_cong) (simp add: assms)
  have b: "r1 (length ls) = r2 (length ls)" by (rule assms) simp
  have c: "seedLoop r1 (length ls) pool k 1 cs = seedLoop r2 (length ls) pool k 1 cs" for pool cs
    by (rule seedLoop_cong) (simp add: assms)
  show ?thesis by (simp only: kMeansRanked_def a b c)
qed

lemma prngNext_fst: "fst (prngNext s) = s + 0x6d2b79f5"
  by (simp add: prngNext_def Let_def)

lemma drawTable_closed:
  "drawTable n s = map (\<lambda>j. snd (prngNext (s + int j * 0x6d2b79f5))) [0 ..< n]"
proof (induction n arbitrary: s)
  case 0
  show ?case by simp
next
  case (Suc n)
  have "drawTable (Suc n) s = snd (prngNext s) # drawTable n (s + 0x6d2b79f5)"
    by (simp add: case_prod_beta prngNext_fst Let_def)
  also have "drawTable n (s + 0x6d2b79f5)
      = map (\<lambda>j. snd (prngNext (s + int (Suc j) * 0x6d2b79f5))) [0 ..< n]"
    by (simp add: Suc.IH algebra_simps)
  also have "snd (prngNext s) # \<dots> = map (\<lambda>j. snd (prngNext (s + int j * 0x6d2b79f5))) [0 ..< Suc n]"
    by (simp only: upt_conv_Cons [of 0 "Suc n"] map_Suc_upt [symmetric] list.map) simp
  finally show ?case .
qed

lemma randomLoop_closed:
  "randomLoop n s = map (\<lambda>i. lchToHex
       \<lparr> lchL = lerp 0.35 0.75 (snd (prngNext (s + int (3 * i) * 0x6d2b79f5))),
         lchC = lerp 0.08 0.2 (snd (prngNext (s + int (3 * i + 1) * 0x6d2b79f5))),
         lchH = snd (prngNext (s + int (3 * i + 2) * 0x6d2b79f5)) * 360 \<rparr>) [0 ..< n]"
proof (induction n arbitrary: s)
  case 0
  show ?case by simp
next
  case (Suc n)
  let ?f = "\<lambda>s i. lchToHex
       \<lparr> lchL = lerp 0.35 0.75 (snd (prngNext (s + int (3 * i) * 0x6d2b79f5))),
         lchC = lerp 0.08 0.2 (snd (prngNext (s + int (3 * i + 1) * 0x6d2b79f5))),
         lchH = snd (prngNext (s + int (3 * i + 2) * 0x6d2b79f5)) * 360 \<rparr>"
  have step: "randomLoop (Suc n) s = ?f s 0 # randomLoop n (s + 3 * 0x6d2b79f5)"
    by (simp add: case_prod_beta prngNext_fst Let_def algebra_simps)
  have shift: "?f (s + 3 * 0x6d2b79f5) i = ?f s (Suc i)" for i
    by (simp add: algebra_simps)
  have "randomLoop n (s + 3 * 0x6d2b79f5) = map (?f (s + 3 * 0x6d2b79f5)) [0 ..< n]"
    by (rule Suc.IH)
  also have "\<dots> = map (\<lambda>i. ?f s (Suc i)) [0 ..< n]"
    by (simp only: shift)
  finally have "randomLoop (Suc n) s = ?f s 0 # map (\<lambda>i. ?f s (Suc i)) [0 ..< n]"
    using step by simp
  also have "\<dots> = map (?f s) [0 ..< Suc n]"
    by (rule map_upt_Suc [symmetric])
  finally show ?case .
qed

lemma kMeansCore_run_zeroDraws: "kMeansCore zeroDraws [pixel2, pixel9] 1 25 = Some [pixel2]"
proof -
  have sub: "chromaSubsample zeroDraws 0 [pixel2, pixel9] = [pixel2, pixel9]"
    by (simp add: sampleRate_def labChroma_pixel9 labChroma_pixel2 zeroDraws_def)
  have asg: "assignAll [pixel2, pixel9] [pixel2] = [0, 0]" by (simp add: assignAll_def)
  have it: "kMeansIter [pixel2, pixel9] 25 0 [pixel2] [0, 0] = ([pixel2], [0, 0])"
    by (rule kMeansIter_same) (simp_all add: asg)
  have rk: "kMeansRanked zeroDraws [pixel2, pixel9] 1 25 = Some [pixel2]"
    unfolding kMeansRanked_def Let_def sub by (simp add: seedLoop_stop it zeroDraws_def)
  show ?thesis unfolding kMeansCore_def rk by (simp add: padToK_def)
qed

lemma kMeansCore_run_halfAtTwo: "kMeansCore halfAtTwo [pixel2, pixel9] 1 25 = Some [pixel9]"
proof -
  have sub: "chromaSubsample halfAtTwo 0 [pixel2, pixel9] = [pixel2, pixel9]"
    by (simp add: sampleRate_def labChroma_pixel9 labChroma_pixel2 halfAtTwo_def)
  have asg: "assignAll [pixel2, pixel9] [pixel9] = [0, 0]" by (simp add: assignAll_def)
  have it: "kMeansIter [pixel2, pixel9] 25 0 [pixel9] [0, 0] = ([pixel9], [0, 0])"
    by (rule kMeansIter_same) (simp_all add: asg)
  have rk: "kMeansRanked halfAtTwo [pixel2, pixel9] 1 25 = Some [pixel9]"
    unfolding kMeansRanked_def Let_def sub by (simp add: seedLoop_stop it halfAtTwo_def)
  show ?thesis unfolding kMeansCore_def rk by (simp add: padToK_def)
qed

text \<open>
  C3 (as amended).  \<open>kMeansCore\<close> reads \<open>Math.random\<close>; its output is a function of
  its arguments and of the values drawn, and two runs agree when their first
  \<open>length ls + max 1 k\<close> draws agree.  The "random" and "noise" generators never read
  \<open>Math.random\<close>: the colours of \<open>randomPalette\<close> and the table of
  \<open>makeValueNoise\<close> are made of the draws of a generator seeded from the hash of the
  base colour, so equal inputs give equal outputs.
\<close>

theorem draws_determine_output:
  assumes "\<And>i. i < length ls + max 1 k \<Longrightarrow> r1 i = r2 i"
  shows "kMeansCore r1 ls k m = kMeansCore r2 ls k m \<and>
         randomPalette base n = map (\<lambda>i. lchToHex
             \<lparr> lchL = lerp 0.35 0.75 (prngDraw (seedFromHex base) (3 * i)),
               lchC = lerp 0.08 0.2 (prngDraw (seedFromHex base) (3 * i + 1)),
               lchH = prngDraw (seedFromHex base) (3 * i + 2) * 360 \<rparr>) [0 ..< n] \<and>
         drawTable 256 (makePrng seed) = map (prngDraw seed) [0 ..< 256]"
proof -
  have a: "kMeansCore r1 ls k m = kMeansCore r2 ls k m"
    using kMeansRanked_cong [of ls k r1 r2 m] assms by (simp add: kMeansCore_def)
  have b: "drawTable 256 (makePrng seed) = map (prngDraw seed) [0 ..< 256]"
    unfolding prngDraw_def by (rule drawTable_closed)
  show ?thesis
    using a b by (simp add: randomPalette_def randomLoop_closed prngDraw_def)
qed


theorem draws_determine_output_witness:
  "zeroDraws 0 = lateDraws 0 \<and> zeroDraws 1 = lateDraws 1 \<and> zeroDraws 2 = lateDraws 2 \<and>
   zeroDraws 3 \<noteq> lateDraws 3 \<and>
   kMeansCore zeroDraws [pixel9] 2 25 = kMeansCore lateDraws [pixel9] 2 25 \<and>
   drawTable 256 (makePrng 7) = map (prngDraw 7) [0 ..< 256]"
proof -
  have agree: "\<And>i. i < length [pixel9] + max 1 2 \<Longrightarrow> zeroDraws i = lateDraws i"
    by (simp add: zeroDraws_def lateDraws_def)
  show ?thesis
    using draws_determine_output [of "[pixel9]" 2 zeroDraws lateDraws 25 "''#000000''" 0 7, OF agree]
    by (simp add: zeroDraws_def lateDraws_def)
qed

text \<open>
  C3 as stated fails for \<open>kMeansCore\<close>: the same two pixels and \<open>k = 1\<close> give one
  colour when every draw is \<open>0\<close> and the other when the third draw is \<open>1/2\<close>.
\<close>

theorem kMeansCore_determinism_counterexample:
  "unitDraws zeroDraws \<and> unitDraws halfAtTwo \<and>
   kMeansCore zeroDraws [pixel2, pixel9] 1 25 = Some [pixel2] \<and>
   kMeansCore halfAtTwo [pixel2, pixel9] 1 25 = Some [pixel9] \<and>
   kMeansCore zeroDraws [pixel2, pixel9] 1 25 \<noteq> kMeansCore halfAtTwo [pixel2, pixel9] 1 25"
proof -
  have "pixel2 \<noteq> pixel9" by (simp add: pixel2_def pixel9_def)
  then show ?thesis
    unfolding kMeansCore_run_zeroDraws kMeansCore_run_halfAtTwo
    by (simp add: unitDraws_zeroDraws unitDraws_halfAtTwo)
qed


subsection \<open>Gamut-safe encoding\<close>

lemma chromaSearch_stop: "\<not> i < 24 \<Longrightarrow> chromaSearch lch i lo hi = (lo, hi)"
  by (simp add: chromaSearch.simps [of lch i lo hi])

lemma chromaSearch_in:
  "i < 24 \<Longrightarrow> inGamut (oklabToRgbRaw (oklchToOklab (lch \<lparr> lchC := (lo + hi) / 2 \<rparr>))) \<Longrightarrow>
   chromaSearch lch i lo hi = chromaSearch lch (Suc i) ((lo + hi) / 2) hi"
  by (simp add: chromaSearch.simps [of lch i lo hi] Let_def)

lemma chromaSearch_out:
  "i < 24 \<Longrightarrow> \<not> inGamut (oklabToRgbRaw (oklchToOklab (lch \<lparr> lchC := (lo + hi) / 2 \<rparr>))) \<Longrightarrow>
   chromaSearch lch i lo hi = chromaSearch lch (Suc i) lo ((lo + hi) / 2)"
  by (simp add: chromaSearch.simps [of lch i lo hi] Let_def)

lemma chromaSearch_inv:
  assumes "i + n = 24" "chromaSearch lch i lo hi = (lo', hi')"
  shows "hi' - lo' = (hi - lo) / 2 ^ n \<and>
         min lo hi \<le> lo' \<and> lo' \<le> max lo hi \<and>
         (lo' = lo \<or> inGamut (oklabToRgbRaw (oklchToOklab (lch \<lparr> lchC := lo' \<rparr>)))) \<and>
         (hi' = hi \<or> \<not> inGamut (oklabToRgbRaw (oklchToOklab (lch \<lparr> lchC := hi' \<rparr>))))"
  using assms
proof (induction n arbitrary: i lo hi)
  case 0
  then show ?case by (simp add: chromaSearch_stop)
next
  case (Suc n)
  from Suc.prems(1) have lt: "i < 24" and nx: "Suc i + n = 24" by simp_all
  let ?mid = "(lo + hi) / 2"
  show ?case
  proof (cases "inGamut (oklabToRgbRaw (oklchToOklab (lch \<lparr> lchC := ?mid \<rparr>)))")
    case True
    then have "chromaSearch lch (Suc i) ?mid hi = (lo', hi')"
      using Suc.prems(2) lt by (simp add: chromaSearch_in)
    from Suc.IH [OF nx this]
    have a: "hi' - lo' = (hi - ?mid) / 2 ^ n" and b: "min ?mid hi \<le> lo'" and c: "lo' \<le> max ?mid hi"
      and d: "lo' = ?mid \<or> inGamut (oklabToRgbRaw (oklchToOklab (lch \<lparr> lchC := lo' \<rparr>)))"
      and e: "hi' = hi \<or> \<not> inGamut (oklabToRgbRaw (oklchToOklab (lch \<lparr> lchC := hi' \<rparr>)))"
      by blast+
    have "hi' - lo' = (hi - lo) / 2 ^ Suc n" using a by (simp add: field_simps)
    moreover have "min lo hi \<le> lo'" using b by (simp add: min_def split: if_splits)
    moreover have "lo' \<le> max lo hi" using c by (simp add: max_def split: if_splits)
    moreover have "lo' = lo \<or> inGamut (oklabToRgbRaw (oklchToOklab (lch \<lparr> lchC := lo' \<rparr>)))"
      using d True by metis
    ultimately show ?thesis using e by blast
  next
    case False
    then have "chromaSearch lch (Suc i) lo ?mid = (lo', hi')"
      using Suc.prems(2) lt by (simp add: chromaSearch_out)
    from Suc.IH [OF nx this]
    have a: "hi' - lo' = (?mid - lo) / 2 ^ n" and b: "min lo ?mid \<le> lo'" and c: "lo' \<le> max lo ?mid"
      and d: "lo' = lo \<or> inGamut (oklabToRgbRaw (oklchToOklab (lch \<lparr> lchC := lo' \<rparr>)))"
      and e: "hi' = ?mid \<or> \<not> inGamut (oklabToRgbRaw (oklchToOklab (lch \<lparr> lchC := hi' \<rparr>)))"
      by blast+
    have "hi' - lo' = (hi - lo) / 2 ^ Suc n" using a by (simp add: field_simps)
    moreover have "min lo hi \<le> lo'" using b by (simp add: min_def split: if_splits)
    moreover have "lo' \<le> max lo hi" using c by (simp add: max_def split: if_splits)
    moreover have "hi' = hi \<or> \<not> inGamut (oklabToRgbRaw (oklchToOklab (lch \<lparr> lchC := hi' \<rparr>)))"
      using e False by metis
    ultimately show ?thesis using d by blast
  qed
qed

lemma digits16_0: "digits16 0 = ''0''"
  by (simp add: digits16.simps [of 0] hexChar_def)

lemma hexByteClamped_low: "x * 255 < 1 / 2 \<Longrightarrow> hexByteClamped x = ''00''"
proof -
  assume a: "x * 255 < 1 / 2"
  have "0 \<le> clamp01 x * 255 + 1 / 2" "clamp01 x * 255 + 1 / 2 < 1"
    using a by (auto simp: clamp01_def max_def min_def)
  then have "\<lfloor>clamp01 x * 255 + 1 / 2\<rfloor> = 0" by (simp add: floor_eq_iff)
  then show ?thesis
    by (simp add: hexByteClamped_def hexByte_def jsRound_def toString16_def digits16_0 padStart2_def)
qed

lemma oklchToOklab_darkTeal:
  "oklchToOklab (darkTeal c) = \<lparr> labL = 0, laba = - c, labb = 0 \<rparr>"
  by (simp add: oklchToOklab_def darkTeal_def)

lemma K_bounds: "0.257 \<le> Kr" "Kr \<le> 0.258" "0 \<le> Kg" "Kg \<le> 0.082" "0 \<le> Kb" "Kb \<le> 0.001"
  by (simp_all add: Kr_def Kg_def Kb_def power3_eq_cube)

lemma raw_darkTeal:
  "oklabToRgbRaw (oklchToOklab (darkTeal c)) =
     \<lparr> r = delinearize (- Kr * c ^ 3), g = delinearize (Kg * c ^ 3), b = delinearize (Kb * c ^ 3) \<rparr>"
  by (simp add: oklabToRgbRaw_def oklchToOklab_darkTeal Let_def Kr_def Kg_def Kb_def
      power3_eq_cube algebra_simps)

lemma raw_darkTeal_lin:
  assumes "0 \<le> c" "c \<le> 0.3"
  shows "oklabToRgbRaw (oklchToOklab (darkTeal c)) =
     \<lparr> r = 12.92 * (- Kr * c ^ 3), g = 12.92 * (Kg * c ^ 3), b = 12.92 * (Kb * c ^ 3) \<rparr>"
proof -
  have c3: "0 \<le> c ^ 3" "c ^ 3 \<le> 0.027"
    using assms power_mono [of c "0.3" 3] by (simp_all add: power3_eq_cube)
  have "- Kr * c ^ 3 \<le> 0" using K_bounds c3 by (simp add: mult_nonneg_nonneg)
  moreover have "Kg * c ^ 3 \<le> 0.082 * 0.027"
    using K_bounds c3 by (intro mult_mono) simp_all
  moreover have "Kb * c ^ 3 \<le> 0.001 * 0.027"
    using K_bounds c3 by (intro mult_mono) simp_all
  ultimately show ?thesis
    by (simp add: raw_darkTeal delinearize_def)
qed

lemma clamp01_idem: "clamp01 (clamp01 x) = clamp01 x"
  by (simp add: clamp01_def max_def min_def)

lemma darkTeal_black:
  assumes "0 \<le> c" "c \<le> 0.3" "c = 0 \<or> inGamut (oklabToRgbRaw (oklchToOklab (darkTeal c)))"
  shows "rgbToHex (oklabToRgb (oklchToOklab (darkTeal c))) = ''#000000''"
proof -
  have c3: "0 \<le> c ^ 3" using assms(1) by simp
  have small: "Kr * c ^ 3 \<le> 0.001 / 12.92"
    using assms(3)
  proof
    assume "c = 0" then show ?thesis by simp
  next
    assume "inGamut (oklabToRgbRaw (oklchToOklab (darkTeal c)))"
    then show ?thesis by (simp add: raw_darkTeal_lin [OF assms(1,2)] inGamut_def)
  qed
  have "0.257 * c ^ 3 \<le> Kr * c ^ 3" using K_bounds c3 by (intro mult_right_mono) simp_all
  with small have c3u: "c ^ 3 \<le> 0.0004" by simp
  have rr: "12.92 * (- Kr * c ^ 3) * 255 < 1 / 2"
  proof -
    have "0 \<le> Kr * c ^ 3" using K_bounds c3 by (intro mult_nonneg_nonneg) simp_all
    then show ?thesis by simp
  qed
  have gg: "12.92 * (Kg * c ^ 3) * 255 < 1 / 2"
  proof -
    have "Kg * c ^ 3 \<le> 0.082 * 0.0004" using K_bounds c3 c3u by (intro mult_mono) simp_all
    then show ?thesis by simp
  qed
  have bb: "12.92 * (Kb * c ^ 3) * 255 < 1 / 2"
  proof -
    have "Kb * c ^ 3 \<le> 0.001 * 0.0004" using K_bounds c3 c3u by (intro mult_mono) simp_all
    then show ?thesis by simp
  qed
  show ?thesis
    unfolding rgbToHex_def oklabToRgb_def raw_darkTeal_lin [OF assms(1,2)] Let_def
    using hexByteClamped_low [OF rr] hexByteClamped_low [OF gg] hexByteClamped_low [OF bb]
    by (simp add: hexByteClamped_def clamp01_idem)
qed

lemma darkTeal_out: "\<not> inGamut (oklabToRgbRaw (oklchToOklab (darkTeal 0.3)))"
proof -
  have "12.92 * (- Kr * 0.3 ^ 3) < - 0.001" by (simp add: Kr_def power3_eq_cube)
  then show ?thesis
    using raw_darkTeal_lin [of "0.3"] by (simp add: inGamut_def)
qed

lemma lchToHexSafe_darkTeal: "lchToHexSafe (darkTeal 0.3) = ''#000000''"
proof -
  obtain lo hi where s: "chromaSearch (darkTeal 0.3) 0 0 0.3 = (lo, hi)"
    by (cases "chromaSearch (darkTeal 0.3) 0 0 0.3")
  have upd: "darkTeal 0.3 \<lparr> lchC := c \<rparr> = darkTeal c" for c by (simp add: darkTeal_def)
  have inv: "min 0 0.3 \<le> lo \<and> lo \<le> max 0 0.3 \<and>
      (lo = 0 \<or> inGamut (oklabToRgbRaw (oklchToOklab (darkTeal lo))))"
    using chromaSearch_inv [of 0 24 "darkTeal 0.3" 0 "0.3" lo hi] s by (simp add: upd)
  then have "rgbToHex (oklabToRgb (oklchToOklab (darkTeal lo))) = ''#000000''"
    by (intro darkTeal_black) simp_all
  moreover have c: "lchC (darkTeal 0.3) = 0.3" by (simp add: darkTeal_def)
  ultimately show ?thesis
    unfolding lchToHexSafe_def Let_def c s upd using darkTeal_out by simp
qed

lemma hexToLch_black: "hexToLch ''#000000'' = Some \<lparr> lchL = 0, lchC = 0, lchH = 0 \<rparr>"
proof -
  have z: "hexDigitVal CHR ''0'' = Some 0" by (simp add: hexDigitVal_def)
  have p: "parseInt16 ''00'' = Some 0" by (simp add: parseInt16_def isHexDigit_def z)
  have rgb: "hexToRgb ''#000000'' = Some \<lparr> r = 0, g = 0, b = 0 \<rparr>"
    by (simp add: hexToRgb_def sliceStr_def p)
  have lab: "rgbToOklab \<lparr> r = 0, g = 0, b = 0 \<rparr> = \<lparr> labL = 0, laba = 0, labb = 0 \<rparr>"
    by (simp add: rgbToOklab_def linearize_def cbrt_def)
  show ?thesis
    by (simp add: hexToLch_def rgb lab oklabToOklch_def atan2_def jsMod_def jsTrunc_def)
qed

text \<open>
  C1 (as amended).  \<open>lchToHexSafe\<close> returns the direct encoding when the three raw
  channels lie in \<open>[-0.001, 1.001]\<close>.  Otherwise it bisects the chroma 24 times between
  \<open>0\<close> and the input chroma, testing the raw conversion each time, and encodes the
  input with its chroma replaced by the final lower bound \<open>lo\<close>: lightness and hue are
  the input's, \<open>hi - lo\<close> is the input chroma divided by \<open>2^24\<close>, \<open>lo\<close> is
  \<open>0\<close> or in gamut, and \<open>hi\<close> is out of gamut.  Nothing is said of the hue read back
  from the eight-bit hex.
\<close>

theorem lchToHexSafe_search:
  "(inGamut (oklabToRgbRaw (oklchToOklab lch)) \<longrightarrow>
      lchToHexSafe lch = rgbToHex (oklabToRgb (oklchToOklab lch))) \<and>
   (\<not> inGamut (oklabToRgbRaw (oklchToOklab lch)) \<longrightarrow>
      (\<exists>lo hi. chromaSearch lch 0 0 (lchC lch) = (lo, hi) \<and>
         lchToHexSafe lch = rgbToHex (oklabToRgb (oklchToOklab (lch \<lparr> lchC := lo \<rparr>))) \<and>
         hi - lo = lchC lch / 2 ^ 24 \<and>
         min 0 (lchC lch) \<le> lo \<and> lo \<le> max 0 (lchC lch) \<and>
         (lo = 0 \<or> inGamut (oklabToRgbRaw (oklchToOklab (lch \<lparr> lchC := lo \<rparr>)))) \<and>
         \<not> inGamut (oklabToRgbRaw (oklchToOklab (lch \<lparr> lchC := hi \<rparr>)))))"
proof (intro conjI impI)
  assume "inGamut (oklabToRgbRaw (oklchToOklab lch))"
  then show "lchToHexSafe lch = rgbToHex (oklabToRgb (oklchToOklab lch))"
    by (simp add: lchToHexSafe_def)
next
  assume out: "\<not> inGamut (oklabToRgbRaw (oklchToOklab lch))"
  obtain lo hi where s: "chromaSearch lch 0 0 (lchC lch) = (lo, hi)"
    by (cases "chromaSearch lch 0 0 (lchC lch)")
  have inv: "hi - lo = (lchC lch - 0) / 2 ^ 24 \<and>
         min 0 (lchC lch) \<le> lo \<and> lo \<le> max 0 (lchC lch) \<and>
         (lo = 0 \<or> inGamut (oklabToRgbRaw (oklchToOklab (lch \<lparr> lchC := lo \<rparr>)))) \<and>
         (hi = lchC lch \<or> \<not> inGamut (oklabToRgbRaw (oklchToOklab (lch \<lparr> lchC := hi \<rparr>))))"
    by (rule chromaSearch_inv [OF _ s]) simp
  have same: "lch \<lparr> lchC := lchC lch \<rparr> = lch" by simp
  have "\<not> inGamut (oklabToRgbRaw (oklchToOklab (lch \<lparr> lchC := hi \<rparr>)))"
    using inv out same by metis
  moreover have "lchToHexSafe lch = rgbToHex (oklabToRgb (oklchToOklab (lch \<lparr> lchC := lo \<rparr>)))"
    using out s by (simp add: lchToHexSafe_def)
  ultimately show "\<exists>lo hi. chromaSearch lch 0 0 (lchC lch) = (lo, hi) \<and>
         lchToHexSafe lch = rgbToHex (oklabToRgb (oklchToOklab (lch \<lparr> lchC := lo \<rparr>))) \<and>
         hi - lo = lchC lch / 2 ^ 24 \<and>
         min 0 (lchC lch) \<le> lo \<and> lo \<le> max 0 (lchC lch) \<and>
         (lo = 0 \<or> inGamut (oklabToRgbRaw (oklchToOklab (lch \<lparr> lchC := lo \<rparr>)))) \<and>
         \<not> inGamut (oklabToRgbRaw (oklchToOklab (lch \<lparr> lchC := hi \<rparr>)))"
    using s inv by auto
qed


theorem lchToHexSafe_search_witness:
  "inGamut (oklabToRgbRaw (oklchToOklab (darkTeal 0))) \<and>
   lchToHexSafe (darkTeal 0) = rgbToHex (oklabToRgb (oklchToOklab (darkTeal 0))) \<and>
   \<not> inGamut (oklabToRgbRaw (oklchToOklab (darkTeal 0.3))) \<and>
   (\<exists>lo hi. chromaSearch (darkTeal 0.3) 0 0 (lchC (darkTeal 0.3)) = (lo, hi) \<and>
      lchToHexSafe (darkTeal 0.3)
        = rgbToHex (oklabToRgb (oklchToOklab (darkTeal 0.3 \<lparr> lchC := lo \<rparr>))) \<and>
      hi - lo = lchC (darkTeal 0.3) / 2 ^ 24)"
proof -
  have a: "inGamut (oklabToRgbRaw (oklchToOklab (darkTeal 0)))"
    using raw_darkTeal_lin [of 0] by (simp add: inGamut_def)
  show ?thesis
    using a darkTeal_out lchToHexSafe_search [of "darkTeal 0"] lchToHexSafe_search [of "darkTeal 0.3"]
    by blast
qed

text \<open>
  C1 as stated fails in its last part: for lightness \<open>0\<close>, chroma \<open>0.3\<close> and hue
  \<open>180\<close> the search ends on black, and black decodes to hue \<open>0\<close>, 180 degrees away
  from the input hue.
\<close>

theorem lchToHexSafe_hue_counterexample:
  "lchH (darkTeal 0.3) = 180 \<and> lchToHexSafe (darkTeal 0.3) = ''#000000'' \<and>
   hexToLch ''#000000'' = Some \<lparr> lchL = 0, lchC = 0, lchH = 0 \<rparr>"
  by (simp add: lchToHexSafe_darkTeal hexToLch_black) (simp add: darkTeal_def)

subsection \<open>Semantic tokens: the shape of the output\<close>

lemma length_generatePalette: "length (generatePalette key lch n) = max 1 n"
  by (auto simp: generatePalette_def Let_def buildTintShadeRamp_def buildMonochromaticRamp_def
      buildFromOffsets_def buildEvenlySpaced_def split: option.splits)

lemma parseInt16_hex:
  assumes "ds \<noteq> []" "list_all isHexDigit ds"
  shows "parseInt16 ds \<noteq> None"
proof -
  from assms obtain d rest where "ds = d # rest" "isHexDigit d" by (cases ds) auto
  then show ?thesis by (simp add: parseInt16_def Let_def)
qed

lemma hexToRgb_HEX_RE:
  assumes "HEX_RE s"
  shows "hexToRgb s \<noteq> None"
proof -
  from assms have len: "length s = 7" and all: "list_all isHexDigit (tl s)"
    by (auto simp: HEX_RE_def)
  have sub: "list_all isHexDigit (sliceStr i j s)" if "1 \<le> i" for i j
  proof -
    have "set (drop i s) \<subseteq> set (tl s)"
      using that by (metis drop_Suc le_add_diff_inverse plus_1_eq_Suc set_drop_subset drop_drop add.commute)
    then show ?thesis
      using all by (auto simp: sliceStr_def list_all_iff dest: in_set_takeD)
  qed
  have ne: "sliceStr 1 3 s \<noteq> []" "sliceStr 3 5 s \<noteq> []" "sliceStr 5 7 s \<noteq> []"
    using len by (auto simp: sliceStr_def)
  have "parseInt16 (sliceStr 1 3 s) \<noteq> None"
    by (rule parseInt16_hex [OF ne(1)]) (rule sub, simp)
  moreover have "parseInt16 (sliceStr 3 5 s) \<noteq> None"
    by (rule parseInt16_hex [OF ne(2)]) (rule sub, simp)
  moreover have "parseInt16 (sliceStr 5 7 s) \<noteq> None"
    by (rule parseInt16_hex [OF ne(3)]) (rule sub, simp)
  ultimately show ?thesis by (auto simp: hexToRgb_def)
qed

lemma HEX_RE_extract: "HEX_RE (extractColorFromArray colors)"
proof (induction colors)
  case Nil
  show ?case by (simp add: HEX_RE_def isHexDigit_def hexDigitVal_def)
next
  case (Cons c cs)
  then show ?case by simp
qed

lemma radiumEntry_shape:
  "\<exists>out. radiumEntry (key, colors) = Some (key, out) \<and> length out = max 1 (length colors)"
proof -
  have "hexToLch (extractColorFromArray colors) \<noteq> None"
    using hexToRgb_HEX_RE [OF HEX_RE_extract] by (simp add: hexToLch_def)
  then show ?thesis
    by (auto simp: radiumEntry_def Let_def length_generatePalette)
qed

lemma generateRadiumColors_shape:
  "\<exists>out. generateRadiumColors input = Some out \<and> map fst out = map fst input \<and>
         map (\<lambda>e. length (snd e)) out = map (\<lambda>e. max 1 (length (snd e))) input"
proof (induction input)
  case Nil
  show ?case by (simp add: generateRadiumColors_def)
next
  case (Cons e es)
  obtain key colors where e: "e = (key, colors)" by (cases e)
  from radiumEntry_shape [of key colors] obtain o1
    where o1: "radiumEntry (key, colors) = Some (key, o1)" "length o1 = max 1 (length colors)"
    by blast
  from Cons.IH obtain out where out: "generateRadiumColors es = Some out" "map fst out = map fst es"
    "map (\<lambda>e. length (snd e)) out = map (\<lambda>e. max 1 (length (snd e))) es" by blast
  show ?case
    using o1 out e by (simp add: generateRadiumColors_def)
qed


text \<open>
  C2.  The output of \<open>generateRadiumColors\<close> has the keys of its input
  (\<open>generateRadiumColors_shape\<close>), and an array of \<open>n > 0\<close> colours is answered by
  \<open>n\<close> colours.  An empty array is answered by one colour: \<open>generatePalette\<close> takes
  the single-swatch path for every \<open>n\<close> that is not above one.
\<close>

theorem generateRadiumColors_empty_array:
  "\<exists>c. generateRadiumColors [(''a'', [])] = Some [(''a'', [c])]"
proof -
  from generateRadiumColors_shape [of "[(''a'', [])]"] obtain out
    where o: "generateRadiumColors [(''a'', [])] = Some out" "map fst out = [''a'']"
      "map (\<lambda>e. length (snd e)) out = [1]" by auto
  then obtain cs where "out = [(''a'', cs)]" "length cs = 1"
    by (cases out) auto
  then obtain c where "cs = [c]" by (cases cs) auto
  with o \<open>out = [(''a'', cs)]\<close> show ?thesis by auto
qed


subsection \<open>Role selection\<close>

lemma cbrt_cube: "cbrt (x * x * x) = x"
proof -
  have "x * x * x = x ^ 3" by (simp add: power3_eq_cube)
  then show ?thesis by (simp add: cbrt_def odd_real_root_power_cancel)
qed

lemma cbrt_mono: "x \<le> y \<Longrightarrow> cbrt x \<le> cbrt y"
  by (simp add: cbrt_def)

lemma bindE_Inr [simp]: "bindE (Inr v) f = f v"
  by (simp add: bindE_def)

lemma bindE_Inl [simp]: "bindE (Inl e) f = Inl e"
  by (simp add: bindE_def)

lemma bindE_eq_Inr: "bindE m f = Inr y \<longleftrightarrow> (\<exists>v. m = Inr v \<and> f v = Inr y)"
  by (cases m) simp_all

lemma hexChars_lower: "list_all isLowerHexDigit ''0123456789abcdef''"
  by (simp add: isLowerHexDigit_def)

lemma hexChar_lower: "n < 16 \<Longrightarrow> isLowerHexDigit (hexChar n)"
  using hexChars_lower by (simp add: hexChar_def list_all_length)

lemma digits16_byte:
  "n < 256 \<Longrightarrow> digits16 n = (if n < 16 then [hexChar n] else [hexChar (n div 16), hexChar (n mod 16)])"
proof (cases "n < 16")
  case True
  then show ?thesis by (simp add: digits16.simps [of n])
next
  case False
  assume "n < 256"
  then have "n div 16 < 16" by simp
  then have "digits16 (n div 16) = [hexChar (n div 16)]" by (simp add: digits16.simps [of "n div 16"])
  with False show ?thesis by (simp add: digits16.simps [of n])
qed

lemma hexByteClamped_shape:
  "length (hexByteClamped x) = 2 \<and> list_all isLowerHexDigit (hexByteClamped x)"
proof -
  define n where "n = nat (jsRound (clamp01 x * 255))"
  have c: "0 \<le> clamp01 x" "clamp01 x \<le> 1" by (simp_all add: clamp01_def)
  have lo: "0 \<le> jsRound (clamp01 x * 255)"
    using c by (simp add: jsRound_def)
  have "clamp01 x * 255 + 1 / 2 < 256" using c by simp
  then have hi: "jsRound (clamp01 x * 255) < 256"
    by (simp add: jsRound_def floor_less_iff)
  have n: "n < 256" using lo hi by (simp add: n_def)
  have ts: "toString16 (jsRound (clamp01 x * 255)) = digits16 n"
    using lo by (simp add: toString16_def n_def)
  have d: "n div 16 < 16" "n mod 16 < 16" using n by simp_all
  have z: "isLowerHexDigit CHR ''0''" by (simp add: isLowerHexDigit_def)
  show ?thesis
  proof (cases "n < 16")
    case True
    then show ?thesis
      using n by (simp add: hexByteClamped_def hexByte_def ts digits16_byte padStart2_def
          hexChar_lower z)
  next
    case False
    then show ?thesis
      using n d by (simp add: hexByteClamped_def hexByte_def ts digits16_byte padStart2_def
          hexChar_lower)
  qed
qed

lemma normalHex_rgbToHex: "normalHex (rgbToHex c)"
  using hexByteClamped_shape [of "r c"] hexByteClamped_shape [of "g c"] hexByteClamped_shape [of "b c"]
  by (simp add: normalHex_def rgbToHex_def)

lemma lowerHex_isHex: "isLowerHexDigit c \<Longrightarrow> isHexDigit c"
  by (auto simp: isLowerHexDigit_def isHexDigit_def hexDigitVal_def Let_def)

lemma lowerHex_not_space: "isLowerHexDigit c \<Longrightarrow> \<not> isSpace c"
  by (auto simp: isLowerHexDigit_def isSpace_def Let_def)

lemma hex_not_space: "isHexDigit c \<Longrightarrow> \<not> isSpace c"
  by (auto simp: isHexDigit_def hexDigitVal_def isSpace_def Let_def split: if_splits)

lemma lowerHex_toLower: "isLowerHexDigit c \<Longrightarrow> toLowerChar c = c"
  by (auto simp: isLowerHexDigit_def toLowerChar_def Let_def)

lemma hash_not_space: "\<not> isSpace CHR ''#''"
  by (simp add: isSpace_def)

lemma trim_id:
  assumes "v \<noteq> []" "\<not> isSpace (hd v)" "\<not> isSpace (last v)"
  shows "trim v = v"
proof -
  have a: "dropWhile isSpace v = v" using assms(1,2) by (cases v) simp_all
  have "hd (rev v) = last v" using assms(1) by (simp add: hd_rev)
  then have "dropWhile isSpace (rev v) = rev v"
    using assms(1,3) by (cases v rule: rev_cases) simp_all
  with a show ?thesis by (simp add: trim_def)
qed

lemma normaliseHex_normal:
  assumes "normalHex h"
  shows "normaliseHex (JStr h) = Inr h"
proof -
  from assms obtain t where h: "h = CHR ''#'' # t" and t: "length t = 6" "list_all isLowerHexDigit t"
    by (cases h) (auto simp: normalHex_def)
  have "isLowerHexDigit (last t)" using t by (cases t rule: rev_cases) auto
  then have "\<not> isSpace (last h)" using h t lowerHex_not_space by (cases t) auto
  then have tr: "trim h = h" using h hash_not_space by (intro trim_id) simp_all
  have low: "map toLowerChar t = t"
    using t(2) by (induction t) (simp_all add: lowerHex_toLower)
  show ?thesis
    unfolding h using t by (simp add: normaliseHex_def tr [unfolded h] stripHash_def low Let_def)
qed

lemma hex_toLower_lower: "isHexDigit c \<Longrightarrow> isLowerHexDigit (toLowerChar c)"
  by (auto simp: isHexDigit_def hexDigitVal_def isLowerHexDigit_def toLowerChar_def Let_def
      split: if_splits)

lemma normaliseHex_valid:
  assumes "validHex v"
  shows "\<exists>h. normaliseHex (JStr v) = Inr h \<and> normalHex h"
proof -
  define h0 where "h0 = stripHash v"
  from assms have len: "length h0 = 3 \<or> length h0 = 6" and hx: "list_all isHexDigit h0"
    by (auto simp: validHex_def h0_def Let_def)
  have ne: "v \<noteq> []" using len by (auto simp: h0_def stripHash_def)
  have vh: "v = h0 \<or> v = CHR ''#'' # h0"
    using ne by (cases v) (auto simp: h0_def stripHash_def)
  have h0ne: "h0 \<noteq> []" using len by auto
  have "isHexDigit (hd h0)" "isHexDigit (last h0)"
    using hx h0ne by (auto simp: list_all_iff)
  then have "\<not> isSpace (hd v)" "\<not> isSpace (last v)"
    using vh h0ne hex_not_space hash_not_space by auto
  then have tr: "trim v = v" using ne by (intro trim_id)
  define h where "h = map toLowerChar h0"
  have hl: "list_all isLowerHexDigit h" "length h = length h0"
    using hx by (auto simp: h_def list_all_iff hex_toLower_lower)
  have nth: "isLowerHexDigit (h ! i)" if "i < length h" for i
    using hl(1) that by (simp add: list_all_length)
  show ?thesis
  proof (cases "length h0 = 3")
    case True
    then have "normaliseHex (JStr v) = Inr [CHR ''#'', h ! 0, h ! 0, h ! 1, h ! 1, h ! 2, h ! 2]"
      using hl by (simp add: normaliseHex_def tr h0_def [symmetric] h_def [symmetric] Let_def)
    moreover have "normalHex [CHR ''#'', h ! 0, h ! 0, h ! 1, h ! 1, h ! 2, h ! 2]"
      using nth [of 0] nth [of 1] nth [of 2] True hl(2) by (simp add: normalHex_def)
    ultimately show ?thesis by blast
  next
    case False
    with len have six: "length h0 = 6" by simp
    then have "normaliseHex (JStr v) = Inr (CHR ''#'' # h)"
      using hl by (simp add: normaliseHex_def tr h0_def [symmetric] h_def [symmetric] Let_def)
    moreover have "normalHex (CHR ''#'' # h)" using hl six by (simp add: normalHex_def)
    ultimately show ?thesis by blast
  qed
qed

lemma normalHex_HEX_RE: "normalHex h \<Longrightarrow> HEX_RE h"
  by (auto simp: normalHex_def HEX_RE_def list_all_iff lowerHex_isHex)

lemma hexToRgb_normal: "normalHex h \<Longrightarrow> \<exists>c. hexToRgb h = Some c"
  using hexToRgb_HEX_RE [OF normalHex_HEX_RE] by auto

lemma hexToLchE_normal: "normalHex h \<Longrightarrow> \<exists>l. hexToLchE h = Inr l"
  using hexToRgb_normal [of h] by (auto simp: hexToLchE_def hexToLch_def)

lemma wcagY_normal: "normalHex h \<Longrightarrow> \<exists>y. wcagY h = Inr y"
  using hexToRgb_normal [of h] by (auto simp: wcagY_def normaliseHex_normal)

lemma wcagContrast_normal: "normalHex h1 \<Longrightarrow> normalHex h2 \<Longrightarrow> \<exists>c. wcagContrast h1 h2 = Inr c"
  using wcagY_normal [of h1] wcagY_normal [of h2] by (auto simp: wcagContrast_def)

lemma normalHex_white: "normalHex ''#ffffff''" and normalHex_ink: "normalHex ''#111111''"
  by (simp_all add: normalHex_def isLowerHexDigit_def)

lemma bestTextOn_normal: "normalHex h \<Longrightarrow> \<exists>t. bestTextOn h = Inr t"
  using wcagContrast_normal [OF _ normalHex_white, of h] wcagContrast_normal [OF _ normalHex_ink, of h]
  by (auto simp: bestTextOn_def)

lemma mkRole_normal:
  assumes "normalHex h" "normalHex nl"
  shows "\<exists>ro. mkRole nl rn lb wt h d = Inr ro \<and> hex ro = h \<and> role ro = rn \<and> derived ro = d"
  using hexToLchE_normal [OF assms(1)] bestTextOn_normal [OF assms(1)] wcagContrast_normal [OF assms]
  by (auto simp: mkRole_def)

lemma mkRole_Inr:
  "mkRole nl rn lb wt h d = Inr ro \<Longrightarrow> hex ro = h \<and> role ro = rn \<and> derived ro = d"
  by (auto simp: mkRole_def bindE_eq_Inr)

lemma firstOf_ne: "xs \<noteq> [] \<Longrightarrow> firstOf xs = Inr (hd xs)"
  by (cases xs) (simp_all add: firstOf_def)

lemma firstOf_Inr: "firstOf xs = Inr x \<Longrightarrow> x \<in> set xs"
  by (cases xs) (simp_all add: firstOf_def)

lemma set_sortDesc [simp]: "set (sortDesc k xs) = set xs"
  by (simp add: sortDesc_def)

lemma sortDesc_Nil [simp]: "sortDesc k xs = [] \<longleftrightarrow> xs = []"
  by (metis length_0_conv length_sort sortDesc_def)

lemma sort_key_Nil [simp]: "sort_key k xs = [] \<longleftrightarrow> xs = []"
  by (metis length_0_conv length_sort)

lemma step1_Inr: "step1 cfg px = Inr c \<Longrightarrow> c \<in> set px"
  by (auto simp: step1_def Let_def nearNeutralsOf_def dest!: firstOf_Inr split: if_splits)

lemma step1_ok: "px \<noteq> [] \<Longrightarrow> \<exists>c. step1 cfg px = Inr c"
  by (simp add: step1_def Let_def firstOf_ne)

lemma step2_Inr: "step2 cfg px = Inr c \<Longrightarrow> c \<in> set px"
  by (auto simp: step2_def Let_def dest!: firstOf_Inr split: if_splits)

lemma step2_ok: "px \<noteq> [] \<Longrightarrow> \<exists>c. step2 cfg px = Inr c"
  by (simp add: step2_def Let_def firstOf_ne)

lemma step3_Inr: "step3 cfg px nl mn = Inr nd \<Longrightarrow> snd nd \<or> fst nd \<in> srcHex ` set px"
  by (auto simp: step3_def Let_def nearNeutralsOf_def bindE_eq_Inr dest!: firstOf_Inr split: if_splits)

lemma step4_Inr: "step4 cfg px nl mn = Inr sh \<Longrightarrow> snd sh \<or> fst sh \<in> srcHex ` set px"
  by (auto simp: step4_def Let_def bindE_eq_Inr dest!: firstOf_Inr split: if_splits)

lemma step5_Inr: "step5 cfg px nl mn sx = Inr ac \<Longrightarrow> snd ac \<or> fst ac \<in> srcHex ` set px"
  by (auto simp: step5_def Let_def bindE_eq_Inr dest!: firstOf_Inr split: if_splits)

text \<open>
  Below \<open>10^307\<close> nothing overflows, so on numbers of magnitude at most \<open>10^100\<close>
  the conversion on the numbers of a caller is the conversion on the reals.
\<close>

lemma two1024: "(10 :: real) ^ 305 < 2 ^ 1024"
  by simp

lemma overflow_Num: "\<bar>x\<bar> \<le> 10 ^ 307 \<Longrightarrow> overflow x = Num x"
  using two1024 by (simp add: overflow_def abs_le_iff)

lemma mulN_Num:
  assumes "\<bar>x\<bar> \<le> X" "\<bar>y\<bar> \<le> Y" "X * Y \<le> 10 ^ 307"
  shows "mulN (Num x) (Num y) = Num (x * y) \<and> \<bar>x * y\<bar> \<le> X * Y"
proof -
  have "\<bar>x * y\<bar> \<le> X * Y" unfolding abs_mult using assms(1,2) by (intro mult_mono) simp_all
  with assms(3) show ?thesis by (simp add: overflow_Num)
qed

lemma addN_Num:
  assumes "\<bar>x\<bar> \<le> X" "\<bar>y\<bar> \<le> Y" "X + Y \<le> 10 ^ 307"
  shows "addN (Num x) (Num y) = Num (x + y) \<and> \<bar>x + y\<bar> \<le> X + Y"
proof -
  have "\<bar>x + y\<bar> \<le> X + Y" using assms(1,2) by simp
  with assms(3) show ?thesis by (simp add: overflow_Num)
qed

lemma subN_Num:
  assumes "\<bar>x\<bar> \<le> X" "\<bar>y\<bar> \<le> Y" "X + Y \<le> 10 ^ 307"
  shows "subN (Num x) (Num y) = Num (x - y) \<and> \<bar>x - y\<bar> \<le> X + Y"
proof -
  have "\<bar>x - y\<bar> \<le> X + Y" using assms(1,2) by simp
  with assms(3) show ?thesis by (simp add: subN_def overflow_Num)
qed

lemma lin_add_Num:
  assumes "\<bar>x\<bar> \<le> 10 ^ 100" "\<bar>y\<bar> \<le> 10 ^ 100" "\<bar>z\<bar> \<le> 10 ^ 100" "\<bar>k1\<bar> \<le> 2" "\<bar>k2\<bar> \<le> 2"
  shows "addN (addN (Num x) (mulN (Num k1) (Num y))) (mulN (Num k2) (Num z)) = Num (x + k1 * y + k2 * z)
         \<and> \<bar>x + k1 * y + k2 * z\<bar> \<le> 5 * 10 ^ 100"
proof -
  note p1 = mulN_Num [OF assms(4) assms(2), simplified]
  note p2 = mulN_Num [OF assms(5) assms(3), simplified]
  have b1: "\<bar>k1 * y\<bar> \<le> 2 * 10 ^ 100" and b2: "\<bar>k2 * z\<bar> \<le> 2 * 10 ^ 100" using p1 p2 by simp_all
  note s1 = addN_Num [OF assms(1) b1, simplified]
  have b3: "\<bar>x + k1 * y\<bar> \<le> 3 * 10 ^ 100" using s1 by simp
  note s2 = addN_Num [OF b3 b2, simplified]
  show ?thesis using p1 p2 s1 s2 by simp
qed

lemma lin_sub_Num:
  assumes "\<bar>x\<bar> \<le> 10 ^ 100" "\<bar>y\<bar> \<le> 10 ^ 100" "\<bar>z\<bar> \<le> 10 ^ 100" "\<bar>k1\<bar> \<le> 2" "\<bar>k2\<bar> \<le> 2"
  shows "subN (subN (Num x) (mulN (Num k1) (Num y))) (mulN (Num k2) (Num z)) = Num (x - k1 * y - k2 * z)
         \<and> \<bar>x - k1 * y - k2 * z\<bar> \<le> 5 * 10 ^ 100"
proof -
  note p1 = mulN_Num [OF assms(4) assms(2), simplified]
  note p2 = mulN_Num [OF assms(5) assms(3), simplified]
  have b1: "\<bar>k1 * y\<bar> \<le> 2 * 10 ^ 100" and b2: "\<bar>k2 * z\<bar> \<le> 2 * 10 ^ 100" using p1 p2 by simp_all
  note s1 = subN_Num [OF assms(1) b1, simplified]
  have b3: "\<bar>x - k1 * y\<bar> \<le> 3 * 10 ^ 100" using s1 by simp
  note s2 = subN_Num [OF b3 b2, simplified]
  show ?thesis using p1 p2 s1 s2 by simp
qed

lemma cube_Num:
  assumes "\<bar>x\<bar> \<le> 5 * 10 ^ 100"
  shows "mulN (mulN (Num x) (Num x)) (Num x) = Num (x * x * x) \<and> \<bar>x * x * x\<bar> \<le> 125 * 10 ^ 300"
proof -
  note p1 = mulN_Num [OF assms assms, simplified]
  have b1: "\<bar>x * x\<bar> \<le> 25 * 10 ^ 200" using p1 by simp
  note p2 = mulN_Num [OF b1 assms, simplified]
  show ?thesis using p1 p2 by simp
qed

lemma chan_asa_Num:
  assumes "\<bar>x\<bar> \<le> 125 * 10 ^ 300" "\<bar>y\<bar> \<le> 125 * 10 ^ 300" "\<bar>z\<bar> \<le> 125 * 10 ^ 300"
    "\<bar>k1\<bar> \<le> 5" "\<bar>k2\<bar> \<le> 5" "\<bar>k3\<bar> \<le> 5"
  shows "addN (subN (mulN (Num k1) (Num x)) (mulN (Num k2) (Num y))) (mulN (Num k3) (Num z))
           = Num (k1 * x - k2 * y + k3 * z) \<and> \<bar>k1 * x - k2 * y + k3 * z\<bar> \<le> 10 ^ 304"
proof -
  note p1 = mulN_Num [OF assms(4) assms(1), simplified]
  note p2 = mulN_Num [OF assms(5) assms(2), simplified]
  note p3 = mulN_Num [OF assms(6) assms(3), simplified]
  have b1: "\<bar>k1 * x\<bar> \<le> 625 * 10 ^ 300" and b2: "\<bar>k2 * y\<bar> \<le> 625 * 10 ^ 300"
    and b3: "\<bar>k3 * z\<bar> \<le> 625 * 10 ^ 300" using p1 p2 p3 by simp_all
  note s1 = subN_Num [OF b1 b2, simplified]
  have b4: "\<bar>k1 * x - k2 * y\<bar> \<le> 1250 * 10 ^ 300" using s1 by simp
  note s2 = addN_Num [OF b4 b3, simplified]
  have "\<bar>k1 * x - k2 * y + k3 * z\<bar> \<le> 1875 * 10 ^ 300" using s2 by simp
  then have "\<bar>k1 * x - k2 * y + k3 * z\<bar> \<le> 10 ^ 304" by simp
  then show ?thesis using p1 p2 p3 s1 s2 by simp
qed

lemma chan_aas_Num:
  assumes "\<bar>x\<bar> \<le> 125 * 10 ^ 300" "\<bar>y\<bar> \<le> 125 * 10 ^ 300" "\<bar>z\<bar> \<le> 125 * 10 ^ 300"
    "\<bar>k1\<bar> \<le> 5" "\<bar>k2\<bar> \<le> 5" "\<bar>k3\<bar> \<le> 5"
  shows "subN (addN (mulN (Num k1) (Num x)) (mulN (Num k2) (Num y))) (mulN (Num k3) (Num z))
           = Num (k1 * x + k2 * y - k3 * z) \<and> \<bar>k1 * x + k2 * y - k3 * z\<bar> \<le> 10 ^ 304"
proof -
  note p1 = mulN_Num [OF assms(4) assms(1), simplified]
  note p2 = mulN_Num [OF assms(5) assms(2), simplified]
  note p3 = mulN_Num [OF assms(6) assms(3), simplified]
  have b1: "\<bar>k1 * x\<bar> \<le> 625 * 10 ^ 300" and b2: "\<bar>k2 * y\<bar> \<le> 625 * 10 ^ 300"
    and b3: "\<bar>k3 * z\<bar> \<le> 625 * 10 ^ 300" using p1 p2 p3 by simp_all
  note s1 = addN_Num [OF b1 b2, simplified]
  have b4: "\<bar>k1 * x + k2 * y\<bar> \<le> 1250 * 10 ^ 300" using s1 by simp
  note s2 = subN_Num [OF b4 b3, simplified]
  have "\<bar>k1 * x + k2 * y - k3 * z\<bar> \<le> 1875 * 10 ^ 300" using s2 by simp
  then have "\<bar>k1 * x + k2 * y - k3 * z\<bar> \<le> 10 ^ 304" by simp
  then show ?thesis using p1 p2 p3 s1 s2 by simp
qed

lemma powr_le_add1:
  fixes x :: real
  assumes "0 \<le> x" "0 \<le> p" "p \<le> 1"
  shows "x powr p \<le> 1 + x"
proof (cases "x \<le> 1")
  case True
  then have "x powr p \<le> 1" using assms by (intro powr_le1) simp_all
  then show ?thesis using assms(1) by simp
next
  case False
  then have "x powr p \<le> x powr 1" using assms by (intro powr_mono) simp_all
  then show ?thesis using False by simp
qed

lemma delinN_Num:
  assumes "\<bar>x\<bar> \<le> 10 ^ 304"
  shows "delinN (Num x) = Num (delinearize x)"
proof (cases "x \<le> 0.0031308")
  case True
  have k: "\<bar>12.92 :: real\<bar> \<le> 13" by simp
  from mulN_Num [OF k assms] have "mulN (Num 12.92) (Num x) = Num (12.92 * x)" by simp
  then show ?thesis using True by (simp add: delinN_def delinearize_def)
next
  case False
  then have pos: "0 \<le> x" by simp
  have pw: "0 \<le> x powr (1 / 2.4)" "x powr (1 / 2.4) \<le> 1 + x"
    using pos by (simp_all add: powr_le_add1)
  have pb: "\<bar>x powr (1 / 2.4)\<bar> \<le> 2 * 10 ^ 304" using pw assms by simp
  then have "\<bar>x powr (1 / 2.4)\<bar> \<le> 10 ^ 307" by simp
  then have e1: "powN (Num x) (1 / 2.4) = Num (x powr (1 / 2.4))"
    using pos by (simp add: overflow_Num)
  have k: "\<bar>1.055 :: real\<bar> \<le> 2" by simp
  from mulN_Num [OF k pb] have e2: "mulN (Num 1.055) (Num (x powr (1 / 2.4))) = Num (1.055 * x powr (1 / 2.4))"
    and b2: "\<bar>1.055 * x powr (1 / 2.4)\<bar> \<le> 4 * 10 ^ 304" by simp_all
  have c: "\<bar>0.055 :: real\<bar> \<le> 1" by simp
  from subN_Num [OF b2 c] have e3: "subN (Num (1.055 * x powr (1 / 2.4))) (Num 0.055)
      = Num (1.055 * x powr (1 / 2.4) - 0.055)" by simp
  show ?thesis using False unfolding delinN_def delinearize_def by (simp only: leqN.simps if_False e1 e2 e3)
qed

lemma clampN_Num: "clampN (Num x) = Num (clamp01 x)"
  by (simp add: clampN_def clamp01_def max_def min_def)

lemma hexByteN_Num: "hexByteN (Num x) = hexByteClamped x"
  by (simp add: hexByteN_def clampN_Num hexByteClamped_def)

lemma oklabToRgbN_Num:
  assumes "\<bar>x\<bar> \<le> 10 ^ 100" "\<bar>y\<bar> \<le> 10 ^ 100" "\<bar>z\<bar> \<le> 10 ^ 100"
  shows "oklabToRgbN (Num x) (Num y) (Num z) =
     (let c = oklabToRgb \<lparr> labL = x, laba = y, labb = z \<rparr> in (Num (r c), Num (g c), Num (b c)))"
proof -
  define l where "l = x + 0.3963377774 * y + 0.2158037573 * z"
  define m where "m = x - 0.1055613458 * y - 0.0638541728 * z"
  define s where "s = x - 0.0894841775 * y - 1.291485548 * z"
  have k: "\<bar>0.3963377774 :: real\<bar> \<le> 2" "\<bar>0.2158037573 :: real\<bar> \<le> 2" "\<bar>0.1055613458 :: real\<bar> \<le> 2"
    "\<bar>0.0638541728 :: real\<bar> \<le> 2" "\<bar>0.0894841775 :: real\<bar> \<le> 2" "\<bar>1.291485548 :: real\<bar> \<le> 2"
    by simp_all
  note el = lin_add_Num [OF assms k(1) k(2), folded l_def]
  note em = lin_sub_Num [OF assms k(3) k(4), folded m_def]
  note es = lin_sub_Num [OF assms k(5) k(6), folded s_def]
  note cl = cube_Num [OF conjunct2 [OF el]]
  note cm = cube_Num [OF conjunct2 [OF em]]
  note cs = cube_Num [OF conjunct2 [OF es]]
  have c: "\<bar>4.0767416621 :: real\<bar> \<le> 5" "\<bar>3.3077115913 :: real\<bar> \<le> 5" "\<bar>0.2309699292 :: real\<bar> \<le> 5"
    "\<bar>- 1.2684380046 :: real\<bar> \<le> 5" "\<bar>2.6097574011 :: real\<bar> \<le> 5" "\<bar>0.3413193965 :: real\<bar> \<le> 5"
    "\<bar>- 0.0041960863 :: real\<bar> \<le> 5" "\<bar>0.7034186147 :: real\<bar> \<le> 5" "\<bar>1.707614701 :: real\<bar> \<le> 5"
    by simp_all
  note rr = chan_asa_Num [OF conjunct2 [OF cl] conjunct2 [OF cm] conjunct2 [OF cs] c(1) c(2) c(3)]
  note gg = chan_aas_Num [OF conjunct2 [OF cl] conjunct2 [OF cm] conjunct2 [OF cs] c(4) c(5) c(6)]
  note bb = chan_asa_Num [OF conjunct2 [OF cl] conjunct2 [OF cm] conjunct2 [OF cs] c(7) c(8) c(9)]
  note dr = delinN_Num [OF conjunct2 [OF rr]]
  note dg = delinN_Num [OF conjunct2 [OF gg]]
  note db = delinN_Num [OF conjunct2 [OF bb]]
  have "oklabToRgbN (Num x) (Num y) (Num z) =
      (Num (clamp01 (delinearize (4.0767416621 * (l * l * l) - 3.3077115913 * (m * m * m) + 0.2309699292 * (s * s * s)))),
       Num (clamp01 (delinearize (- 1.2684380046 * (l * l * l) + 2.6097574011 * (m * m * m) - 0.3413193965 * (s * s * s)))),
       Num (clamp01 (delinearize (- 0.0041960863 * (l * l * l) - 0.7034186147 * (m * m * m) + 1.707614701 * (s * s * s)))))"
    unfolding oklabToRgbN_def Let_def
    by (simp only: conjunct1 [OF el] conjunct1 [OF em] conjunct1 [OF es]
        conjunct1 [OF cl] conjunct1 [OF cm] conjunct1 [OF cs]
        conjunct1 [OF rr] conjunct1 [OF gg] conjunct1 [OF bb] dr dg db clampN_Num)
  also have "\<dots> = (let c = oklabToRgb \<lparr> labL = x, laba = y, labb = z \<rparr> in (Num (r c), Num (g c), Num (b c)))"
    by (simp add: oklabToRgb_def oklabToRgbRaw_def Let_def l_def m_def s_def)
  finally show ?thesis .
qed

lemma lchToHex3_Num:
  assumes "\<bar>l\<bar> \<le> 10 ^ 100" "\<bar>c\<bar> \<le> 10 ^ 100"
  shows "lchToHex3 (Num l) (Num c) h = rgbToHex (oklabToRgb (oklchToOklab \<lparr> lchL = l, lchC = c, lchH = h \<rparr>))"
proof -
  have one: "\<bar>cos (h * pi / 180)\<bar> \<le> 1" "\<bar>sin (h * pi / 180)\<bar> \<le> 1" by simp_all
  from mulN_Num [OF assms(2) one(1)] have ea: "mulN (Num c) (Num (cos (h * pi / 180))) = Num (c * cos (h * pi / 180))"
    and ba: "\<bar>c * cos (h * pi / 180)\<bar> \<le> 10 ^ 100" by simp_all
  from mulN_Num [OF assms(2) one(2)] have eb: "mulN (Num c) (Num (sin (h * pi / 180))) = Num (c * sin (h * pi / 180))"
    and bb: "\<bar>c * sin (h * pi / 180)\<bar> \<le> 10 ^ 100" by simp_all
  show ?thesis
    unfolding lchToHex3_def Let_def ea eb oklabToRgbN_Num [OF assms(1) ba bb]
    by (simp add: hexByteN_Num rgbToHex_def oklchToOklab_def)
qed

lemma normalHex_lchToHex3:
  "\<bar>l\<bar> \<le> 10 ^ 100 \<Longrightarrow> \<bar>c\<bar> \<le> 10 ^ 100 \<Longrightarrow> normalHex (lchToHex3 (Num l) (Num c) h)"
  by (simp add: lchToHex3_Num normalHex_rgbToHex)

text \<open>
  A colour read from a hex string has its channels in \<open>[0, 1]\<close>, so its lightness and
  chroma are small.
\<close>

lemma hexDigitVal_le: "hexDigitVal c = Some d \<Longrightarrow> d \<le> 15"
  by (auto simp: hexDigitVal_def Let_def split: if_splits)

lemma digitOr0_le: "(case hexDigitVal c of Some d \<Rightarrow> d | None \<Rightarrow> 0) \<le> 15"
  using hexDigitVal_le [of c] by (cases "hexDigitVal c") simp_all

lemma parseInt16_le:
  assumes "length s \<le> 2" "parseInt16 s = Some n"
  shows "n \<le> 255"
proof -
  define ds where "ds = takeWhile isHexDigit s"
  have len: "length ds \<le> 2"
    using assms(1) length_takeWhile_le [of isHexDigit s] by (simp add: ds_def)
  from assms(2) have n: "n = foldl (\<lambda>acc c. 16 * acc + (case hexDigitVal c of Some d \<Rightarrow> d | None \<Rightarrow> 0)) 0 ds"
    by (simp add: parseInt16_def ds_def [symmetric] Let_def split: if_splits)
  show ?thesis
  proof (cases ds)
    case Nil
    then show ?thesis using n by simp
  next
    case (Cons x xs)
    show ?thesis
    proof (cases xs)
      case Nil
      then show ?thesis using n Cons digitOr0_le [of x] by simp
    next
      case (Cons y ys)
      with len \<open>ds = x # xs\<close> have "ys = []" by simp
      then show ?thesis using n Cons \<open>ds = x # xs\<close> digitOr0_le [of x] digitOr0_le [of y] by simp
    qed
  qed
qed

lemma hexToRgb_unit:
  assumes "hexToRgb h = Some c"
  shows "0 \<le> r c \<and> r c \<le> 1 \<and> 0 \<le> g c \<and> g c \<le> 1 \<and> 0 \<le> b c \<and> b c \<le> 1"
proof -
  from assms obtain rr gg bb where p: "parseInt16 (sliceStr 1 3 h) = Some rr"
    "parseInt16 (sliceStr 3 5 h) = Some gg" "parseInt16 (sliceStr 5 7 h) = Some bb"
    and c: "c = \<lparr> r = real rr / 255, g = real gg / 255, b = real bb / 255 \<rparr>"
    by (auto simp: hexToRgb_def split: option.splits)
  have "rr \<le> 255" "gg \<le> 255" "bb \<le> 255"
    using p by (auto intro!: parseInt16_le simp: sliceStr_def)
  then show ?thesis by (simp add: c)
qed

lemma linearize_unit:
  assumes "0 \<le> x" "x \<le> 1"
  shows "0 \<le> linearize x \<and> linearize x \<le> 1"
proof (cases "x \<le> 0.04045")
  case True
  then show ?thesis using assms by (simp add: linearize_def)
next
  case False
  have "((x + 0.055) / 1.055) powr 2.4 \<le> 1" using assms by (intro powr_le1) simp_all
  then show ?thesis using False by (simp add: linearize_def)
qed

lemma cbrt_unit:
  assumes "0 \<le> x" "x \<le> 1.01"
  shows "0 \<le> cbrt x \<and> cbrt x \<le> 1.01"
proof -
  have "cbrt (0 * 0 * 0) \<le> cbrt x" using assms(1) by (intro cbrt_mono) simp
  then have lo: "0 \<le> cbrt x" by (simp only: cbrt_cube)
  have "cbrt x \<le> cbrt (1.01 * 1.01 * 1.01)" using assms(2) by (intro cbrt_mono) simp
  then have "cbrt x \<le> 1.01" by (simp only: cbrt_cube)
  with lo show ?thesis by simp
qed

lemma rgbToOklab_bounds:
  assumes "0 \<le> r c \<and> r c \<le> 1 \<and> 0 \<le> g c \<and> g c \<le> 1 \<and> 0 \<le> b c \<and> b c \<le> 1"
  shows "\<bar>labL (rgbToOklab c)\<bar> \<le> 2 \<and> \<bar>laba (rgbToOklab c)\<bar> \<le> 5 \<and> \<bar>labb (rgbToOklab c)\<bar> \<le> 2"
proof -
  define lr where "lr = linearize (r c)"
  define lg where "lg = linearize (g c)"
  define lb where "lb = linearize (b c)"
  have u: "0 \<le> lr" "lr \<le> 1" "0 \<le> lg" "lg \<le> 1" "0 \<le> lb" "lb \<le> 1"
    using assms linearize_unit [of "r c"] linearize_unit [of "g c"] linearize_unit [of "b c"]
    by (simp_all add: lr_def lg_def lb_def)
  define l where "l = cbrt (0.4122214708 * lr + 0.5363325363 * lg + 0.0514459929 * lb)"
  define m where "m = cbrt (0.2119034982 * lr + 0.6806995451 * lg + 0.1073969566 * lb)"
  define s where "s = cbrt (0.0883024619 * lr + 0.2817188376 * lg + 0.6299787005 * lb)"
  have l: "0 \<le> l \<and> l \<le> 1.01" unfolding l_def using u by (intro cbrt_unit) simp_all
  have m: "0 \<le> m \<and> m \<le> 1.01" unfolding m_def using u by (intro cbrt_unit) simp_all
  have s: "0 \<le> s \<and> s \<le> 1.01" unfolding s_def using u by (intro cbrt_unit) simp_all
  have e: "rgbToOklab c = \<lparr> labL = 0.2104542553 * l + 0.793617785 * m - 0.0040720468 * s,
      laba = 1.9779984951 * l - 2.428592205 * m + 0.4505937099 * s,
      labb = 0.0259040371 * l + 0.7827717662 * m - 0.808675766 * s \<rparr>"
    by (simp add: rgbToOklab_def Let_def l_def m_def s_def lr_def lg_def lb_def)
  show ?thesis unfolding e using l m s by (simp add: abs_le_iff)
qed

lemma hexToLch_bounds:
  assumes "hexToLch h = Some c"
  shows "\<bar>lchL c\<bar> \<le> 2 \<and> 0 \<le> lchC c \<and> lchC c \<le> 7"
proof -
  from assms obtain rgb where rgb: "hexToRgb h = Some rgb" and c: "c = oklabToOklch (rgbToOklab rgb)"
    by (auto simp: hexToLch_def)
  note bd = rgbToOklab_bounds [OF hexToRgb_unit [OF rgb]]
  have "sqrt ((laba (rgbToOklab rgb))\<^sup>2 + (labb (rgbToOklab rgb))\<^sup>2)
      \<le> \<bar>laba (rgbToOklab rgb)\<bar> + \<bar>labb (rgbToOklab rgb)\<bar>"
    by (rule sqrt_sum_squares_le_sum_abs)
  then have "lchC c \<le> 7" using bd by (simp add: c oklabToOklch_def power2_eq_square)
  moreover have "0 \<le> lchC c" by (simp add: c oklabToOklch_def)
  ultimately show ?thesis using bd by (simp add: c oklabToOklch_def)
qed

lemma step3_ok:
  assumes "\<forall>c\<in>set px. normalHex (srcHex c)"
    and "smallNum (cfgDerivedDarkL cfg)" "smallNum (cfgDerivedDarkC cfg)"
  shows "\<exists>nd. step3 cfg px nl mn = Inr nd \<and> normalHex (fst nd)"
proof (cases "filter (\<lambda>c. lchL (srcLch c) < 0.35 \<and> srcHex c \<noteq> srcHex nl) (nearNeutralsOf cfg px) = []")
  case True
  from assms(2) obtain l where l: "cfgDerivedDarkL cfg = Num l" "\<bar>l\<bar> \<le> 10 ^ 100"
    by (cases "cfgDerivedDarkL cfg") simp_all
  from assms(3) obtain c where c: "cfgDerivedDarkC cfg = Num c" "\<bar>c\<bar> \<le> 10 ^ 100"
    by (cases "cfgDerivedDarkC cfg") simp_all
  show ?thesis
    using True normalHex_lchToHex3 [OF l(2) c(2)] by (simp add: step3_def Let_def l(1) c(1))
next
  case False
  let ?d = "filter (\<lambda>c. lchL (srcLch c) < 0.35 \<and> srcHex c \<noteq> srcHex nl) (nearNeutralsOf cfg px)"
  have ne: "sort_key byL ?d \<noteq> []" using False by simp
  have "hd (sort_key byL ?d) \<in> set (sort_key byL ?d)" using ne by (rule hd_in_set)
  then have "hd (sort_key byL ?d) \<in> set px" by (auto simp: nearNeutralsOf_def)
  then have "normalHex (srcHex (hd (sort_key byL ?d)))" using assms(1) by blast
  then show ?thesis using False by (simp add: step3_def Let_def firstOf_ne)
qed

lemma pick_normal:
  assumes "\<forall>c\<in>set px. normalHex (srcHex c)" "set xs \<subseteq> set px" "xs \<noteq> []"
  shows "\<exists>c. firstOf (sortDesc k xs) = Inr c \<and> normalHex (srcHex c)"
proof -
  have ne: "sortDesc k xs \<noteq> []" using assms(3) by simp
  have "hd (sortDesc k xs) \<in> set (sortDesc k xs)" using ne by (rule hd_in_set)
  then have "hd (sortDesc k xs) \<in> set px" using assms(2) by auto
  then show ?thesis using assms(1) ne by (auto simp: firstOf_ne)
qed

lemma step4_ok:
  assumes "\<forall>c\<in>set px. normalHex (srcHex c)"
    and "\<bar>lchL (srcLch mn)\<bar> \<le> 2" "\<bar>lchC (srcLch mn)\<bar> \<le> 7"
  shows "\<exists>sh. step4 cfg px nl mn = Inr sh \<and> normalHex (fst sh)"
proof -
  let ?rem = "filter (\<lambda>c. srcHex c \<notin> set [srcHex nl, srcHex mn]) px"
  let ?same = "filter (\<lambda>c. lessN (Num (hueDist (lchH (srcLch c)) (lchH (srcLch mn)))) (cfgShadeHueTolerance cfg)
                            \<and> lchC (srcLch c) > 0.1) ?rem"
  show ?thesis
  proof (cases "?rem = []")
    case True
    have "\<bar>max 0.05 (lchL (srcLch mn) - 0.08)\<bar> \<le> 10 ^ 100" "\<bar>lchC (srcLch mn) * 0.92\<bar> \<le> 10 ^ 100"
      using assms(2,3) by simp_all
    from normalHex_lchToHex3 [OF this] True show ?thesis by (simp add: step4_def Let_def)
  next
    case False
    let ?xs = "if length ?same > 0 then ?same else ?rem"
    have "set ?xs \<subseteq> set px" "?xs \<noteq> []" using False by auto
    from pick_normal [OF assms(1) this, of byC] obtain c
      where c: "firstOf (sortDesc byC ?xs) = Inr c" "normalHex (srcHex c)" by blast
    have pos: "length ?rem > 0" using False by simp
    have "step4 cfg px nl mn = bindE (firstOf (sortDesc byC ?xs)) (\<lambda>c. Inr (srcHex c, False))"
      unfolding step4_def Let_def using pos by (simp only: if_True)
    also have "\<dots> = Inr (srcHex c, False)" by (simp only: c bindE_Inr)
    finally show ?thesis using c(2) by simp
  qed
qed

lemma step5_ok:
  assumes "\<forall>c\<in>set px. normalHex (srcHex c)"
    and "\<bar>lchC (srcLch mn)\<bar> \<le> 7"
  shows "\<exists>ac. step5 cfg px nl mn sx = Inr ac \<and> normalHex (fst ac)"
proof -
  let ?rem = "filter (\<lambda>c. srcHex c \<notin> set [srcHex nl, srcHex mn, sx]) px"
  let ?far = "filter (\<lambda>c. leqN (cfgAccentHueMin cfg) (Num (hueDist (lchH (srcLch c)) (lchH (srcLch mn))))) ?rem"
  show ?thesis
  proof (cases "?rem = []")
    case True
    have "\<bar>0.72 :: real\<bar> \<le> 10 ^ 100" "\<bar>min (lchC (srcLch mn)) 0.18\<bar> \<le> 10 ^ 100"
      using assms(2) by simp_all
    from normalHex_lchToHex3 [OF this] True show ?thesis by (simp add: step5_def Let_def)
  next
    case False
    let ?xs = "if length ?far > 0 then ?far else ?rem"
    have "set ?xs \<subseteq> set px" "?xs \<noteq> []" using False by auto
    from pick_normal [OF assms(1) this, of byC] obtain c
      where c: "firstOf (sortDesc byC ?xs) = Inr c" "normalHex (srcHex c)" by blast
    have pos: "length ?rem > 0" using False by simp
    have "step5 cfg px nl mn sx = bindE (firstOf (sortDesc byC ?xs)) (\<lambda>c. Inr (srcHex c, False))"
      unfolding step5_def Let_def using pos by (simp only: if_True)
    also have "\<dots> = Inr (srcHex c, False)" by (simp only: c bindE_Inr)
    finally show ?thesis using c(2) by simp
  qed
qed

lemma assemble_ok:
  assumes "normalHex (srcHex nl)" "normalHex (srcHex mn)" "normalHex (fst nd)" "normalHex (fst sh)"
    "normalHex (fst ac)"
  shows "\<exists>res. assemble nl mn nd sh ac = Inr res \<and>
     role (neutralLight res) = ''neutralLight'' \<and> role (neutralDark res) = ''neutralDark'' \<and>
     role (mainColor res) = ''mainColor'' \<and> role (mainColorShade res) = ''mainColorShade'' \<and>
     role (accentColor res) = ''accentColor''"
proof -
  from mkRole_normal [OF assms(1) assms(1)] obtain r1 where
    r1: "mkRole (srcHex nl) ''neutralLight'' ''Neutral Light'' ''60%'' (srcHex nl) False = Inr r1"
      "role r1 = ''neutralLight''" by blast
  from mkRole_normal [OF assms(3) assms(1)] obtain r2 where
    r2: "mkRole (srcHex nl) ''neutralDark'' ''Neutral Dark'' emDash (fst nd) (snd nd) = Inr r2"
      "role r2 = ''neutralDark''" by blast
  from mkRole_normal [OF assms(2) assms(1)] obtain r3 where
    r3: "mkRole (srcHex nl) ''mainColor'' ''Main Color'' ''30%'' (srcHex mn) False = Inr r3"
      "role r3 = ''mainColor''" by blast
  from mkRole_normal [OF assms(4) assms(1)] obtain r4 where
    r4: "mkRole (srcHex nl) ''mainColorShade'' ''Main Color Shade'' emDash (fst sh) (snd sh) = Inr r4"
      "role r4 = ''mainColorShade''" by blast
  from mkRole_normal [OF assms(5) assms(1)] obtain r5 where
    r5: "mkRole (srcHex nl) ''accentColor'' ''Accent Color'' ''10%'' (fst ac) (snd ac) = Inr r5"
      "role r5 = ''accentColor''" by blast
  show ?thesis by (simp add: assemble_def r1 r2 r3 r4 r5)
qed

lemma assemble_Inr:
  assumes "assemble nl mn nd sh ac = Inr res"
  shows "hex (neutralLight res) = srcHex nl \<and> \<not> derived (neutralLight res) \<and>
         hex (neutralDark res) = fst nd \<and> derived (neutralDark res) = snd nd \<and>
         hex (mainColor res) = srcHex mn \<and> \<not> derived (mainColor res) \<and>
         hex (mainColorShade res) = fst sh \<and> derived (mainColorShade res) = snd sh \<and>
         hex (accentColor res) = fst ac \<and> derived (accentColor res) = snd ac"
  using assms by (auto simp: assemble_def bindE_eq_Inr dest!: mkRole_Inr)

lemma mapE_Inr:
  "mapE f xs = Inr ys \<Longrightarrow> length ys = length xs \<and> (\<forall>y\<in>set ys. \<exists>x\<in>set xs. f x = Inr y)"
proof (induction xs arbitrary: ys)
  case Nil
  then show ?case by simp
next
  case (Cons x xs)
  from Cons.prems obtain y ys' where "f x = Inr y" "mapE f xs = Inr ys'" "ys = y # ys'"
    by (auto simp: bindE_eq_Inr)
  with Cons.IH [of ys'] show ?case by auto
qed

lemma mapE_ok:
  "(\<And>x. x \<in> set xs \<Longrightarrow> \<exists>y. f x = Inr y) \<Longrightarrow> \<exists>ys. mapE f xs = Inr ys"
proof (induction xs)
  case Nil
  show ?case by simp
next
  case (Cons x xs)
  from Cons.prems [of x] obtain y where "f x = Inr y" by auto
  moreover from Cons obtain ys where "mapE f xs = Inr ys" by auto
  ultimately show ?case by simp
qed

lemma toInternal_Inr: "toInternal raw = Inr c \<Longrightarrow> normaliseHex raw = Inr (srcHex c)"
  by (auto simp: toInternal_def bindE_eq_Inr)

lemma toInternal_lch: "toInternal raw = Inr c \<Longrightarrow> hexToLch (srcHex c) = Some (srcLch c)"
  by (auto simp: toInternal_def bindE_eq_Inr hexToLchE_def split: option.splits)

lemma mkCfg_small:
  assumes "boundedDark opts"
  shows "smallNum (cfgDerivedDarkL (mkCfg opts))" "smallNum (cfgDerivedDarkC (mkCfg opts))"
  using assms by (auto simp: boundedDark_def mkCfg_def orDefault_def split: option.splits)

lemma toInternal_valid: "validHex v \<Longrightarrow> \<exists>c. toInternal (JStr v) = Inr c \<and> normalHex (srcHex c)"
proof -
  assume "validHex v"
  from normaliseHex_valid [OF this] obtain h where h: "normaliseHex (JStr v) = Inr h" "normalHex h"
    by blast
  from hexToLchE_normal [OF h(2)] obtain l where "hexToLchE h = Inr l" by blast
  with h show ?thesis by (simp add: toInternal_def)
qed

lemma select_ok:
  assumes "palette \<noteq> []" "list_all validHex palette" "boundedDark opts"
  shows "\<exists>res. select60_30_10 (JArr (map JStr palette)) opts = Inr res \<and>
     role (neutralLight res) = ''neutralLight'' \<and> role (neutralDark res) = ''neutralDark'' \<and>
     role (mainColor res) = ''mainColor'' \<and> role (mainColorShade res) = ''mainColorShade'' \<and>
     role (accentColor res) = ''accentColor''"
proof -
  define cfg where "cfg = mkCfg opts"
  obtain p ps where pp: "map JStr palette = p # ps" using assms(1) by (cases palette) auto
  have "\<And>x. x \<in> set (map JStr palette) \<Longrightarrow> \<exists>c. toInternal x = Inr c"
    using assms(2) toInternal_valid by (auto simp: list_all_iff)
  from mapE_ok [of "map JStr palette" toInternal, OF this] obtain px where px: "mapE toInternal (map JStr palette) = Inr px" by blast
  from mapE_Inr [OF px] have len: "length px = length palette"
    and src: "\<forall>c\<in>set px. \<exists>x\<in>set (map JStr palette). toInternal x = Inr c" by auto
  have ne: "px \<noteq> []" using len assms(1) by auto
  have normal: "\<forall>c\<in>set px. normalHex (srcHex c)"
  proof
    fix c assume "c \<in> set px"
    with src obtain v where v: "v \<in> set palette" "toInternal (JStr v) = Inr c" by auto
    from v(1) assms(2) have "validHex v" by (simp add: list_all_iff)
    from toInternal_valid [OF this] v(2) show "normalHex (srcHex c)" by auto
  qed
  have lch: "\<forall>c\<in>set px. hexToLch (srcHex c) = Some (srcLch c)"
    using src toInternal_lch by blast
  from step1_ok [OF ne] obtain nl where nl: "step1 cfg px = Inr nl" by blast
  from step2_ok [OF ne] obtain mn where mn: "step2 cfg px = Inr mn" by blast
  have nln: "normalHex (srcHex nl)" and mnn: "normalHex (srcHex mn)"
    using step1_Inr [OF nl] step2_Inr [OF mn] normal by auto
  have "hexToLch (srcHex mn) = Some (srcLch mn)" using step2_Inr [OF mn] lch by blast
  from hexToLch_bounds [OF this] have bl: "\<bar>lchL (srcLch mn)\<bar> \<le> 2" and bc: "\<bar>lchC (srcLch mn)\<bar> \<le> 7"
    by simp_all
  from step3_ok [OF normal mkCfg_small [OF assms(3), folded cfg_def]]
  obtain nd where nd: "step3 cfg px nl mn = Inr nd" "normalHex (fst nd)" by blast
  from step4_ok [OF normal bl bc] obtain sh where sh: "step4 cfg px nl mn = Inr sh" "normalHex (fst sh)"
    by blast
  from step5_ok [OF normal bc] obtain ac where ac: "step5 cfg px nl mn (fst sh) = Inr ac" "normalHex (fst ac)"
    by blast
  have "select60_30_10 (JArr (map JStr palette)) opts = assemble nl mn nd sh ac"
    unfolding pp select60_30_10_def
    by (simp add: Let_def cfg_def [symmetric] px [unfolded pp] nl mn nd sh ac del: mapE.simps)
  with assemble_ok [OF nln mnn nd(2) sh(2) ac(2)] show ?thesis by simp
qed

lemma select_Inr:
  assumes "select60_30_10 (JArr (map JStr palette)) opts = Inr res"
  shows "\<exists>px nl mn nd sh ac cfg.
     mapE toInternal (map JStr palette) = Inr px \<and> step1 cfg px = Inr nl \<and> step2 cfg px = Inr mn \<and>
     step3 cfg px nl mn = Inr nd \<and> step4 cfg px nl mn = Inr sh \<and>
     step5 cfg px nl mn (fst sh) = Inr ac \<and> assemble nl mn nd sh ac = Inr res"
proof (cases "map JStr palette")
  case Nil
  with assms show ?thesis by (simp add: select60_30_10_def)
next
  case (Cons p ps)
  with assms show ?thesis
    by (simp add: select60_30_10_def Let_def bindE_eq_Inr) blast
qed

lemma validHex_short: "validHex ''#000''"
  by (simp add: validHex_def stripHash_def isHexDigit_def hexDigitVal_def)

lemma normaliseHex_short: "normaliseHex (JStr ''#000'') = Inr ''#000000''"
  by (simp add: normaliseHex_def trim_def isSpace_def stripHash_def toLowerChar_def isLowerHexDigit_def)

lemma select_not_array:
  "(\<And>p ps. palette \<noteq> JArr (p # ps)) \<Longrightarrow>
   select60_30_10 palette opts = Inl (TypeError ''palette must be a non-empty array of hex color strings'')"
  by (auto simp: select60_30_10_def split: jsval.splits list.splits)

lemma normaliseHex_not_string:
  "typeof raw \<noteq> ''string'' \<Longrightarrow> \<not> hasBigInt raw \<Longrightarrow>
   normaliseHex raw = Inl (TypeError (''Color must be a string, got '' @ typeof raw @ '': '' @ jsonText raw))"
  by (cases raw) (simp_all add: normaliseHex_def jsonStringify_def)

lemma normaliseHex_bad_string:
  "normaliseHex (JStr v) = Inl e \<Longrightarrow>
   e = RangeError (''Invalid hex color: '' @ [CHR 0x22] @ v @ [CHR 0x22] @ '' '' @ emDash
                   @ '' expected '' @ [CHR 0x22] @ ''#rgb'' @ [CHR 0x22] @ '' or ''
                   @ [CHR 0x22] @ ''#rrggbb'' @ [CHR 0x22])"
  by (auto simp: normaliseHex_def Let_def split: if_splits)

lemma cube_overflow:
  assumes "10 ^ 149 \<le> x"
  shows "overflow (x * x * x) = PosInfinity"
proof -
  have x0: "0 \<le> x" using assms by (rule order_trans [rotated]) simp
  have "(10 ^ 149 :: real) * 10 ^ 149 \<le> x * x" using assms by (intro mult_mono) simp_all
  then have "(10 ^ 149 :: real) * 10 ^ 149 * 10 ^ 149 \<le> x * x * x"
    using assms by (intro mult_mono) simp_all
  moreover have "(2 :: real) ^ 1024 \<le> 10 ^ 149 * 10 ^ 149 * 10 ^ 149" by simp
  ultimately have "2 ^ 1024 \<le> x * x * x" by (rule order_trans [rotated])
  then show ?thesis by (simp add: overflow_def)
qed

lemma big_cube:
  assumes "10 ^ 149 \<le> x" "x \<le> 2 * 10 ^ 150"
  shows "mulN (mulN (Num x) (Num x)) (Num x) = PosInfinity"
proof -
  have a: "\<bar>x\<bar> \<le> 2 * 10 ^ 150"
    using assms by (simp add: abs_le_iff)
  from mulN_Num [OF a a] have "mulN (Num x) (Num x) = Num (x * x)" by simp
  then show ?thesis using cube_overflow [OF assms(1)] by simp
qed

lemma big_lin_add:
  assumes "\<bar>y\<bar> \<le> 1" "\<bar>z\<bar> \<le> 1" "\<bar>k1\<bar> \<le> 2" "\<bar>k2\<bar> \<le> 2"
  shows "\<exists>v. addN (addN (Num (10 ^ 150)) (mulN (Num k1) (Num y))) (mulN (Num k2) (Num z)) = Num v
             \<and> 10 ^ 149 \<le> v \<and> v \<le> 2 * 10 ^ 150"
proof -
  note p1 = mulN_Num [OF assms(3) assms(1), simplified]
  note p2 = mulN_Num [OF assms(4) assms(2), simplified]
  have b1: "\<bar>k1 * y\<bar> \<le> 2" and b2: "\<bar>k2 * z\<bar> \<le> 2" using p1 p2 by simp_all
  have b0: "\<bar>10 ^ 150 :: real\<bar> \<le> 10 ^ 150" by simp
  note s1 = addN_Num [OF b0 b1, simplified]
  have b3: "\<bar>10 ^ 150 + k1 * y\<bar> \<le> 10 ^ 150 + 2" using s1 by simp
  note s2 = addN_Num [OF b3 b2, simplified]
  have e: "addN (addN (Num (10 ^ 150)) (mulN (Num k1) (Num y))) (mulN (Num k2) (Num z))
      = Num (10 ^ 150 + k1 * y + k2 * z)" using p1 p2 s1 s2 by simp
  have "10 ^ 149 \<le> 10 ^ 150 + k1 * y + k2 * z" "10 ^ 150 + k1 * y + k2 * z \<le> 2 * 10 ^ 150"
    using b1 b2 by (simp_all add: abs_le_iff)
  with e show ?thesis by blast
qed

lemma big_lin_sub:
  assumes "\<bar>y\<bar> \<le> 1" "\<bar>z\<bar> \<le> 1" "\<bar>k1\<bar> \<le> 2" "\<bar>k2\<bar> \<le> 2"
  shows "\<exists>v. subN (subN (Num (10 ^ 150)) (mulN (Num k1) (Num y))) (mulN (Num k2) (Num z)) = Num v
             \<and> 10 ^ 149 \<le> v \<and> v \<le> 2 * 10 ^ 150"
proof -
  note p1 = mulN_Num [OF assms(3) assms(1), simplified]
  note p2 = mulN_Num [OF assms(4) assms(2), simplified]
  have b1: "\<bar>k1 * y\<bar> \<le> 2" and b2: "\<bar>k2 * z\<bar> \<le> 2" using p1 p2 by simp_all
  have b0: "\<bar>10 ^ 150 :: real\<bar> \<le> 10 ^ 150" by simp
  note s1 = subN_Num [OF b0 b1, simplified]
  have b3: "\<bar>10 ^ 150 - k1 * y\<bar> \<le> 10 ^ 150 + 2" using s1 by simp
  note s2 = subN_Num [OF b3 b2, simplified]
  have e: "subN (subN (Num (10 ^ 150)) (mulN (Num k1) (Num y))) (mulN (Num k2) (Num z))
      = Num (10 ^ 150 - k1 * y - k2 * z)" using p1 p2 s1 s2 by simp
  have "10 ^ 149 \<le> 10 ^ 150 - k1 * y - k2 * z" "10 ^ 150 - k1 * y - k2 * z \<le> 2 * 10 ^ 150"
    using b1 b2 by (simp_all add: abs_le_iff)
  with e show ?thesis by blast
qed

lemma oklabToRgbN_huge:
  assumes "\<bar>y\<bar> \<le> 1" "\<bar>z\<bar> \<le> 1"
  shows "oklabToRgbN (Num (10 ^ 150)) (Num y) (Num z) = (NaN, NaN, NaN)"
proof -
  have k: "\<bar>0.3963377774 :: real\<bar> \<le> 2" "\<bar>0.2158037573 :: real\<bar> \<le> 2" "\<bar>0.1055613458 :: real\<bar> \<le> 2"
    "\<bar>0.0638541728 :: real\<bar> \<le> 2" "\<bar>0.0894841775 :: real\<bar> \<le> 2" "\<bar>1.291485548 :: real\<bar> \<le> 2"
    by simp_all
  from big_lin_add [OF assms k(1) k(2)] obtain l where
    l: "addN (addN (Num (10 ^ 150)) (mulN (Num 0.3963377774) (Num y))) (mulN (Num 0.2158037573) (Num z)) = Num l"
    "10 ^ 149 \<le> l" "l \<le> 2 * 10 ^ 150" by blast
  from big_lin_sub [OF assms k(3) k(4)] obtain m where
    m: "subN (subN (Num (10 ^ 150)) (mulN (Num 0.1055613458) (Num y))) (mulN (Num 0.0638541728) (Num z)) = Num m"
    "10 ^ 149 \<le> m" "m \<le> 2 * 10 ^ 150" by blast
  from big_lin_sub [OF assms k(5) k(6)] obtain s where
    s: "subN (subN (Num (10 ^ 150)) (mulN (Num 0.0894841775) (Num y))) (mulN (Num 1.291485548) (Num z)) = Num s"
    "10 ^ 149 \<le> s" "s \<le> 2 * 10 ^ 150" by blast
  note cl = big_cube [OF l(2,3)]
  note cm = big_cube [OF m(2,3)]
  note cs = big_cube [OF s(2,3)]
  show ?thesis
    unfolding oklabToRgbN_def Let_def l(1) m(1) s(1) cl cm cs
    by (simp add: subN_def delinN_def clampN_def)
qed

lemma lchToHex3_huge: "lchToHex3 (Num (10 ^ 150)) (Num 0.035) h = ''#NaNNaNNaN''"
proof -
  have c: "\<bar>0.035 :: real\<bar> \<le> 1" by simp
  have one: "\<bar>cos (h * pi / 180)\<bar> \<le> 1" "\<bar>sin (h * pi / 180)\<bar> \<le> 1" by simp_all
  from mulN_Num [OF c one(1)] have ea: "mulN (Num 0.035) (Num (cos (h * pi / 180))) = Num (0.035 * cos (h * pi / 180))"
    and ba: "\<bar>0.035 * cos (h * pi / 180)\<bar> \<le> 1" by simp_all
  from mulN_Num [OF c one(2)] have eb: "mulN (Num 0.035) (Num (sin (h * pi / 180))) = Num (0.035 * sin (h * pi / 180))"
    and bb: "\<bar>0.035 * sin (h * pi / 180)\<bar> \<le> 1" by simp_all
  show ?thesis
    unfolding lchToHex3_def Let_def ea eb oklabToRgbN_huge [OF ba bb]
    by (simp add: hexByteN_def clampN_def)
qed

lemma normaliseHex_fff: "normaliseHex (JStr ''#fff'') = Inr ''#ffffff''"
  by (simp add: normaliseHex_def trim_def isSpace_def stripHash_def toLowerChar_def isLowerHexDigit_def)

lemma normaliseHex_NaN:
  "normaliseHex (JStr ''#NaNNaNNaN'') =
     Inl (RangeError (''Invalid hex color: '' @ [CHR 0x22] @ ''#NaNNaNNaN'' @ [CHR 0x22] @ '' '' @ emDash
                      @ '' expected '' @ [CHR 0x22] @ ''#rgb'' @ [CHR 0x22] @ '' or ''
                      @ [CHR 0x22] @ ''#rrggbb'' @ [CHR 0x22]))"
  by (simp add: normaliseHex_def trim_def isSpace_def stripHash_def Let_def)

lemma mkRole_NaN:
  "mkRole nl rn lb wt ''#NaNNaNNaN'' d =
     Inl (RangeError (''Invalid hex color: '' @ [CHR 0x22] @ ''#NaNNaNNaN'' @ [CHR 0x22] @ '' '' @ emDash
                      @ '' expected '' @ [CHR 0x22] @ ''#rgb'' @ [CHR 0x22] @ '' or ''
                      @ [CHR 0x22] @ ''#rrggbb'' @ [CHR 0x22]))"
  unfolding mkRole_def bestTextOn_def wcagContrast_def wcagY_def normaliseHex_NaN by simp

text \<open>
  The two options of the synthesised \<open>neutralDark\<close> can make the call throw.  With
  \<open>derivedDarkL = 1e150\<close> the cubes of \<open>_oklabToRgb\<close> overflow, the three channels of the synthesised \<open>neutralDark\<close> are \<open>NaN\<close>, its
  hex string is \<open>#NaNNaNNaN\<close>, and \<open>mkRole\<close> throws the \<open>RangeError\<close> of
  \<open>_normaliseHex\<close> on it.
\<close>

lemma select60_30_10_huge_option:
  "select60_30_10 (JArr [JStr ''#fff'']) hugeDarkOptions =
     Inl (RangeError (''Invalid hex color: '' @ [CHR 0x22] @ ''#NaNNaNNaN'' @ [CHR 0x22] @ '' '' @ emDash
                      @ '' expected '' @ [CHR 0x22] @ ''#rgb'' @ [CHR 0x22] @ '' or ''
                      @ [CHR 0x22] @ ''#rrggbb'' @ [CHR 0x22]))"
proof -
  define cfg where "cfg = mkCfg hugeDarkOptions"
  have dl: "cfgDerivedDarkL cfg = Num (10 ^ 150)" and dc: "cfgDerivedDarkC cfg = Num 0.035"
    by (simp_all add: cfg_def mkCfg_def hugeDarkOptions_def defaultOptions_def orDefault_def)
  have v: "validHex ''#fff''"
    by (simp add: validHex_def stripHash_def isHexDigit_def hexDigitVal_def)
  from toInternal_valid [OF v] obtain c where c: "toInternal (JStr ''#fff'') = Inr c" "normalHex (srcHex c)"
    by blast
  have px: "mapE toInternal [JStr ''#fff''] = Inr [c]" by (simp add: c(1))
  have one: "sortDesc k [c] = [c]" for k by (simp add: sortDesc_def)
  have s1: "step1 cfg [c] = Inr c"
    by (simp add: step1_def Let_def nearNeutralsOf_def one firstOf_def)
  have s2: "step2 cfg [c] = Inr c"
    by (simp add: step2_def Let_def one firstOf_def)
  have s3: "step3 cfg [c] c c = Inr (''#NaNNaNNaN'', True)"
    unfolding step3_def Let_def dl dc lchToHex3_huge by (simp add: nearNeutralsOf_def)
  obtain sh where s4: "step4 cfg [c] c c = Inr (sh, True)"
    by (simp add: step4_def Let_def)
  obtain ac where s5: "step5 cfg [c] c c sh = Inr (ac, True)"
    by (simp add: step5_def Let_def)
  from mkRole_normal [OF c(2) c(2)] obtain r1 where
    r1: "mkRole (srcHex c) ''neutralLight'' ''Neutral Light'' ''60%'' (srcHex c) False = Inr r1" by blast
  have "select60_30_10 (JArr [JStr ''#fff'']) hugeDarkOptions
      = assemble c c (''#NaNNaNNaN'', True) (sh, True) (ac, True)"
    unfolding select60_30_10_def
    by (simp add: Let_def cfg_def [symmetric] px s1 s2 s3 s4 s5 del: mapE.simps)
  also have "\<dots> = Inl (RangeError (''Invalid hex color: '' @ [CHR 0x22] @ ''#NaNNaNNaN'' @ [CHR 0x22] @ '' '' @ emDash
                      @ '' expected '' @ [CHR 0x22] @ ''#rgb'' @ [CHR 0x22] @ '' or ''
                      @ [CHR 0x22] @ ''#rrggbb'' @ [CHR 0x22]))"
    by (simp add: assemble_def r1 mkRole_NaN)
  finally show ?thesis .
qed

lemma boundedDark_default: "boundedDark defaultOptions"
  by (simp add: boundedDark_def defaultOptions_def)

lemma boundedDark_odd: "boundedDark oddOptions"
  by (simp add: boundedDark_def oddOptions_def)

text \<open>
  C5.  For every non-empty array of valid hex colours, of any length from one up,
  \<open>select60_30_10\<close> does not throw and returns the five roles \<open>neutralLight\<close>,
  \<open>neutralDark\<close>, \<open>mainColor\<close>, \<open>mainColorShade\<close> and \<open>accentColor\<close>.  This
  holds with the default options and with every options object whose \<open>derivedDarkL\<close>
  and \<open>derivedDarkC\<close>, when given, are numbers of magnitude at most \<open>10^100\<close>; the
  five thresholds may be any number, \<open>NaN\<close> and the infinities included.
\<close>

theorem select60_30_10_five_roles:
  assumes "palette \<noteq> []" "list_all validHex palette" "boundedDark opts"
  shows "\<exists>res. select60_30_10 (JArr (map JStr palette)) opts = Inr res \<and>
     role (neutralLight res) = ''neutralLight'' \<and> role (neutralDark res) = ''neutralDark'' \<and>
     role (mainColor res) = ''mainColor'' \<and> role (mainColorShade res) = ''mainColorShade'' \<and>
     role (accentColor res) = ''accentColor''"
  using assms by (rule select_ok)

theorem select60_30_10_five_roles_witness:
  "[''#000''] \<noteq> [] \<and> list_all validHex [''#000''] \<and> boundedDark defaultOptions \<and>
   (\<exists>res. select60_30_10 (JArr (map JStr [''#000''])) defaultOptions = Inr res \<and>
      role (neutralLight res) = ''neutralLight'' \<and> role (neutralDark res) = ''neutralDark'' \<and>
      role (mainColor res) = ''mainColor'' \<and> role (mainColorShade res) = ''mainColorShade'' \<and>
      role (accentColor res) = ''accentColor'') \<and>
   list_all validHex [''#fff'', ''0A0b0C''] \<and> boundedDark oddOptions \<and>
   (\<exists>res. select60_30_10 (JArr (map JStr [''#fff'', ''0A0b0C''])) oddOptions = Inr res \<and>
      role (accentColor res) = ''accentColor'')"
proof -
  have a: "[''#000''] \<noteq> []" and b: "list_all validHex [''#000'']"
    by (simp_all add: validHex_short)
  have c: "[''#fff'', ''0A0b0C''] \<noteq> []" and d: "list_all validHex [''#fff'', ''0A0b0C'']"
    by (simp_all add: validHex_def stripHash_def isHexDigit_def hexDigitVal_def)
  from select60_30_10_five_roles [OF a b boundedDark_default]
    select60_30_10_five_roles [OF c d boundedDark_odd] b d boundedDark_default boundedDark_odd
  show ?thesis by blast
qed

text \<open>
  C10.  For every palette of strings on which \<open>select60_30_10\<close> returns, every role
  whose \<open>derived\<close> flag is false carries the normalised \<open>#rrggbb\<close> form of some entry
  of the palette; \<open>neutralLight\<close> and \<open>mainColor\<close> are never derived.
\<close>

theorem select_picks_from_palette:
  assumes "select60_30_10 (JArr (map JStr palette)) opts = Inr res"
  shows "\<not> derived (neutralLight res) \<and> \<not> derived (mainColor res) \<and>
     (\<exists>v\<in>set palette. normaliseHex (JStr v) = Inr (hex (neutralLight res))) \<and>
     (\<exists>v\<in>set palette. normaliseHex (JStr v) = Inr (hex (mainColor res))) \<and>
     (\<not> derived (neutralDark res) \<longrightarrow>
        (\<exists>v\<in>set palette. normaliseHex (JStr v) = Inr (hex (neutralDark res)))) \<and>
     (\<not> derived (mainColorShade res) \<longrightarrow>
        (\<exists>v\<in>set palette. normaliseHex (JStr v) = Inr (hex (mainColorShade res)))) \<and>
     (\<not> derived (accentColor res) \<longrightarrow>
        (\<exists>v\<in>set palette. normaliseHex (JStr v) = Inr (hex (accentColor res))))"
proof -
  from select_Inr [OF assms] obtain px nl mn nd sh ac cfg where
    px: "mapE toInternal (map JStr palette) = Inr px" and nl: "step1 cfg px = Inr nl"
    and mn: "step2 cfg px = Inr mn" and nd: "step3 cfg px nl mn = Inr nd"
    and sh: "step4 cfg px nl mn = Inr sh" and ac: "step5 cfg px nl mn (fst sh) = Inr ac"
    and asm: "assemble nl mn nd sh ac = Inr res" by blast
  have from_px: "\<exists>v\<in>set palette. normaliseHex (JStr v) = Inr h" if "h \<in> srcHex ` set px" for h
  proof -
    from that obtain c where c: "c \<in> set px" "h = srcHex c" by auto
    with mapE_Inr [OF px] obtain v where "v \<in> set palette" "toInternal (JStr v) = Inr c" by auto
    with c toInternal_Inr show ?thesis by blast
  qed
  note a = assemble_Inr [OF asm]
  have "srcHex nl \<in> srcHex ` set px" "srcHex mn \<in> srcHex ` set px"
    using step1_Inr [OF nl] step2_Inr [OF mn] by auto
  then have 1: "\<exists>v\<in>set palette. normaliseHex (JStr v) = Inr (hex (neutralLight res))"
    and 2: "\<exists>v\<in>set palette. normaliseHex (JStr v) = Inr (hex (mainColor res))"
    using a from_px by auto
  have 3: "\<not> derived (neutralDark res) \<longrightarrow>
        (\<exists>v\<in>set palette. normaliseHex (JStr v) = Inr (hex (neutralDark res)))"
    using step3_Inr [OF nd] a from_px by auto
  have 4: "\<not> derived (mainColorShade res) \<longrightarrow>
        (\<exists>v\<in>set palette. normaliseHex (JStr v) = Inr (hex (mainColorShade res)))"
    using step4_Inr [OF sh] a from_px by auto
  have 5: "\<not> derived (accentColor res) \<longrightarrow>
        (\<exists>v\<in>set palette. normaliseHex (JStr v) = Inr (hex (accentColor res)))"
    using step5_Inr [OF ac] a from_px by auto
  from a 1 2 3 4 5 show ?thesis by blast
qed

theorem select_picks_from_palette_witness:
  "\<exists>res. select60_30_10 (JArr (map JStr [''#000''])) defaultOptions = Inr res \<and>
      \<not> derived (neutralLight res) \<and> hex (neutralLight res) = ''#000000'' \<and>
      hex (mainColor res) = ''#000000''"
proof -
  from select_ok [of "[''#000'']" defaultOptions] validHex_short boundedDark_default obtain res
    where r: "select60_30_10 (JArr (map JStr [''#000''])) defaultOptions = Inr res" by auto
  from select_picks_from_palette [OF r] normaliseHex_short r show ?thesis by auto
qed


text \<open>
  C9.  The three classes of validation error are told apart (\<open>select_not_array\<close>,
  \<open>normaliseHex_not_string\<close>, \<open>normaliseHex_bad_string\<close>), but not for every
  malformed input: the message for an element that is no string is built with
  \<open>JSON.stringify\<close>, which throws on a BigInt, so the error that leaves
  \<open>select60_30_10\<close> is the engine's and does not name the received type.
\<close>

theorem select60_30_10_bigint:
  "select60_30_10 (JArr [JBigInt 10]) opts = Inl (TypeError ''Do not know how to serialize a BigInt'')"
  by (simp add: select60_30_10_def toInternal_def normaliseHex_def jsonStringify_def)

subsection \<open>Contrast palettes\<close>

text \<open>
  Both searches return a colour they have tested, or black or white: before the colour
  is rounded to eight bits per channel, it meets the target ratio or is an extreme.
\<close>

lemma adjustToWcagRatio_passes:
  "wcagContrastRatio (adjustToWcagRatio color reference targetRatio maxIter) reference \<ge> targetRatio
   \<or> adjustToWcagRatio color reference targetRatio maxIter = black
   \<or> adjustToWcagRatio color reference targetRatio maxIter = white"
  by (auto simp: adjustToWcagRatio_def Let_def passes_def nearestExtreme_def split: option.splits)

lemma adjustToWcagRatioFromL_passes:
  "wcagContrastRatio (adjustToWcagRatioFromL hue sat startL reference targetRatio dir maxIter) reference \<ge> targetRatio
   \<or> adjustToWcagRatioFromL hue sat startL reference targetRatio dir maxIter = black
   \<or> adjustToWcagRatioFromL hue sat startL reference targetRatio dir maxIter = white"
  by (auto simp: adjustToWcagRatioFromL_def Let_def passes_def nearestExtreme_def split: option.splits)

lemma powr24_le:
  fixes x q :: real
  assumes "0 < x" "0 < q" "x ^ 12 \<le> q ^ 5"
  shows "x powr 2.4 \<le> q"
proof -
  have "x powr 2.4 = x powr (12 * (1 / 5))" by simp
  also have "\<dots> = (x powr 12) powr (1 / 5)" by (rule powr_powr [symmetric])
  also have "\<dots> = (x ^ 12) powr (1 / 5)" using assms(1) by simp
  also have "\<dots> \<le> (q ^ 5) powr (1 / 5)" using assms by (intro powr_mono2) simp_all
  also have "\<dots> = (q powr 5) powr (1 / 5)" using assms(2) by simp
  also have "\<dots> = q powr (5 * (1 / 5))" by (rule powr_powr)
  also have "\<dots> = q" using assms(2) by simp
  finally show ?thesis .
qed

lemma powr24_ge:
  fixes x q :: real
  assumes "0 < x" "0 < q" "q ^ 5 \<le> x ^ 12"
  shows "q \<le> x powr 2.4"
proof -
  have "q = q powr (5 * (1 / 5))" using assms(2) by simp
  also have "\<dots> = (q powr 5) powr (1 / 5)" by (rule powr_powr [symmetric])
  also have "\<dots> = (q ^ 5) powr (1 / 5)" using assms(2) by simp
  also have "\<dots> \<le> (x ^ 12) powr (1 / 5)" using assms by (intro powr_mono2) simp_all
  also have "\<dots> = (x powr 12) powr (1 / 5)" using assms(1) by simp
  also have "\<dots> = x powr (12 * (1 / 5))" by (rule powr_powr)
  also have "\<dots> = x powr 2.4" by simp
  finally show ?thesis .
qed

lemma blueAt_eq:
  assumes "1 / 2 \<le> l"
  shows "blueAt l = \<lparr> r = 1.7 * l - 0.7, g = 1.7 * l - 0.7, b = 0.3 * l + 0.7 \<rparr>"
proof -
  have "jsMod (240 / 60) 2 = 0" by (simp add: jsMod_def jsTrunc_def)
  moreover have "\<bar>2 * l - 1\<bar> = 2 * l - 1" using assms by simp
  ultimately show ?thesis
    by (simp add: blueAt_def hslToRgb_def Let_def field_simps)
qed

lemma lum_blueAt:
  assumes "0.65 \<le> l"
  shows "relativeLuminance (blueAt l) = lumBlue l"
proof -
  have "1 / 2 \<le> l" using assms by simp
  moreover have "\<not> 1.7 * l - 0.7 \<le> 0.04045" "\<not> 0.3 * l + 0.7 \<le> 0.04045" using assms by simp_all
  ultimately show ?thesis
    by (simp add: blueAt_eq relativeLuminance_def linearize_def lumBlue_def algebra_simps)
qed

lemma lum_black: "relativeLuminance black = 0"
  by (simp add: relativeLuminance_def black_def linearize_def)

lemma ratio_black:
  assumes "0 \<le> relativeLuminance c"
  shows "wcagContrastRatio c black \<ge> 7 \<longleftrightarrow> relativeLuminance c \<ge> 0.3"
  using assms by (simp add: wcagContrastRatio_def lum_black Let_def max_def min_def field_simps)

lemma lumBlue_mono:
  assumes "0.65 \<le> l1" "l1 \<le> l2"
  shows "lumBlue l1 \<le> lumBlue l2"
proof -
  have "((1.7 * l1 - 0.645) / 1.055) powr 2.4 \<le> ((1.7 * l2 - 0.645) / 1.055) powr 2.4"
    using assms by (intro powr_mono2) (simp_all add: field_simps)
  moreover have "((0.3 * l1 + 0.755) / 1.055) powr 2.4 \<le> ((0.3 * l2 + 0.755) / 1.055) powr 2.4"
    using assms by (intro powr_mono2) (simp_all add: field_simps)
  ultimately show ?thesis by (simp add: lumBlue_def)
qed

lemma lumBlue_nonneg: "0 \<le> lumBlue l"
  by (simp add: lumBlue_def)

lemma lumBlue_low: "lumBlue 0.7322 < 0.3"
proof -
  have a: "((1.7 * 0.7322 - 0.645) / 1.055) powr 2.4 \<le> (51563 / 200000 :: real)"
    by (rule powr24_le) (simp_all add: field_simps)
  have b: "((0.3 * 0.7322 + 0.755) / 1.055) powr 2.4 \<le> (2584 / 3125 :: real)"
    by (rule powr24_le) (simp_all add: field_simps)
  show ?thesis unfolding lumBlue_def using a b by simp
qed

lemma lumBlue_high: "0.3 \<le> lumBlue 0.7335"
proof -
  have a: "(130049 / 500000 :: real) \<le> ((1.7 * 0.7335 - 0.645) / 1.055) powr 2.4"
    by (rule powr24_ge) (simp_all add: field_simps)
  have b: "(827671 / 1000000 :: real) \<le> ((0.3 * 0.7335 + 0.755) / 1.055) powr 2.4"
    by (rule powr24_ge) (simp_all add: field_simps)
  show ?thesis unfolding lumBlue_def using a b by simp
qed

lemma bluePasses_iff:
  assumes "0.65 \<le> l"
  shows "bluePasses l \<longleftrightarrow> lumBlue l \<ge> 0.3"
  unfolding bluePasses_def using ratio_black [of "blueAt l"] lum_blueAt [OF assms] lumBlue_nonneg [of l]
  by simp

lemma bluePasses_gt: "0.65 \<le> l \<Longrightarrow> bluePasses l \<Longrightarrow> 0.7322 < l"
proof (rule ccontr)
  assume l: "0.65 \<le> l" and p: "bluePasses l" and n: "\<not> 0.7322 < l"
  have "lumBlue l \<le> lumBlue 0.7322" using l n by (intro lumBlue_mono) simp_all
  with lumBlue_low p l show False by (simp add: bluePasses_iff)
qed

lemma bluePasses_ge: "0.7335 \<le> l \<Longrightarrow> bluePasses l"
proof -
  assume l: "0.7335 \<le> l"
  have "lumBlue 0.7335 \<le> lumBlue l" using l by (intro lumBlue_mono) simp_all
  with lumBlue_high l show ?thesis by (simp add: bluePasses_iff)
qed

lemma searchFromL_step:
  "i < maxIter \<Longrightarrow>
   searchFromL hue sat reference targetRatio dir maxIter i lo hi best =
     (let mid = (lo + hi) / 2;
          candidate = hslToRgb \<lparr> hslH = hue, hslS = sat, hslL = mid \<rparr>
      in if wcagContrastRatio candidate reference \<ge> targetRatio
         then (if dir = Dark
               then searchFromL hue sat reference targetRatio dir maxIter (Suc i) mid hi (Some candidate)
               else searchFromL hue sat reference targetRatio dir maxIter (Suc i) lo mid (Some candidate))
         else (if dir = Dark
               then searchFromL hue sat reference targetRatio dir maxIter (Suc i) lo mid best
               else searchFromL hue sat reference targetRatio dir maxIter (Suc i) mid hi best))"
  by (subst searchFromL.simps) simp

lemma searchFromL_stop:
  "\<not> i < maxIter \<Longrightarrow> searchFromL hue sat reference targetRatio dir maxIter i lo hi best = best"
  by (subst searchFromL.simps) simp

lemma searchFromL_light_inv:
  assumes "i + n = maxIter"
  shows "\<exists>lo' hi'. hi' - lo' = (hi - lo) / 2 ^ n \<and> (lo \<le> hi \<longrightarrow> lo \<le> lo' \<and> hi' \<le> hi)
           \<and> (lo' = lo \<or> \<not> wcagContrastRatio (hslToRgb \<lparr> hslH = hue, hslS = sat, hslL = lo' \<rparr>) reference \<ge> targetRatio)
           \<and> ((hi' = hi \<and> searchFromL hue sat reference targetRatio Light maxIter i lo hi best = best)
              \<or> (wcagContrastRatio (hslToRgb \<lparr> hslH = hue, hslS = sat, hslL = hi' \<rparr>) reference \<ge> targetRatio
                 \<and> searchFromL hue sat reference targetRatio Light maxIter i lo hi best
                     = Some (hslToRgb \<lparr> hslH = hue, hslS = sat, hslL = hi' \<rparr>)))"
  using assms
proof (induction n arbitrary: i lo hi best)
  case 0
  then have "\<not> i < maxIter" by simp
  then show ?case by (intro exI [of _ lo] exI [of _ hi]) (simp add: searchFromL_stop)
next
  case (Suc n)
  let ?P = "\<lambda>l. wcagContrastRatio (hslToRgb \<lparr> hslH = hue, hslS = sat, hslL = l \<rparr>) reference \<ge> targetRatio"
  let ?c = "\<lambda>l. hslToRgb \<lparr> hslH = hue, hslS = sat, hslL = l \<rparr>"
  let ?mid = "(lo + hi) / 2"
  from Suc.prems have lt: "i < maxIter" and n: "Suc i + n = maxIter" by simp_all
  show ?case
  proof (cases "?P ?mid")
    case True
    then have eq: "searchFromL hue sat reference targetRatio Light maxIter i lo hi best
        = searchFromL hue sat reference targetRatio Light maxIter (Suc i) lo ?mid (Some (?c ?mid))"
      by (simp add: searchFromL_step [OF lt] Let_def)
    from Suc.IH [OF n, of ?mid lo "Some (?c ?mid)"] obtain lo' hi' where
      d: "hi' - lo' = (?mid - lo) / 2 ^ n" and
      bd: "lo \<le> ?mid \<longrightarrow> lo \<le> lo' \<and> hi' \<le> ?mid" and
      l: "lo' = lo \<or> \<not> ?P lo'" and
      h: "(hi' = ?mid \<and> searchFromL hue sat reference targetRatio Light maxIter (Suc i) lo ?mid (Some (?c ?mid)) = Some (?c ?mid))
          \<or> (?P hi' \<and> searchFromL hue sat reference targetRatio Light maxIter (Suc i) lo ?mid (Some (?c ?mid)) = Some (?c hi'))"
      by blast
    have d': "hi' - lo' = (hi - lo) / 2 ^ Suc n" using d by (simp add: field_simps)
    have bd': "lo \<le> hi \<longrightarrow> lo \<le> lo' \<and> hi' \<le> hi" using bd by auto
    have h': "?P hi' \<and> searchFromL hue sat reference targetRatio Light maxIter i lo hi best = Some (?c hi')"
      using h True eq by metis
    show ?thesis using d' bd' l h' by blast
  next
    case False
    then have eq: "searchFromL hue sat reference targetRatio Light maxIter i lo hi best
        = searchFromL hue sat reference targetRatio Light maxIter (Suc i) ?mid hi best"
      by (simp add: searchFromL_step [OF lt] Let_def)
    from Suc.IH [OF n, of hi ?mid best] obtain lo' hi' where
      d: "hi' - lo' = (hi - ?mid) / 2 ^ n" and
      bd: "?mid \<le> hi \<longrightarrow> ?mid \<le> lo' \<and> hi' \<le> hi" and
      l: "lo' = ?mid \<or> \<not> ?P lo'" and
      h: "(hi' = hi \<and> searchFromL hue sat reference targetRatio Light maxIter (Suc i) ?mid hi best = best)
          \<or> (?P hi' \<and> searchFromL hue sat reference targetRatio Light maxIter (Suc i) ?mid hi best = Some (?c hi'))"
      by blast
    have d': "hi' - lo' = (hi - lo) / 2 ^ Suc n" using d by (simp add: field_simps)
    have bd': "lo \<le> hi \<longrightarrow> lo \<le> lo' \<and> hi' \<le> hi" using bd by auto
    have l': "\<not> ?P lo'" using l False by metis
    show ?thesis using d' bd' l' h eq by metis
  qed
qed

lemma search_blue:
  "\<exists>l. 0.7322 < l \<and> l < 0.73355 \<and> bluePasses l \<and>
       searchFromL 240 0.7 black 7 Light 48 0 0.65 1 None = Some (blueAt l)"
proof -
  from searchFromL_light_inv [where i = 0 and n = 48 and maxIter = 48 and hi = 1 and lo = "0.65" and hue = 240
      and sat = "0.7" and reference = black and targetRatio = 7 and best = None, folded blueAt_def bluePasses_def]
  obtain lo' hi' where
    d: "hi' - lo' = (1 - 0.65) / 2 ^ 48" and
    bd: "(0.65 :: real) \<le> 1 \<longrightarrow> 0.65 \<le> lo' \<and> hi' \<le> 1" and
    l: "lo' = 0.65 \<or> \<not> bluePasses lo'" and
    h: "(hi' = 1 \<and> searchFromL 240 0.7 black 7 Light 48 0 0.65 1 None = None)
        \<or> (bluePasses hi' \<and> searchFromL 240 0.7 black 7 Light 48 0 0.65 1 None = Some (blueAt hi'))"
    by auto
  have lo: "0.65 \<le> lo'" using bd by simp
  have np: "\<not> bluePasses lo'"
  proof
    assume p: "bluePasses lo'"
    with l have "lo' = 0.65" by simp
    moreover from bluePasses_gt [OF lo p] have "0.7322 < lo'" .
    ultimately show False by simp
  qed
  have lo_lt: "lo' < 0.7335" using bluePasses_ge [of lo'] np by force
  have "((1 - 0.65) / 2 ^ 48 :: real) \<le> 0.00005" by simp
  with d lo_lt have hi_lt: "hi' < 0.73355" by simp
  have hi_ge: "0.65 \<le> hi'" using d lo by simp
  from h hi_lt have p: "bluePasses hi'"
    and r: "searchFromL 240 0.7 black 7 Light 48 0 0.65 1 None = Some (blueAt hi')" by auto
  from bluePasses_gt [OF hi_ge p] hi_lt p r show ?thesis by blast
qed

lemma digits16_139: "digits16 139 = ''8b''"
  by (simp add: digits16_byte hexChar_def)

lemma digits16_235: "digits16 235 = ''eb''"
  by (simp add: digits16_byte hexChar_def)

lemma hexByteInt_round:
  assumes "real_of_int k - 1 / 2 \<le> c * 255" "c * 255 < real_of_int k + 1 / 2" "0 \<le> k" "k \<le> 255"
  shows "hexByteInt c = padStart2 (digits16 (nat k))"
proof -
  have "jsRound (c * 255) = k" using assms(1,2) by (simp add: jsRound_def floor_eq_iff)
  then show ?thesis using assms(3,4) by (simp add: hexByteInt_def toString16_def)
qed

lemma rgbToHexC_blueAt:
  assumes "0.7322 < l" "l < 0.73355"
  shows "rgbToHexC (blueAt l) = ''#8b8beb''"
proof -
  have h: "1 / 2 \<le> l" using assms by simp
  have a: "hexByteInt (1.7 * l - 0.7) = padStart2 (digits16 (nat 139))"
    using assms by (intro hexByteInt_round) simp_all
  have c: "hexByteInt (0.3 * l + 0.7) = padStart2 (digits16 (nat 235))"
    using assms by (intro hexByteInt_round) simp_all
  show ?thesis
    using a c by (simp add: rgbToHexC_def blueAt_eq [OF h] digits16_139 digits16_235 padStart2_def)
qed

lemma adjust_blue:
  "\<exists>l. 0.7322 < l \<and> l < 0.73355 \<and> adjustToWcagRatioFromL 240 0.7 0.65 black 7 Light 48 = blueAt l"
proof -
  from search_blue obtain l where l: "0.7322 < l" "l < 0.73355" and p: "bluePasses l"
    and s: "searchFromL 240 0.7 black 7 Light 48 0 0.65 1 None = Some (blueAt l)" by blast
  have "adjustToWcagRatioFromL 240 0.7 0.65 black 7 Light 48 = blueAt l"
    unfolding adjustToWcagRatioFromL_def Let_def using p
    by (simp only: direction.distinct if_False s passes_def option.case bluePasses_def option.sel if_True)
  with l show ?thesis by blast
qed

lemma hexToRgb_blue: "hexToRgb ''#0000ff'' = Some \<lparr> r = 0, g = 0, b = 1 \<rparr>"
proof -
  have z: "hexDigitVal CHR ''0'' = Some 0" "hexDigitVal CHR ''f'' = Some 15" by (simp_all add: hexDigitVal_def)
  have p: "parseInt16 ''00'' = Some 0" "parseInt16 ''ff'' = Some 255"
    by (simp_all add: parseInt16_def isHexDigit_def z)
  show ?thesis by (simp add: hexToRgb_def sliceStr_def p)
qed

lemma hexToRgb_8b8beb:
  "hexToRgb ''#8b8beb'' = Some \<lparr> r = 139 / 255, g = 139 / 255, b = 235 / 255 \<rparr>"
proof -
  have z: "hexDigitVal CHR ''8'' = Some 8" "hexDigitVal CHR ''b'' = Some 11" "hexDigitVal CHR ''e'' = Some 14"
    by (simp_all add: hexDigitVal_def)
  have p: "parseInt16 ''8b'' = Some 139" "parseInt16 ''eb'' = Some 235"
    by (simp_all add: parseInt16_def isHexDigit_def z)
  show ?thesis by (simp add: hexToRgb_def sliceStr_def p)
qed

lemma rgbToHsl_blue: "rgbToHsl \<lparr> r = 0, g = 0, b = 1 \<rparr> = \<lparr> hslH = 240, hslS = 1, hslL = 1 / 2 \<rparr>"
  by (simp add: rgbToHsl_def Let_def)

lemma highContrastSlot_blue:
  "highContrastSlot \<lparr> hslH = 240, hslS = 1, hslL = 1 / 2 \<rparr> 9 5
     = (adjustToWcagRatioFromL 240 0.7 0.65 black 7 Light 48, black, 7)"
  by (simp add: highContrastSlot_def Let_def lerp_def)

lemma ratio_8b8beb: "wcagContrastRatio \<lparr> r = 139 / 255, g = 139 / 255, b = 235 / 255 \<rparr> black < 7"
proof -
  have a: "((139 / 255 + 0.055) / 1.055) powr 2.4 \<le> (32273 / 125000 :: real)"
    by (rule powr24_le) (simp_all add: field_simps)
  have b: "((235 / 255 + 0.055) / 1.055) powr 2.4 \<le> (830771 / 1000000 :: real)"
    by (rule powr24_le) (simp_all add: field_simps)
  have nn: "0 \<le> relativeLuminance \<lparr> r = 139 / 255, g = 139 / 255, b = 235 / 255 \<rparr>"
    by (simp add: relativeLuminance_def linearize_def)
  have "relativeLuminance \<lparr> r = 139 / 255, g = 139 / 255, b = 235 / 255 \<rparr> < 0.3"
    using a b by (simp add: relativeLuminance_def linearize_def)
  with ratio_black [OF nn] show ?thesis by simp
qed

text \<open>
  C4.  The contrast guarantee fails on the returned hex string.  For the base colour
  \<open>#0000ff\<close> and \<open>x = 9\<close>, slot 5 of \<open>highContrast\<close> has the reference black and
  the target 7:1.  Its search ends on a colour that meets 7:1, but \<open>rgbToHex\<close> rounds
  that colour to \<open>#8b8beb\<close>, which is neither \<open>#000000\<close> nor \<open>#ffffff\<close> and whose
  contrast ratio against black is below 7.
\<close>

theorem highContrast_below_seven:
  "\<exists>out. generateContrastPalettes [[''#0000ff'']] 9 = Some out \<and>
         length (highContrast out) = 9 \<and>
         highContrast out ! 5 = ''#8b8beb'' \<and>
         snd (highContrastSlot (rgbToHsl \<lparr> r = 0, g = 0, b = 1 \<rparr>) 9 5) = (black, 7) \<and>
         hexToRgb ''#8b8beb'' = Some \<lparr> r = 139 / 255, g = 139 / 255, b = 235 / 255 \<rparr> \<and>
         wcagContrastRatio \<lparr> r = 139 / 255, g = 139 / 255, b = 235 / 255 \<rparr> black < 7"
proof -
  define H where "H = \<lparr> hslH = 240, hslS = 1, hslL = 1 / 2 \<rparr>"
  define f where "f = (\<lambda>i. rgbToHexC (fst (highContrastSlot H 9 i)))"
  from adjust_blue obtain l where l: "0.7322 < l" "l < 0.73355"
    and a: "adjustToWcagRatioFromL 240 0.7 0.65 black 7 Light 48 = blueAt l" by blast
  have f5: "f 5 = ''#8b8beb''"
    unfolding f_def H_def highContrastSlot_blue fst_conv a by (rule rgbToHexC_blueAt [OF l])
  have "\<exists>out. generateContrastPalettes [[''#0000ff'']] 9 = Some out \<and> highContrast out = map f [0 ..< 9]"
    by (simp add: generateContrastPalettes_def hexToRgb_blue rgbToHsl_blue Let_def f_def H_def)
  then obtain out where g: "generateContrastPalettes [[''#0000ff'']] 9 = Some out"
    and hc: "highContrast out = map f [0 ..< 9]" by blast
  have len: "length (highContrast out) = 9" by (simp add: hc)
  have five: "highContrast out ! 5 = ''#8b8beb''" by (simp add: hc f5)
  have ref: "snd (highContrastSlot (rgbToHsl \<lparr> r = 0, g = 0, b = 1 \<rparr>) 9 5) = (black, 7)"
    by (simp only: rgbToHsl_blue highContrastSlot_blue snd_conv)
  show ?thesis
    using g len five ref hexToRgb_8b8beb ratio_8b8beb by blast
qed

subsection \<open>The OKLCH round trip\<close>

text \<open>
  The gamma curves are inverse to each other except on the short interval where the two
  thresholds disagree; the two pairs of matrices are inverse to each other up to the
  rounding of their ten-digit coefficients.  The lemmas below bound both defects.
\<close>

lemma powr_inv24_ge:
  fixes x q :: real
  assumes "0 < x" "0 < q" "q ^ 12 \<le> x ^ 5"
  shows "q \<le> x powr (1 / 2.4)"
proof -
  have "q powr 2.4 \<le> x" using assms by (intro powr24_le) simp_all
  then have "(q powr 2.4) powr (1 / 2.4) \<le> x powr (1 / 2.4)"
    by (intro powr_mono2) simp_all
  moreover have "(q powr 2.4) powr (1 / 2.4) = q powr (2.4 * (1 / 2.4))" by (rule powr_powr)
  ultimately show ?thesis using assms(2) by simp
qed

lemma powr_inv24_cancel:
  fixes x :: real
  assumes "0 < x"
  shows "(x powr (1 / 2.4)) powr 2.4 = x"
proof -
  have "(x powr (1 / 2.4)) powr 2.4 = x powr ((1 / 2.4) * 2.4)" by (rule powr_powr)
  then show ?thesis using assms by simp
qed

lemma powr_512_cancel:
  fixes x :: real
  assumes "0 < x"
  shows "(x powr (5 / 12)) powr (12 / 5) = x"
  using powr_inv24_cancel [OF assms] by simp

lemma delinearize_range:
  assumes "0 \<le> delinearize x" "delinearize x \<le> 1"
  shows "0 \<le> x \<and> x \<le> 1"
proof (cases "x \<le> 0.0031308")
  case True
  then show ?thesis using assms by (simp add: delinearize_def)
next
  case False
  then have pos: "0 < x" by simp
  from False assms(2) have "x powr (1 / 2.4) \<le> 1" by (simp add: delinearize_def)
  then have "(x powr (1 / 2.4)) powr 2.4 \<le> 1 powr 2.4" by (intro powr_mono2) simp_all
  then have "x \<le> 1" by (simp add: powr_512_cancel [OF pos])
  with pos show ?thesis by simp
qed

lemma linearize_delinearize:
  assumes "0 \<le> x" "x \<le> 1"
  shows "\<bar>linearize (delinearize x) - x\<bar> \<le> 5 / 10 ^ 6 * x"
proof (cases "x \<le> 0.0031308")
  case True
  then have "12.92 * x \<le> 0.04045" by simp
  then show ?thesis using True assms by (simp add: linearize_def delinearize_def)
next
  case False
  then have pos: "0 < x" by simp
  define d where "d = 1.055 * x powr (1 / 2.4) - 0.055"
  have dd: "delinearize x = d" using False by (simp add: delinearize_def d_def)
  show ?thesis
  proof (cases "d \<le> 0.04045")
    case False
    have "(d + 0.055) / 1.055 = x powr (1 / 2.4)" by (simp add: d_def)
    then have "linearize d = x" using False by (simp add: linearize_def powr_512_cancel [OF pos])
    then show ?thesis using pos by (simp add: dd)
  next
    case True
    then have lin: "linearize d = d / 12.92" by (simp add: linearize_def)
    from True have t: "x powr (1 / 2.4) \<le> 1909 / 21100" by (simp add: d_def)
    have "(x powr (1 / 2.4)) powr 2.4 \<le> (1909 / 21100) powr 2.4"
      using t by (intro powr_mono2) simp_all
    also have "\<dots> \<le> 0.00313081"
      by (rule powr24_le) (simp_all add: field_simps)
    finally have xu: "x \<le> 0.00313081" by (simp add: powr_512_cancel [OF pos])
    have "(0.09047384 :: real) \<le> 0.0031308 powr (1 / 2.4)"
      by (rule powr_inv24_ge) (simp_all add: field_simps)
    also have "\<dots> \<le> x powr (1 / 2.4)"
      using \<open>\<not> x \<le> 0.0031308\<close> by (intro powr_mono2) simp_all
    finally have "1.055 * 0.09047384 - 0.055 \<le> d" by (simp add: d_def)
    then have lo: "0.003130797 \<le> d / 12.92" by simp
    have hi: "d / 12.92 \<le> 0.003130805" using True by simp
    have a: "d / 12.92 - x \<le> 5 / 10 ^ 6 * x" using hi \<open>\<not> x \<le> 0.0031308\<close> by simp
    have b: "- (d / 12.92 - x) \<le> 5 / 10 ^ 6 * x" using lo xu by simp
    show ?thesis unfolding dd lin using a b by (rule abs_leI)
  qed
qed

lemma cbrt_near:
  assumes "0 \<le> x" "0 \<le> e" "e \<le> 1"
    and "(1 - e) * (x * x * x) \<le> p" "p \<le> (1 + e) * (x * x * x)"
  shows "(1 - e) * x \<le> cbrt p \<and> cbrt p \<le> (1 + e) * x"
proof -
  have x3: "0 \<le> x * x * x" using assms(1) by simp
  have "(1 - e) * (1 - e) * (1 - e) \<le> 1 - e"
  proof -
    have "(1 - e) * (1 - e) \<le> 1 * 1" using assms by (intro mult_mono) simp_all
    then have "(1 - e) * (1 - e) * (1 - e) \<le> 1 * (1 - e)" using assms by (intro mult_right_mono) simp_all
    then show ?thesis by simp
  qed
  then have "((1 - e) * (1 - e) * (1 - e)) * (x * x * x) \<le> (1 - e) * (x * x * x)"
    using x3 by (intro mult_right_mono)
  then have "((1 - e) * x) * ((1 - e) * x) * ((1 - e) * x) \<le> p" using assms(4) by (simp add: mult_ac)
  then have "cbrt (((1 - e) * x) * ((1 - e) * x) * ((1 - e) * x)) \<le> cbrt p" by (rule cbrt_mono)
  then have lo: "(1 - e) * x \<le> cbrt p" by (simp only: cbrt_cube)
  have "1 + e \<le> (1 + e) * (1 + e) * (1 + e)"
  proof -
    have "1 * 1 \<le> (1 + e) * (1 + e)" using assms by (intro mult_mono) simp_all
    then have "1 * (1 + e) \<le> (1 + e) * (1 + e) * (1 + e)" using assms by (intro mult_right_mono) simp_all
    then show ?thesis by simp
  qed
  then have "(1 + e) * (x * x * x) \<le> ((1 + e) * (1 + e) * (1 + e)) * (x * x * x)"
    using x3 by (intro mult_right_mono)
  then have "p \<le> ((1 + e) * x) * ((1 + e) * x) * ((1 + e) * x)" using assms(5) by (simp add: mult_ac)
  then have "cbrt p \<le> cbrt (((1 + e) * x) * ((1 + e) * x) * ((1 + e) * x))" by (rule cbrt_mono)
  then have hi: "cbrt p \<le> (1 + e) * x" by (simp only: cbrt_cube)
  from lo hi show ?thesis by simp
qed

lemma cube_nonneg: "0 \<le> x * x * x \<Longrightarrow> 0 \<le> (x :: real)"
proof (rule ccontr)
  assume a: "0 \<le> x * x * x" and "\<not> 0 \<le> x"
  then have "x < 0" by simp
  then have "0 < x * x" by (simp add: zero_less_mult_iff)
  with \<open>x < 0\<close> have "x * x * x < 0" by (simp add: mult_less_0_iff)
  with a show False by simp
qed

lemma cube_le: "0 \<le> x \<Longrightarrow> x * x * x \<le> 1.01 \<Longrightarrow> x \<le> (1.01 :: real)"
proof (rule ccontr)
  assume a: "0 \<le> x" "x * x * x \<le> 1.01" "\<not> x \<le> 1.01"
  then have "1.01 < x" by simp
  then have "1.01 * 1.01 \<le> x * x" by (intro mult_mono) simp_all
  then have "1.01 * 1.01 * 1.01 \<le> x * x * x" using \<open>1.01 < x\<close> by (intro mult_mono) simp_all
  with a(2) show False by simp
qed

lemma near_bounds:
  fixes x y :: real
  assumes "\<bar>y - x\<bar> \<le> e * x"
  shows "(1 - e) * x \<le> y" "y \<le> (1 + e) * x"
  using assms by (simp_all add: abs_le_iff algebra_simps)

lemma lms3_bounds:
  fixes l3 m3 s3 R G B R' G' B' :: real
  assumes R: "R = 4.0767416621 * l3 - 3.3077115913 * m3 + 0.2309699292 * s3"
    and G: "G = - 1.2684380046 * l3 + 2.6097574011 * m3 - 0.3413193965 * s3"
    and B: "B = - 0.0041960863 * l3 - 0.7034186147 * m3 + 1.707614701 * s3"
    and pos: "0 \<le> R" "0 \<le> G" "0 \<le> B"
    and le: "R \<le> 1" "G \<le> 1" "B \<le> 1"
    and R': "(1 - 5 / 10 ^ 6) * R \<le> R'" "R' \<le> (1 + 5 / 10 ^ 6) * R"
    and G': "(1 - 5 / 10 ^ 6) * G \<le> G'" "G' \<le> (1 + 5 / 10 ^ 6) * G"
    and B': "(1 - 5 / 10 ^ 6) * B \<le> B'" "B' \<le> (1 + 5 / 10 ^ 6) * B"
  shows "0 \<le> l3" "0 \<le> m3" "0 \<le> s3" "l3 \<le> 1.01" "m3 \<le> 1.01" "s3 \<le> 1.01"
    "(1 - 6 / 10 ^ 6) * l3 \<le> 0.4122214708 * R' + 0.5363325363 * G' + 0.0514459929 * B'"
    "0.4122214708 * R' + 0.5363325363 * G' + 0.0514459929 * B' \<le> (1 + 6 / 10 ^ 6) * l3"
    "(1 - 6 / 10 ^ 6) * m3 \<le> 0.2119034982 * R' + 0.6806995451 * G' + 0.1073969566 * B'"
    "0.2119034982 * R' + 0.6806995451 * G' + 0.1073969566 * B' \<le> (1 + 6 / 10 ^ 6) * m3"
    "(1 - 6 / 10 ^ 6) * s3 \<le> 0.0883024619 * R' + 0.2817188376 * G' + 0.6299787005 * B'"
    "0.0883024619 * R' + 0.2817188376 * G' + 0.6299787005 * B' \<le> (1 + 6 / 10 ^ 6) * s3"
  using assms by simp_all

lemma lab_bounds:
  fixes L a b l m s l' m' s' :: real
  assumes l: "l = L + 0.3963377774 * a + 0.2158037573 * b"
    and m: "m = L - 0.1055613458 * a - 0.0638541728 * b"
    and s: "s = L - 0.0894841775 * a - 1.291485548 * b"
    and pos: "0 \<le> l" "0 \<le> m" "0 \<le> s"
    and le: "l \<le> 1.01" "m \<le> 1.01" "s \<le> 1.01"
    and l': "(1 - 6 / 10 ^ 6) * l \<le> l'" "l' \<le> (1 + 6 / 10 ^ 6) * l"
    and m': "(1 - 6 / 10 ^ 6) * m \<le> m'" "m' \<le> (1 + 6 / 10 ^ 6) * m"
    and s': "(1 - 6 / 10 ^ 6) * s \<le> s'" "s' \<le> (1 + 6 / 10 ^ 6) * s"
  shows "0.2104542553 * l' + 0.793617785 * m' - 0.0040720468 * s' - L \<le> 1 / 10 ^ 5"
    "- (0.2104542553 * l' + 0.793617785 * m' - 0.0040720468 * s' - L) \<le> 1 / 10 ^ 5"
    "1.9779984951 * l' - 2.428592205 * m' + 0.4505937099 * s' - a \<le> 4 / 10 ^ 5"
    "- (1.9779984951 * l' - 2.428592205 * m' + 0.4505937099 * s' - a) \<le> 4 / 10 ^ 5"
    "0.0259040371 * l' + 0.7827717662 * m' - 0.808675766 * s' - b \<le> 2 / 10 ^ 5"
    "- (0.0259040371 * l' + 0.7827717662 * m' - 0.808675766 * s' - b) \<le> 2 / 10 ^ 5"
  using assms by simp_all

lemma oklab_roundtrip:
  assumes gamut: "0 \<le> r (oklabToRgbRaw lab)" "r (oklabToRgbRaw lab) \<le> 1"
    "0 \<le> g (oklabToRgbRaw lab)" "g (oklabToRgbRaw lab) \<le> 1"
    "0 \<le> b (oklabToRgbRaw lab)" "b (oklabToRgbRaw lab) \<le> 1"
  shows "\<bar>labL (rgbToOklab (oklabToRgbRaw lab)) - labL lab\<bar> \<le> 1 / 10 ^ 5"
    "\<bar>laba (rgbToOklab (oklabToRgbRaw lab)) - laba lab\<bar> \<le> 4 / 10 ^ 5"
    "\<bar>labb (rgbToOklab (oklabToRgbRaw lab)) - labb lab\<bar> \<le> 2 / 10 ^ 5"
proof -
  define l where "l = labL lab + 0.3963377774 * laba lab + 0.2158037573 * labb lab"
  define m where "m = labL lab - 0.1055613458 * laba lab - 0.0638541728 * labb lab"
  define s where "s = labL lab - 0.0894841775 * laba lab - 1.291485548 * labb lab"
  define l3 where "l3 = l * l * l"
  define m3 where "m3 = m * m * m"
  define s3 where "s3 = s * s * s"
  define R where "R = 4.0767416621 * l3 - 3.3077115913 * m3 + 0.2309699292 * s3"
  define G where "G = - 1.2684380046 * l3 + 2.6097574011 * m3 - 0.3413193965 * s3"
  define B where "B = - 0.0041960863 * l3 - 0.7034186147 * m3 + 1.707614701 * s3"
  define R' where "R' = linearize (delinearize R)"
  define G' where "G' = linearize (delinearize G)"
  define B' where "B' = linearize (delinearize B)"
  define l' where "l' = cbrt (0.4122214708 * R' + 0.5363325363 * G' + 0.0514459929 * B')"
  define m' where "m' = cbrt (0.2119034982 * R' + 0.6806995451 * G' + 0.1073969566 * B')"
  define s' where "s' = cbrt (0.0883024619 * R' + 0.2817188376 * G' + 0.6299787005 * B')"
  have raw: "oklabToRgbRaw lab = \<lparr> r = delinearize R, g = delinearize G, b = delinearize B \<rparr>"
    unfolding oklabToRgbRaw_def Let_def R_def G_def B_def l3_def m3_def s3_def l_def m_def s_def
    by (rule refl)
  have bk: "rgbToOklab (oklabToRgbRaw lab) =
      \<lparr> labL = 0.2104542553 * l' + 0.793617785 * m' - 0.0040720468 * s',
        laba = 1.9779984951 * l' - 2.428592205 * m' + 0.4505937099 * s',
        labb = 0.0259040371 * l' + 0.7827717662 * m' - 0.808675766 * s' \<rparr>"
    unfolding raw rgbToOklab_def Let_def l'_def m'_def s'_def R'_def G'_def B'_def by simp
  from gamut have Rr: "0 \<le> R \<and> R \<le> 1" and Gr: "0 \<le> G \<and> G \<le> 1" and Br: "0 \<le> B \<and> B \<le> 1"
    by (simp_all add: raw delinearize_range)
  have R'b: "(1 - 5 / 10 ^ 6) * R \<le> R'" "R' \<le> (1 + 5 / 10 ^ 6) * R"
    using Rr unfolding R'_def by (intro near_bounds linearize_delinearize; simp)+
  have G'b: "(1 - 5 / 10 ^ 6) * G \<le> G'" "G' \<le> (1 + 5 / 10 ^ 6) * G"
    using Gr unfolding G'_def by (intro near_bounds linearize_delinearize; simp)+
  have B'b: "(1 - 5 / 10 ^ 6) * B \<le> B'" "B' \<le> (1 + 5 / 10 ^ 6) * B"
    using Br unfolding B'_def by (intro near_bounds linearize_delinearize; simp)+
  note lms = lms3_bounds [OF R_def G_def B_def conjunct1 [OF Rr] conjunct1 [OF Gr] conjunct1 [OF Br]
      conjunct2 [OF Rr] conjunct2 [OF Gr] conjunct2 [OF Br] R'b G'b B'b]
  have lpos: "0 \<le> l" using lms(1) unfolding l3_def by (rule cube_nonneg)
  have mpos: "0 \<le> m" using lms(2) unfolding m3_def by (rule cube_nonneg)
  have spos: "0 \<le> s" using lms(3) unfolding s3_def by (rule cube_nonneg)
  have lle: "l \<le> 1.01" using lpos lms(4) unfolding l3_def by (rule cube_le)
  have mle: "m \<le> 1.01" using mpos lms(5) unfolding m3_def by (rule cube_le)
  have sle: "s \<le> 1.01" using spos lms(6) unfolding s3_def by (rule cube_le)
  have e: "(0 :: real) \<le> 6 / 10 ^ 6" "(6 / 10 ^ 6 :: real) \<le> 1" by simp_all
  have l'b: "(1 - 6 / 10 ^ 6) * l \<le> l' \<and> l' \<le> (1 + 6 / 10 ^ 6) * l"
    unfolding l'_def by (rule cbrt_near [OF lpos e lms(7,8) [unfolded l3_def]])
  have m'b: "(1 - 6 / 10 ^ 6) * m \<le> m' \<and> m' \<le> (1 + 6 / 10 ^ 6) * m"
    unfolding m'_def by (rule cbrt_near [OF mpos e lms(9,10) [unfolded m3_def]])
  have s'b: "(1 - 6 / 10 ^ 6) * s \<le> s' \<and> s' \<le> (1 + 6 / 10 ^ 6) * s"
    unfolding s'_def by (rule cbrt_near [OF spos e lms(11,12) [unfolded s3_def]])
  note fin = lab_bounds [OF l_def m_def s_def lpos mpos spos lle mle sle
      conjunct1 [OF l'b] conjunct2 [OF l'b] conjunct1 [OF m'b] conjunct2 [OF m'b]
      conjunct1 [OF s'b] conjunct2 [OF s'b]]
  show "\<bar>labL (rgbToOklab (oklabToRgbRaw lab)) - labL lab\<bar> \<le> 1 / 10 ^ 5"
    unfolding bk Lab.select_convs using fin(1,2) by (rule abs_leI)
  show "\<bar>laba (rgbToOklab (oklabToRgbRaw lab)) - laba lab\<bar> \<le> 4 / 10 ^ 5"
    unfolding bk Lab.select_convs using fin(3,4) by (rule abs_leI)
  show "\<bar>labb (rgbToOklab (oklabToRgbRaw lab)) - labb lab\<bar> \<le> 2 / 10 ^ 5"
    unfolding bk Lab.select_convs using fin(5,6) by (rule abs_leI)
qed

lemma chroma_diff:
  fixes x y x' y' :: real
  shows "\<bar>sqrt (x' * x' + y' * y') - sqrt (x * x + y * y)\<bar> \<le> \<bar>x' - x\<bar> + \<bar>y' - y\<bar>"
proof -
  have "\<bar>cmod (Complex x' y') - cmod (Complex x y)\<bar> \<le> cmod (Complex x' y' - Complex x y)"
    by (rule norm_triangle_ineq3)
  also have "\<dots> \<le> \<bar>Re (Complex x' y' - Complex x y)\<bar> + \<bar>Im (Complex x' y' - Complex x y)\<bar>"
    by (rule cmod_le)
  finally show ?thesis by (simp add: cmod_def power2_eq_square)
qed

lemma polar_chroma:
  fixes c t :: real
  assumes "0 \<le> c"
  shows "sqrt (c * cos t * (c * cos t) + c * sin t * (c * sin t)) = c"
proof -
  have e: "c * cos t * (c * cos t) + c * sin t * (c * sin t) = c * c"
    using sin_cos_squared_add3 [of t] by algebra
  show ?thesis unfolding e using assms by simp
qed

lemma delinearize_unit:
  assumes "0.05 \<le> x" "x \<le> 1"
  shows "0 \<le> delinearize x" "delinearize x \<le> 1"
proof -
  have "(0.06 :: real) \<le> 0.05 powr (1 / 2.4)"
    by (rule powr_inv24_ge) (simp_all add: field_simps)
  also have "\<dots> \<le> x powr (1 / 2.4)" using assms by (intro powr_mono2) simp_all
  finally show "0 \<le> delinearize x" using assms by (simp add: delinearize_def)
  have "x powr (1 / 2.4) \<le> 1 powr (1 / 2.4)" using assms by (intro powr_mono2) simp_all
  then show "delinearize x \<le> 1" using assms by (simp add: delinearize_def)
qed

lemma dustyRose_gamut:
  "0 \<le> r (oklabToRgbRaw (oklchToOklab dustyRose)) \<and> r (oklabToRgbRaw (oklchToOklab dustyRose)) \<le> 1 \<and>
   0 \<le> g (oklabToRgbRaw (oklchToOklab dustyRose)) \<and> g (oklabToRgbRaw (oklchToOklab dustyRose)) \<le> 1 \<and>
   0 \<le> b (oklabToRgbRaw (oklchToOklab dustyRose)) \<and> b (oklabToRgbRaw (oklchToOklab dustyRose)) \<le> 1"
proof -
  have lab: "oklchToOklab dustyRose = \<lparr> labL = 1 / 2, laba = 1 / 10, labb = 0 \<rparr>"
    by (simp add: oklchToOklab_def dustyRose_def)
  show ?thesis by (simp add: lab oklabToRgbRaw_def Let_def delinearize_unit)
qed

text \<open>
  C8 (as amended).  For every OKLCH value with a chroma that is not negative and whose
  unclipped sRGB image has its three channels in \<open>[0, 1]\<close>, the round trip through
  \<open>oklchToOklab\<close>, \<open>oklabToRgbRaw\<close>, \<open>rgbToOklab\<close> and \<open>oklabToOklch\<close> gives back
  the lightness and the chroma within \<open>1e-4\<close>, and the Cartesian pair
  \<open>(C cos H, C sin H)\<close> within \<open>1e-4\<close>.  Nothing is said of the hue angle itself.
\<close>

theorem oklch_roundtrip_L_C:
  assumes "0 \<le> lchC lch"
    and "0 \<le> r (oklabToRgbRaw (oklchToOklab lch))" "r (oklabToRgbRaw (oklchToOklab lch)) \<le> 1"
    and "0 \<le> g (oklabToRgbRaw (oklchToOklab lch))" "g (oklabToRgbRaw (oklchToOklab lch)) \<le> 1"
    and "0 \<le> b (oklabToRgbRaw (oklchToOklab lch))" "b (oklabToRgbRaw (oklchToOklab lch)) \<le> 1"
  shows "\<bar>lchL (oklabToOklch (rgbToOklab (oklabToRgbRaw (oklchToOklab lch)))) - lchL lch\<bar> \<le> 1 / 10 ^ 4 \<and>
         \<bar>lchC (oklabToOklch (rgbToOklab (oklabToRgbRaw (oklchToOklab lch)))) - lchC lch\<bar> \<le> 1 / 10 ^ 4 \<and>
         \<bar>laba (rgbToOklab (oklabToRgbRaw (oklchToOklab lch))) - lchC lch * cos (lchH lch * pi / 180)\<bar> \<le> 1 / 10 ^ 4 \<and>
         \<bar>labb (rgbToOklab (oklabToRgbRaw (oklchToOklab lch))) - lchC lch * sin (lchH lch * pi / 180)\<bar> \<le> 1 / 10 ^ 4"
proof -
  let ?lab = "oklchToOklab lch"
  let ?res = "rgbToOklab (oklabToRgbRaw ?lab)"
  note rt = oklab_roundtrip [OF assms(2-7)]
  have "\<bar>labL ?res - lchL lch\<bar> \<le> 1 / 10 ^ 5" using rt(1) by (simp add: oklchToOklab_def)
  then have L: "\<bar>lchL (oklabToOklch ?res) - lchL lch\<bar> \<le> 1 / 10 ^ 4"
    by (simp add: oklabToOklch_def)
  have c: "sqrt (laba ?lab * laba ?lab + labb ?lab * labb ?lab) = lchC lch"
    using polar_chroma [OF assms(1)] by (simp add: oklchToOklab_def)
  have "\<bar>sqrt (laba ?res * laba ?res + labb ?res * labb ?res)
        - sqrt (laba ?lab * laba ?lab + labb ?lab * labb ?lab)\<bar>
      \<le> \<bar>laba ?res - laba ?lab\<bar> + \<bar>labb ?res - labb ?lab\<bar>"
    by (rule chroma_diff)
  also have "\<dots> \<le> 4 / 10 ^ 5 + 2 / 10 ^ 5" using rt(2,3) by (rule add_mono)
  finally have C: "\<bar>lchC (oklabToOklch ?res) - lchC lch\<bar> \<le> 1 / 10 ^ 4"
    unfolding c by (simp add: oklabToOklch_def)
  have A: "\<bar>laba ?res - lchC lch * cos (lchH lch * pi / 180)\<bar> \<le> 1 / 10 ^ 4"
    using rt(2) by (simp add: oklchToOklab_def)
  have B: "\<bar>labb ?res - lchC lch * sin (lchH lch * pi / 180)\<bar> \<le> 1 / 10 ^ 4"
    using rt(3) by (simp add: oklchToOklab_def)
  from L C A B show ?thesis by simp
qed

text \<open>The round trip of a chromatic colour inside the gamut.\<close>

theorem oklch_roundtrip_L_C_witness:
  "0 \<le> lchC dustyRose \<and> 0 < lchC dustyRose \<and>
   0 \<le> r (oklabToRgbRaw (oklchToOklab dustyRose)) \<and> r (oklabToRgbRaw (oklchToOklab dustyRose)) \<le> 1 \<and>
   0 \<le> g (oklabToRgbRaw (oklchToOklab dustyRose)) \<and> g (oklabToRgbRaw (oklchToOklab dustyRose)) \<le> 1 \<and>
   0 \<le> b (oklabToRgbRaw (oklchToOklab dustyRose)) \<and> b (oklabToRgbRaw (oklchToOklab dustyRose)) \<le> 1 \<and>
   \<bar>lchL (oklabToOklch (rgbToOklab (oklabToRgbRaw (oklchToOklab dustyRose)))) - 1 / 2\<bar> \<le> 1 / 10 ^ 4 \<and>
   \<bar>lchC (oklabToOklch (rgbToOklab (oklabToRgbRaw (oklchToOklab dustyRose)))) - 1 / 10\<bar> \<le> 1 / 10 ^ 4"
proof -
  have c: "0 \<le> lchC dustyRose" by (simp add: dustyRose_def)
  have v: "lchL dustyRose = 1 / 2" "lchC dustyRose = 1 / 10" by (simp_all add: dustyRose_def)
  note g = dustyRose_gamut
  from oklch_roundtrip_L_C [of dustyRose, OF c g [THEN conjunct1] g [THEN conjunct2, THEN conjunct1]
      g [THEN conjunct2, THEN conjunct2, THEN conjunct1]
      g [THEN conjunct2, THEN conjunct2, THEN conjunct2, THEN conjunct1]
      g [THEN conjunct2, THEN conjunct2, THEN conjunct2, THEN conjunct2, THEN conjunct1]
      g [THEN conjunct2, THEN conjunct2, THEN conjunct2, THEN conjunct2, THEN conjunct2]]
  show ?thesis using g by (simp add: v)
qed

text \<open>
  The hue is not given back on the grey axis: black with hue 180 is in gamut and comes
  back with hue 0.
\<close>

theorem oklch_roundtrip_hue_counterexample:
  "oklabToRgbRaw (oklchToOklab \<lparr> lchL = 0, lchC = 0, lchH = 180 \<rparr>) = \<lparr> r = 0, g = 0, b = 0 \<rparr> \<and>
   lchH (oklabToOklch (rgbToOklab (oklabToRgbRaw (oklchToOklab \<lparr> lchL = 0, lchC = 0, lchH = 180 \<rparr>)))) = 0 \<and>
   \<not> \<bar>lchH (oklabToOklch (rgbToOklab (oklabToRgbRaw (oklchToOklab \<lparr> lchL = 0, lchC = 0, lchH = 180 \<rparr>))))
        - lchH \<lparr> lchL = 0, lchC = 0, lchH = 180 \<rparr>\<bar> \<le> 1 / 10 ^ 4"
proof -
  have raw: "oklabToRgbRaw (oklchToOklab \<lparr> lchL = 0, lchC = 0, lchH = 180 \<rparr>) = \<lparr> r = 0, g = 0, b = 0 \<rparr>"
    by (simp add: oklchToOklab_def oklabToRgbRaw_def delinearize_def Let_def)
  have lab: "rgbToOklab \<lparr> r = 0, g = 0, b = 0 \<rparr> = \<lparr> labL = 0, laba = 0, labb = 0 \<rparr>"
    by (simp add: rgbToOklab_def linearize_def cbrt_def)
  have h: "lchH (oklabToOklch \<lparr> labL = 0, laba = 0, labb = 0 \<rparr>) = 0"
    by (simp add: oklabToOklch_def atan2_def jsMod_def jsTrunc_def)
  show ?thesis unfolding raw lab h by simp
qed

end
